(* ===== verification/Prelude.thy ===== *)
theory Prelude
  imports Main "HOL-Library.AList" "HOL-Library.Multiset" "HOL-Library.List_Lexorder"
    "HOL-Library.Char_ord"
begin

text \<open>
  The vocabulary every component shares: errors, outcomes and the actions that call the API
  server, with rules for the requests an action may send.

  A program action is a function from the list of requests sent so far to an outcome and the
  longer list. Code outside the repository (the API server, the clock) answers each request by a
  function of the whole list of requests before it, so an answer may depend on anything that
  happened earlier; the theorems quantify over these functions. \<open>Err\<close> is an error return
  and \<open>Panic\<close> a Go panic, which the reconcilers recover.
\<close>

section \<open>Proof collections\<close>

named_theorems emits_intros \<open>closure rules for the requests an action may send\<close>
named_theorems succeeds_intros \<open>closure rules for actions that always return\<close>
named_theorems panic_free_intros \<open>closure rules for actions that never panic\<close>
named_theorems io_defs \<open>definitions of the action combinators\<close>

section \<open>Errors, outcomes and actions\<close>

datatype err = NotFound | Conflict | Invalid | NamespaceTerminating | Msg string
  | Aggregate "err list"

datatype 'a res = Ok 'a | Err err | Panic err

type_synonym ('q, 'a) io = "'q list \<Rightarrow> 'a res \<times> 'q list"

definition ret :: "'a \<Rightarrow> ('q, 'a) io" where
  "ret x h = (Ok x, h)"

definition fail :: "err \<Rightarrow> ('q, 'a) io" where
  "fail e h = (Err e, h)"

definition panic :: "err \<Rightarrow> ('q, 'a) io" where
  "panic e h = (Panic e, h)"

definition nil_deref :: "('q, 'a) io" where
  "nil_deref = panic (Msg ''invalid memory address or nil pointer dereference'')"

definition bind_io :: "('q, 'a) io \<Rightarrow> ('a \<Rightarrow> ('q, 'b) io) \<Rightarrow> ('q, 'b) io" where
  "bind_io m f h = (case m h of
     (Ok x, h') \<Rightarrow> f x h'
   | (Err e, h') \<Rightarrow> (Err e, h')
   | (Panic e, h') \<Rightarrow> (Panic e, h'))"

definition then_io :: "('q, unit) io \<Rightarrow> ('q, 'b) io \<Rightarrow> ('q, 'b) io" where
  "then_io m n = bind_io m (\<lambda>_. n)"

text \<open>An error return inspected by the caller; a panic still unwinds.\<close>

definition attempt :: "('q, 'a) io \<Rightarrow> ('q, err + 'a) io" where
  "attempt m h = (case m h of
     (Ok x, h') \<Rightarrow> (Ok (Inr x), h')
   | (Err e, h') \<Rightarrow> (Ok (Inl e), h')
   | (Panic e, h') \<Rightarrow> (Panic e, h'))"

text \<open>A deferred \<open>recover\<close> that turns a panic into an error return.\<close>

definition recover_io :: "('q, 'a) io \<Rightarrow> ('q, 'a) io" where
  "recover_io m h = (case m h of (Panic e, h') \<Rightarrow> (Err e, h') | r \<Rightarrow> r)"

definition of_sum :: "err + 'a \<Rightarrow> ('q, 'a) io" where
  "of_sum s = (case s of Inl e \<Rightarrow> fail e | Inr x \<Rightarrow> ret x)"

definition deref :: "'a option \<Rightarrow> ('q, 'a) io" where
  "deref p = (case p of None \<Rightarrow> nil_deref | Some x \<Rightarrow> ret x)"

definition call :: "'q \<Rightarrow> ('q list \<Rightarrow> err + 'a) \<Rightarrow> ('q, 'a) io" where
  "call q f h = ((case f h of Inl e \<Rightarrow> Err e | Inr x \<Rightarrow> Ok x), h @ [q])"

definition emit :: "'q \<Rightarrow> ('q, unit) io" where
  "emit q h = (Ok (), h @ [q])"

primrec for_io :: "('x \<Rightarrow> 's \<Rightarrow> ('q, 's) io) \<Rightarrow> 'x list \<Rightarrow> 's \<Rightarrow> ('q, 's) io" where
  "for_io f [] s = ret s"
| "for_io f (x # xs) s = bind_io (f x s) (for_io f xs)"

text \<open>
  \<open>retry.RetryOnConflict\<close>: the function is tried again while it reports a conflict, at most
  \<open>Steps\<close> times in all, and the last conflict is returned when the tries are used up.
\<close>

fun retryOnConflict :: "nat \<Rightarrow> ('q, 'a) io \<Rightarrow> ('q, 'a) io" where
  "retryOnConflict 0 f = fail Conflict"
| "retryOnConflict (Suc 0) f = f"
| "retryOnConflict (Suc (Suc n)) f = bind_io (attempt f) (\<lambda>r.
     (case r of
        Inl Conflict \<Rightarrow> retryOnConflict (Suc n) f
      | Inl e \<Rightarrow> fail e
      | Inr x \<Rightarrow> ret x))"

definition DefaultBackoffSteps :: nat where
  "DefaultBackoffSteps = 4"

lemmas [io_defs] = ret_def fail_def panic_def nil_deref_def bind_io_def then_io_def attempt_def
  recover_io_def of_sum_def deref_def call_def emit_def

section \<open>What an action may send\<close>

text \<open>
  \<open>emits P m\<close>: whatever the API server answers, the action only appends to the requests sent
  so far, and every request it appends satisfies \<open>P\<close>.
\<close>

definition emits :: "('q \<Rightarrow> bool) \<Rightarrow> ('q, 'a) io \<Rightarrow> bool" where
  "emits P m \<longleftrightarrow> (\<forall>h. \<exists>l. snd (m h) = h @ l \<and> list_all P l)"

lemma emitsI: "(\<And>h. \<exists>l. snd (m h) = h @ l \<and> list_all P l) \<Longrightarrow> emits P m"
  by (simp add: emits_def)

lemma emitsD: "emits P m \<Longrightarrow> m h = (r, h') \<Longrightarrow> \<exists>l. h' = h @ l \<and> list_all P l"
  by (metis emits_def snd_conv)

lemma emits_ret [emits_intros]: "emits P (ret x)"
  by (simp add: emits_def ret_def)

lemma emits_fail [emits_intros]: "emits P (fail e)"
  by (simp add: emits_def fail_def)

lemma emits_panic [emits_intros]: "emits P (panic e)"
  by (simp add: emits_def panic_def)

lemma emits_nil_deref [emits_intros]: "emits P nil_deref"
  by (simp add: nil_deref_def emits_panic)

text \<open>The continuation needs its rule only for the values the first action can return.\<close>

lemma emits_bind_ok:
  assumes "emits P m" and "\<And>x h h'. m h = (Ok x, h') \<Longrightarrow> emits P (f x)"
  shows "emits P (bind_io m f)"
proof (rule emitsI)
  fix h
  obtain r h' where m: "m h = (r, h')" by (cases "m h") auto
  obtain l where l: "h' = h @ l" "list_all P l"
    using emitsD [OF assms(1) m] by blast
  show "\<exists>l. snd (bind_io m f h) = h @ l \<and> list_all P l"
  proof (cases r)
    case (Ok x)
    with m assms(2) have "emits P (f x)" by simp
    then obtain l' where "snd (f x h') = h' @ l'" "list_all P l'"
      unfolding emits_def by blast
    with m l Ok show ?thesis
      by (intro exI [of _ "l @ l'"]) (simp add: bind_io_def)
  qed (use m l in \<open>auto simp: bind_io_def\<close>)
qed

lemma emits_bind [emits_intros]:
  "emits P m \<Longrightarrow> (\<And>x. emits P (f x)) \<Longrightarrow> emits P (bind_io m f)"
  by (rule emits_bind_ok)

lemma emits_then [emits_intros]: "emits P m \<Longrightarrow> emits P n \<Longrightarrow> emits P (then_io m n)"
  by (simp add: then_io_def emits_bind)

lemma emits_attempt [emits_intros]:
  assumes "emits P m" shows "emits P (attempt m)"
proof -
  have "snd (attempt m h) = snd (m h)" for h
    by (simp add: attempt_def split: prod.splits res.splits)
  with assms show ?thesis by (simp add: emits_def)
qed

lemma emits_recover [emits_intros]:
  assumes "emits P m" shows "emits P (recover_io m)"
proof -
  have "snd (recover_io m h) = snd (m h)" for h
    by (simp add: recover_io_def split: prod.splits res.splits)
  with assms show ?thesis by (simp add: emits_def)
qed

lemma emits_of_sum [emits_intros]: "emits P (of_sum s)"
  by (cases s) (auto simp: of_sum_def emits_intros)

lemma emits_deref [emits_intros]: "emits P (deref p)"
  by (cases p) (auto simp: deref_def emits_intros)

lemma emits_call [emits_intros]: "P q \<Longrightarrow> emits P (call q f)"
  by (simp add: emits_def call_def)

lemma emits_emit [emits_intros]: "P q \<Longrightarrow> emits P (emit q)"
  by (simp add: emits_def emit_def)

lemma emits_for:
  assumes "\<And>x s. x \<in> set xs \<Longrightarrow> emits P (f x s)"
  shows "emits P (for_io f xs s)"
  using assms
  by (induction xs arbitrary: s) (auto intro!: emits_intros)

lemma emits_for_inv:
  assumes "I s" and "\<And>x s. x \<in> set xs \<Longrightarrow> I s \<Longrightarrow> emits P (f x s)"
    and "\<And>x s h t h'. x \<in> set xs \<Longrightarrow> I s \<Longrightarrow> f x s h = (Ok t, h') \<Longrightarrow> I t"
  shows "emits P (for_io f xs s)"
  using assms
proof (induction xs arbitrary: s)
  case Nil
  show ?case by (simp add: emits_ret)
next
  case (Cons x xs)
  have "emits P (for_io f xs t)" if "f x s h = (Ok t, h')" for h t h'
  proof (rule Cons.IH)
    show "I t" using Cons.prems(1,3) that by (metis list.set_intros(1))
    show "emits P (f y u)" if "y \<in> set xs" "I u" for y u
      using Cons.prems(2) that by simp
    show "I v" if "y \<in> set xs" "I u" "f y u g = (Ok v, g')" for y u g v g'
      using Cons.prems(3) that by (metis list.set_intros(2))
  qed
  with Cons.prems show ?case by (auto intro!: emits_bind_ok)
qed

lemma emits_retry [emits_intros]: "emits P f \<Longrightarrow> emits P (retryOnConflict n f)"
  by (induction n f rule: retryOnConflict.induct)
    (auto intro!: emits_intros split: sum.split err.split)

lemma emits_if [emits_intros]:
  "(b \<Longrightarrow> emits P m) \<Longrightarrow> (\<not> b \<Longrightarrow> emits P n) \<Longrightarrow> emits P (if b then m else n)"
  by simp

lemma emits_case_option [emits_intros]:
  "(p = None \<Longrightarrow> emits P m) \<Longrightarrow> (\<And>x. p = Some x \<Longrightarrow> emits P (f x)) \<Longrightarrow>
   emits P (case p of None \<Rightarrow> m | Some x \<Rightarrow> f x)"
  by (cases p) auto

lemma emits_case_sum [emits_intros]:
  "(\<And>x. p = Inl x \<Longrightarrow> emits P (f x)) \<Longrightarrow> (\<And>x. p = Inr x \<Longrightarrow> emits P (g x)) \<Longrightarrow>
   emits P (case p of Inl x \<Rightarrow> f x | Inr x \<Rightarrow> g x)"
  by (cases p) auto

lemma emits_case_prod [emits_intros]:
  "(\<And>x y. p = (x, y) \<Longrightarrow> emits P (f x y)) \<Longrightarrow> emits P (case p of (x, y) \<Rightarrow> f x y)"
  by (cases p) auto

lemma emits_case_list [emits_intros]:
  "(p = [] \<Longrightarrow> emits P m) \<Longrightarrow> (\<And>x xs. p = x # xs \<Longrightarrow> emits P (f x xs)) \<Longrightarrow>
   emits P (case p of [] \<Rightarrow> m | x # xs \<Rightarrow> f x xs)"
  by (cases p) auto

lemma emits_case_err [emits_intros]:
  "emits P a \<Longrightarrow> emits P b \<Longrightarrow> emits P c \<Longrightarrow> emits P d \<Longrightarrow> (\<And>x. emits P (f x)) \<Longrightarrow>
   (\<And>x. emits P (g x)) \<Longrightarrow>
   emits P (case e of NotFound \<Rightarrow> a | Conflict \<Rightarrow> b | Invalid \<Rightarrow> c | NamespaceTerminating \<Rightarrow> d |
     Msg x \<Rightarrow> f x | Aggregate x \<Rightarrow> g x)"
  by (cases e) auto

lemma emits_case_bool [emits_intros]:
  "(b \<Longrightarrow> emits P m) \<Longrightarrow> (\<not> b \<Longrightarrow> emits P n) \<Longrightarrow> emits P (case b of True \<Rightarrow> m | False \<Rightarrow> n)"
  by (cases b) auto

lemma emits_Let [emits_intros]: "(\<And>x. x = t \<Longrightarrow> emits P (f x)) \<Longrightarrow> emits P (let x = t in f x)"
  by simp

lemma emits_mono: "emits P m \<Longrightarrow> (\<And>q. P q \<Longrightarrow> Q q) \<Longrightarrow> emits Q m"
  unfolding emits_def by (metis (mono_tags, lifting) list.pred_mono_strong)

section \<open>Stepping through an action\<close>

lemma bind_Ok: "m h = (Ok x, h') \<Longrightarrow> bind_io m f h = f x h'"
  by (simp add: bind_io_def)

lemma bind_Err: "m h = (Err e, h') \<Longrightarrow> bind_io m f h = (Err e, h')"
  by (simp add: bind_io_def)

lemma bind_Panic: "m h = (Panic e, h') \<Longrightarrow> bind_io m f h = (Panic e, h')"
  by (simp add: bind_io_def)

lemma bind_OkE:
  assumes "bind_io m f h = (Ok y, h'')"
  obtains x h' where "m h = (Ok x, h')" and "f x h' = (Ok y, h'')"
  using assms by (auto simp: bind_io_def split: prod.splits res.splits)

lemma bind_ret [simp]: "bind_io (ret x) f = f x"
  by (simp add: bind_io_def ret_def fun_eq_iff)

lemma bind_fail [simp]: "bind_io (fail e) f = fail e"
  by (simp add: bind_io_def fail_def fun_eq_iff)

lemma bind_panic [simp]: "bind_io (panic e) f = panic e"
  by (simp add: bind_io_def panic_def fun_eq_iff)

lemma bind_assoc: "bind_io (bind_io m f) g = bind_io m (\<lambda>x. bind_io (f x) g)"
  by (auto simp: bind_io_def fun_eq_iff split: prod.splits res.splits)

lemma ret_eq_Ok [simp]: "ret x h = (Ok y, h') \<longleftrightarrow> y = x \<and> h' = h"
  by (auto simp: ret_def)

lemma ret_inject [simp]: "ret x = ret y \<longleftrightarrow> x = y"
  by (auto simp: ret_def fun_eq_iff)

lemma fail_neq_Ok [simp]: "fail e h \<noteq> (Ok y, h')" "panic e h \<noteq> (Ok y, h')"
  "nil_deref h \<noteq> (Ok y, h')"
  by (simp_all add: fail_def panic_def nil_deref_def)

lemma deref_eq_Ok [simp]: "deref p h = (Ok x, h') \<longleftrightarrow> p = Some x \<and> h' = h"
  by (cases p) (auto simp: deref_def)

lemma deref_Some [simp]: "deref (Some x) = ret x"
  by (simp add: deref_def)

lemma of_sum_eq_Ok [simp]: "of_sum s h = (Ok x, h') \<longleftrightarrow> s = Inr x \<and> h' = h"
  by (cases s) (auto simp: of_sum_def)

lemma of_sum_simps [simp]: "of_sum (Inr x) = ret x" "of_sum (Inl e) = fail e"
  by (simp_all add: of_sum_def)

lemma call_eq_Ok [simp]: "call q f h = (Ok x, h') \<longleftrightarrow> f h = Inr x \<and> h' = h @ [q]"
  by (auto simp: call_def split: sum.splits)

lemma emit_eq [simp]: "emit q h = (r, h') \<longleftrightarrow> r = Ok () \<and> h' = h @ [q]"
  by (auto simp: emit_def)

lemma for_io_append: "for_io f (xs @ ys) s = bind_io (for_io f xs s) (for_io f ys)"
proof (induction xs arbitrary: s)
  case (Cons x xs)
  then have "for_io f (xs @ ys) = (\<lambda>s. bind_io (for_io f xs s) (for_io f ys))" by blast
  then show ?case by (simp add: bind_assoc)
qed simp

text \<open>A loop invariant over the loop state and the requests sent.\<close>

lemma for_io_inv:
  assumes "for_io f xs s h = (Ok s', h')" and "I s h"
    and "\<And>x s h t h'. x \<in> set xs \<Longrightarrow> I s h \<Longrightarrow> f x s h = (Ok t, h') \<Longrightarrow> I t h'"
  shows "I s' h'"
  using assms
proof (induction xs arbitrary: s h)
  case Nil
  then show ?case by simp
next
  case (Cons x xs)
  from Cons.prems(1) obtain t h1
    where 1: "f x s h = (Ok t, h1)" and 2: "for_io f xs t h1 = (Ok s', h')"
    by (auto elim: bind_OkE)
  from Cons.prems(3) [OF _ Cons.prems(2) 1] have "I t h1" by simp
  with 2 show ?case using Cons.IH Cons.prems(3) by (metis list.set_intros(2))
qed

text \<open>A retried action that succeeds ended with a successful try.\<close>

lemma retry_OkE:
  assumes "retryOnConflict n f h = (Ok x, h')"
  obtains g where "f g = (Ok x, h')"
  using assms
proof (induction n f arbitrary: h rule: retryOnConflict.induct)
  case (3 n f)
  then obtain r h1 where r: "attempt f h = (Ok r, h1)"
    "(case r of Inl Conflict \<Rightarrow> retryOnConflict (Suc n) f | Inl e \<Rightarrow> fail e | Inr x \<Rightarrow> ret x) h1 = (Ok x, h')"
    by (auto elim: bind_OkE)
  show ?case
  proof (cases r)
    case (Inl e)
    with r(2) have "e = Conflict" "retryOnConflict (Suc n) f h1 = (Ok x, h')"
      by (auto split: err.splits)
    with 3 Inl show ?thesis by blast
  next
    case (Inr y)
    with r have "f h = (Ok x, h')"
      by (auto simp: attempt_def split: prod.splits res.splits)
    with 3 show ?thesis by blast
  qed
qed auto

text \<open>The same, with the requests of the failed tries.\<close>

lemma retry_emitsE:
  assumes "retryOnConflict n f h = (Ok x, h')" and "emits P f"
  obtains l where "f (h @ l) = (Ok x, h')" and "list_all P l"
proof -
  have "\<exists>l. f (h @ l) = (Ok x, h') \<and> list_all P l"
    using assms
  proof (induction n f arbitrary: h rule: retryOnConflict.induct)
    case (2 f)
    then show ?case by (intro exI [of _ "[]"]) simp
  next
    case (3 n f)
    then obtain r h1 where r: "attempt f h = (Ok r, h1)"
      "(case r of Inl Conflict \<Rightarrow> retryOnConflict (Suc n) f | Inl e \<Rightarrow> fail e | Inr x \<Rightarrow> ret x) h1 = (Ok x, h')"
      by (auto elim: bind_OkE)
    obtain l where l: "h1 = h @ l" "list_all P l"
      using emitsD [OF emits_attempt [OF 3(3)] r(1)] by blast
    show ?case
    proof (cases r)
      case (Inl e)
      with r(2) have "retryOnConflict (Suc n) f (h @ l) = (Ok x, h')" "e = Conflict"
        by (auto simp: l split: err.splits)
      then obtain l' where "f ((h @ l) @ l') = (Ok x, h')" "list_all P l'"
        using 3(1) [OF _ 3(3)] by blast
      with l show ?thesis by (intro exI [of _ "l @ l'"]) simp
    next
      case (Inr y)
      with r have "f h = (Ok x, h')"
        by (auto simp: attempt_def split: prod.splits res.splits)
      then show ?thesis by (intro exI [of _ "[]"]) simp
    qed
  qed simp
  with that show thesis by blast
qed

section \<open>Actions that always return\<close>

text \<open>\<open>succeeds m\<close>: whatever happened before, the action returns without an error or a panic.\<close>

definition succeeds :: "('q, 'a) io \<Rightarrow> bool" where
  "succeeds m \<longleftrightarrow> (\<forall>h. \<exists>x h'. m h = (Ok x, h'))"

lemma succeedsE: "succeeds m \<Longrightarrow> (\<And>x h'. m h = (Ok x, h') \<Longrightarrow> thesis) \<Longrightarrow> thesis"
  by (auto simp: succeeds_def)

lemma succeeds_ret [succeeds_intros]: "succeeds (ret x)"
  by (simp add: succeeds_def ret_def)

lemma succeeds_bind [succeeds_intros]:
  assumes "succeeds m" and "\<And>x. succeeds (f x)" shows "succeeds (bind_io m f)"
  unfolding succeeds_def
proof
  fix h
  obtain x h' where "m h = (Ok x, h')" using assms(1) by (rule succeedsE)
  then show "\<exists>x h'. bind_io m f h = (Ok x, h')"
    using assms(2) by (simp add: bind_io_def succeeds_def)
qed

lemma succeeds_call [succeeds_intros]: "(\<And>h. \<exists>x. f h = Inr x) \<Longrightarrow> succeeds (call q f)"
  by (simp add: succeeds_def)

lemma succeeds_emit [succeeds_intros]: "succeeds (emit q)"
  by (simp add: succeeds_def emit_def)

lemma succeeds_if [succeeds_intros]:
  "(b \<Longrightarrow> succeeds m) \<Longrightarrow> (\<not> b \<Longrightarrow> succeeds n) \<Longrightarrow> succeeds (if b then m else n)"
  by simp

lemma succeeds_case_option [succeeds_intros]:
  "(p = None \<Longrightarrow> succeeds m) \<Longrightarrow> (\<And>x. p = Some x \<Longrightarrow> succeeds (f x)) \<Longrightarrow>
   succeeds (case p of None \<Rightarrow> m | Some x \<Rightarrow> f x)"
  by (cases p) auto

lemma succeeds_case_prod [succeeds_intros]:
  "(\<And>x y. p = (x, y) \<Longrightarrow> succeeds (f x y)) \<Longrightarrow> succeeds (case p of (x, y) \<Rightarrow> f x y)"
  by (cases p) auto

lemma succeeds_Let [succeeds_intros]: "(\<And>x. x = t \<Longrightarrow> succeeds (f x)) \<Longrightarrow> succeeds (let x = t in f x)"
  by simp

lemma succeeds_for [succeeds_intros]:
  "(\<And>x s. succeeds (f x s)) \<Longrightarrow> succeeds (for_io f xs s)"
  by (induction xs arbitrary: s) (auto intro: succeeds_intros)

lemma retry_first: "f h = (Ok x, h') \<Longrightarrow> 0 < n \<Longrightarrow> retryOnConflict n f h = (Ok x, h')"
  by (cases "(n, f)" rule: retryOnConflict.cases) (simp_all add: bind_io_def attempt_def ret_def)

lemma succeeds_retry [succeeds_intros]: "0 < n \<Longrightarrow> succeeds f \<Longrightarrow> succeeds (retryOnConflict n f)"
  unfolding succeeds_def by (metis retry_first)

section \<open>Actions that never panic\<close>

definition panic_free :: "('q, 'a) io \<Rightarrow> bool" where
  "panic_free m \<longleftrightarrow> (\<forall>h e. fst (m h) \<noteq> Panic e)"

lemma panic_free_ret [panic_free_intros]: "panic_free (ret x)"
  by (simp add: panic_free_def ret_def)

lemma panic_free_fail [panic_free_intros]: "panic_free (fail e)"
  by (simp add: panic_free_def fail_def)

lemma panic_free_bind_ok:
  assumes "panic_free m" and "\<And>x h h'. m h = (Ok x, h') \<Longrightarrow> panic_free (f x)"
  shows "panic_free (bind_io m f)"
  unfolding panic_free_def
proof (intro allI)
  fix h e
  obtain r h' where m: "m h = (r, h')" by (cases "m h")
  show "fst (bind_io m f h) \<noteq> Panic e"
  proof (cases r)
    case (Ok x)
    with m assms(2) have "panic_free (f x)" by simp
    with m Ok show ?thesis by (simp add: bind_io_def panic_free_def)
  next
    case (Err d)
    with m show ?thesis by (simp add: bind_io_def)
  next
    case (Panic d)
    with m assms(1) show ?thesis by (metis fst_conv panic_free_def)
  qed
qed

lemma panic_free_bind [panic_free_intros]:
  "panic_free m \<Longrightarrow> (\<And>x. panic_free (f x)) \<Longrightarrow> panic_free (bind_io m f)"
  by (rule panic_free_bind_ok)

lemma panic_free_attempt [panic_free_intros]:
  assumes "panic_free m" shows "panic_free (attempt m)"
  unfolding panic_free_def
proof (intro allI)
  fix h e
  obtain r h' where m: "m h = (r, h')" by (cases "m h")
  with assms have "\<And>e. r \<noteq> Panic e" by (metis fst_conv panic_free_def)
  with m show "fst (attempt m h) \<noteq> Panic e" by (cases r) (auto simp: attempt_def)
qed

lemma panic_free_of_sum [panic_free_intros]: "panic_free (of_sum s)"
  by (cases s) (auto intro: panic_free_intros)

lemma panic_free_deref: "p \<noteq> None \<Longrightarrow> panic_free (deref p)"
  by (auto intro: panic_free_intros)

lemma panic_free_call [panic_free_intros]: "panic_free (call q f)"
  by (simp add: panic_free_def call_def split: sum.split)

lemma panic_free_emit [panic_free_intros]: "panic_free (emit q)"
  by (simp add: panic_free_def emit_def)

lemma panic_free_for [panic_free_intros]:
  "(\<And>x s. panic_free (f x s)) \<Longrightarrow> panic_free (for_io f xs s)"
  by (induction xs arbitrary: s) (auto intro: panic_free_intros)

lemma panic_free_retry [panic_free_intros]: "panic_free f \<Longrightarrow> panic_free (retryOnConflict n f)"
  by (induction n f rule: retryOnConflict.induct)
    (auto intro!: panic_free_intros split: sum.split err.split)

lemma panic_free_if [panic_free_intros]:
  "(b \<Longrightarrow> panic_free m) \<Longrightarrow> (\<not> b \<Longrightarrow> panic_free n) \<Longrightarrow> panic_free (if b then m else n)"
  by simp

lemma panic_free_case_option [panic_free_intros]:
  "(p = None \<Longrightarrow> panic_free m) \<Longrightarrow> (\<And>x. p = Some x \<Longrightarrow> panic_free (f x)) \<Longrightarrow>
   panic_free (case p of None \<Rightarrow> m | Some x \<Rightarrow> f x)"
  by (cases p) auto

lemma panic_free_case_sum [panic_free_intros]:
  "(\<And>x. p = Inl x \<Longrightarrow> panic_free (f x)) \<Longrightarrow> (\<And>x. p = Inr x \<Longrightarrow> panic_free (g x)) \<Longrightarrow>
   panic_free (case p of Inl x \<Rightarrow> f x | Inr x \<Rightarrow> g x)"
  by (cases p) auto

lemma panic_free_case_prod [panic_free_intros]:
  "(\<And>x y. p = (x, y) \<Longrightarrow> panic_free (f x y)) \<Longrightarrow> panic_free (case p of (x, y) \<Rightarrow> f x y)"
  by (cases p) auto

lemma panic_free_case_bool [panic_free_intros]:
  "(b \<Longrightarrow> panic_free m) \<Longrightarrow> (\<not> b \<Longrightarrow> panic_free n) \<Longrightarrow>
   panic_free (case b of True \<Rightarrow> m | False \<Rightarrow> n)"
  by (cases b) auto

lemma panic_free_case_err [panic_free_intros]:
  "panic_free a \<Longrightarrow> panic_free b \<Longrightarrow> panic_free c \<Longrightarrow> panic_free d \<Longrightarrow> (\<And>x. panic_free (f x)) \<Longrightarrow>
   (\<And>x. panic_free (g x)) \<Longrightarrow>
   panic_free (case e of NotFound \<Rightarrow> a | Conflict \<Rightarrow> b | Invalid \<Rightarrow> c | NamespaceTerminating \<Rightarrow> d |
     Msg x \<Rightarrow> f x | Aggregate x \<Rightarrow> g x)"
  by (cases e) auto

lemma panic_free_Let [panic_free_intros]:
  "(\<And>x. x = t \<Longrightarrow> panic_free (f x)) \<Longrightarrow> panic_free (let x = t in f x)"
  by simp

lemma succeeds_attempt [succeeds_intros]:
  assumes "panic_free m" shows "succeeds (attempt m)"
  unfolding succeeds_def
proof
  fix h
  obtain r h' where m: "m h = (r, h')" by (cases "m h")
  with assms have "\<And>e. r \<noteq> Panic e" by (metis fst_conv panic_free_def)
  with m show "\<exists>x h'. attempt m h = (Ok x, h')" by (cases r) (auto simp: attempt_def)
qed

end
