(* ===== verification/GoLib.thy ===== *)
theory GoLib
  imports Prelude
begin

text \<open>
  The parts of Go and its standard library the controllers use: \<open>int32\<close> and \<open>int64\<close>
  arithmetic, \<open>strconv\<close>, \<open>strings\<close>, \<open>sort.Sort\<close>, maps as association
  lists, and the \<open>k8s.io/utils/integer\<close> helpers.
\<close>

section \<open>Fixed-width integers\<close>

text \<open>
  A Go integer is an \<open>int\<close>; each arithmetic operation on an \<open>int32\<close> (\<open>int64\<close>)
  is followed by \<open>i32\<close> (\<open>i64\<close>), the two's complement wrap-around.
\<close>

definition i32 :: "int \<Rightarrow> int" where
  "i32 x = (x + 2147483648) mod 4294967296 - 2147483648"

definition i64 :: "int \<Rightarrow> int" where
  "i64 x = (x + 9223372036854775808) mod 18446744073709551616 - 9223372036854775808"

definition is_i32 :: "int \<Rightarrow> bool" where
  "is_i32 x \<longleftrightarrow> - 2147483648 \<le> x \<and> x < 2147483648"

definition is_i64 :: "int \<Rightarrow> bool" where
  "is_i64 x \<longleftrightarrow> - 9223372036854775808 \<le> x \<and> x < 9223372036854775808"

definition MaxInt64 :: int where
  "MaxInt64 = 9223372036854775807"

lemma i32_id: "is_i32 x \<Longrightarrow> i32 x = x"
  by (simp add: i32_def is_i32_def)

lemma i32_idI: "- 2147483648 \<le> x \<Longrightarrow> x < 2147483648 \<Longrightarrow> i32 x = x"
  by (simp add: i32_def)

lemma i64_id: "is_i64 x \<Longrightarrow> i64 x = x"
  by (simp add: i64_def is_i64_def)

lemma is_i32_i32 [simp]: "is_i32 (i32 x)"
proof -
  have "0 \<le> (x + 2147483648) mod 4294967296" and "(x + 2147483648) mod 4294967296 < 4294967296"
    by simp_all
  then show ?thesis unfolding is_i32_def i32_def by linarith
qed

lemma i32_0 [simp]: "i32 0 = 0"
  by (simp add: i32_def)

section \<open>integer and math helpers\<close>

definition Int32Min :: "int \<Rightarrow> int \<Rightarrow> int" where
  "Int32Min a b = (if a < b then a else b)"

definition IntMin :: "int \<Rightarrow> int \<Rightarrow> int" where
  "IntMin a b = (if a < b then a else b)"

lemma Int32Min_min [simp]: "Int32Min a b = min a b"
  by (simp add: Int32Min_def min_def)

lemma IntMin_min [simp]: "IntMin a b = min a b"
  by (simp add: IntMin_def min_def)

text \<open>Go's integer division truncates towards zero.\<close>

definition quot :: "int \<Rightarrow> int \<Rightarrow> int" where
  "quot a b = sgn a * sgn b * (\<bar>a\<bar> div \<bar>b\<bar>)"

definition rem_go :: "int \<Rightarrow> int \<Rightarrow> int" where
  "rem_go a b = a - b * quot a b"

lemma quot_nonneg: "0 \<le> a \<Longrightarrow> 0 < b \<Longrightarrow> quot a b = a div b"
  by (cases "a = 0") (simp_all add: quot_def)

lemma quot_nonpos: "a \<le> 0 \<Longrightarrow> 0 < b \<Longrightarrow> quot a b \<le> 0"
  by (cases "a = 0") (simp_all add: quot_def pos_imp_zdiv_nonneg_iff)

section \<open>strconv\<close>

definition digit_val :: "char \<Rightarrow> nat option" where
  "digit_val = map_of [(CHR ''0'', 0), (CHR ''1'', 1), (CHR ''2'', 2), (CHR ''3'', 3),
     (CHR ''4'', 4), (CHR ''5'', 5), (CHR ''6'', 6), (CHR ''7'', 7), (CHR ''8'', 8),
     (CHR ''9'', 9)]"

definition digit_char :: "nat \<Rightarrow> char" where
  "digit_char d = ''0123456789'' ! d"

fun digits_val :: "string \<Rightarrow> nat \<Rightarrow> nat option" where
  "digits_val [] n = Some n"
| "digits_val (c # cs) n =
     (case digit_val c of None \<Rightarrow> None | Some d \<Rightarrow> digits_val cs (10 * n + d))"

text \<open>
  \<open>strconv.ParseInt(s, 10, bits)\<close>: the value and the error. A value out of range is
  clamped and reported as an error, text that is no number gives 0 and an error.
\<close>

definition ParseInt :: "string \<Rightarrow> nat \<Rightarrow> int \<times> err option" where
  "ParseInt s bits =
     (let neg = (s \<noteq> [] \<and> hd s = CHR ''-'');
          body = (if s \<noteq> [] \<and> (hd s = CHR ''-'' \<or> hd s = CHR ''+'') then tl s else s)
      in if body = [] then (0, Some (Msg ''invalid syntax''))
         else case digits_val body 0 of
           None \<Rightarrow> (0, Some (Msg ''invalid syntax''))
         | Some n \<Rightarrow>
             (if \<not> neg \<and> n \<ge> 2 ^ (bits - 1)
              then (2 ^ (bits - 1) - 1, Some (Msg ''value out of range''))
              else if neg \<and> n > 2 ^ (bits - 1)
              then (- (2 ^ (bits - 1)), Some (Msg ''value out of range''))
              else (if neg then - int n else int n, None)))"

definition ParseInt_sum :: "string \<Rightarrow> nat \<Rightarrow> err + int" where
  "ParseInt_sum s bits = (case ParseInt s bits of (v, None) \<Rightarrow> Inr v | (v, Some e) \<Rightarrow> Inl e)"

fun show_nat :: "nat \<Rightarrow> string" where
  "show_nat n = (if n < 10 then [digit_char n] else show_nat (n div 10) @ [digit_char (n mod 10)])"

declare show_nat.simps [simp del]

text \<open>\<open>strconv.Itoa\<close> and \<open>strconv.FormatInt(_, 10)\<close>.\<close>

definition Itoa :: "int \<Rightarrow> string" where
  "Itoa i = (if i < 0 then CHR ''-'' # show_nat (nat (- i)) else show_nat (nat i))"

lemma digit_val_char: "d < 10 \<Longrightarrow> digit_val (digit_char d) = Some d"
proof -
  assume "d < 10"
  then have "d \<in> {0, 1, 2, 3, 4, 5, 6, 7, 8, 9}" by auto
  then show ?thesis by (auto simp: digit_char_def digit_val_def)
qed

lemma digits_val_append:
  "digits_val (xs @ ys) n = Option.bind (digits_val xs n) (digits_val ys)"
  by (induction xs arbitrary: n) (auto split: option.splits)

lemma digits_val_show_nat: "digits_val (show_nat n) 0 = Some n"
proof (induction n rule: show_nat.induct)
  case (1 n)
  show ?case
  proof (cases "n < 10")
    case True
    then show ?thesis by (simp add: show_nat.simps [of n] digit_val_char)
  next
    case False
    with 1 have "digits_val (show_nat (n div 10)) 0 = Some (n div 10)" by simp
    with False show ?thesis
      by (simp add: show_nat.simps [of n] digits_val_append digit_val_char)
  qed
qed

lemma show_nat_digits: "c \<in> set (show_nat n) \<Longrightarrow> \<exists>d < 10. c = digit_char d"
proof (induction n rule: show_nat.induct)
  case (1 n)
  have "\<exists>d < 10. digit_char (n mod 10) = digit_char d"
    by (intro exI [of _ "n mod 10"]) simp
  with 1 show ?case
    by (cases "n < 10") (auto simp: show_nat.simps [of n])
qed

lemma show_nat_nonempty [simp]: "show_nat n \<noteq> []"
  by (subst show_nat.simps) simp

lemma digit_char_not_sign: "d < 10 \<Longrightarrow> digit_char d \<noteq> CHR ''-'' \<and> digit_char d \<noteq> CHR ''+''"
  using digit_val_char [of d] by (auto simp: digit_val_def)

lemma hd_show_nat: "hd (show_nat n) \<noteq> CHR ''-''" "hd (show_nat n) \<noteq> CHR ''+''"
proof -
  have "hd (show_nat n) \<in> set (show_nat n)" by simp
  then obtain d where "d < 10" "hd (show_nat n) = digit_char d"
    using show_nat_digits by blast
  then show "hd (show_nat n) \<noteq> CHR ''-''" "hd (show_nat n) \<noteq> CHR ''+''"
    using digit_char_not_sign by metis+
qed

text \<open>Printing a number and reading it back.\<close>

lemma ParseInt_Itoa:
  assumes "- (2 ^ (bits - 1)) \<le> i" and "i < 2 ^ (bits - 1)"
  shows "ParseInt (Itoa i) bits = (i, None)"
proof (cases "i < 0")
  case True
  have n: "nat (- i) \<le> 2 ^ (bits - 1)"
    using assms True by (simp add: nat_le_iff)
  have "ParseInt (Itoa i) bits = ParseInt (CHR ''-'' # show_nat (nat (- i))) bits"
    using True by (simp add: Itoa_def)
  then show ?thesis
    using True n by (simp add: ParseInt_def digits_val_show_nat)
next
  case False
  have n: "nat i < 2 ^ (bits - 1)"
    using assms False by (simp add: nat_less_iff)
  have "ParseInt (Itoa i) bits = ParseInt (show_nat (nat i)) bits"
    using False by (simp add: Itoa_def)
  then show ?thesis
    using False n by (simp add: ParseInt_def digits_val_show_nat hd_show_nat)
qed

section \<open>strings\<close>

definition HasSuffix :: "string \<Rightarrow> string \<Rightarrow> bool" where
  "HasSuffix s suf \<longleftrightarrow> length suf \<le> length s \<and> drop (length s - length suf) s = suf"

definition HasPrefix :: "string \<Rightarrow> string \<Rightarrow> bool" where
  "HasPrefix s p \<longleftrightarrow> take (length p) s = p"

fun Contains :: "string \<Rightarrow> string \<Rightarrow> bool" where
  "Contains [] p = (p = [])"
| "Contains (c # cs) p = (HasPrefix (c # cs) p \<or> Contains cs p)"

definition TrimSpace :: "string \<Rightarrow> string" where
  "TrimSpace s =
     (let sp = (\<lambda>c. c \<in> {CHR '' '', CHR 0x09, CHR 0x0A, CHR 0x0B, CHR 0x0C, CHR 0x0D})
      in rev (dropWhile sp (rev (dropWhile sp s))))"

text \<open>\<open>strings.Split(s, sep)\<close> for a separator of one byte, and \<open>strings.Join\<close>.\<close>

fun Split :: "string \<Rightarrow> char \<Rightarrow> string list" where
  "Split [] sep = [[]]"
| "Split (c # cs) sep =
     (if c = sep then [] # Split cs sep
      else (case Split cs sep of [] \<Rightarrow> [[c]] | w # ws \<Rightarrow> (c # w) # ws))"

fun Join :: "string list \<Rightarrow> string \<Rightarrow> string" where
  "Join [] sep = []"
| "Join [w] sep = w"
| "Join (w # ws) sep = w @ sep @ Join ws sep"

lemma Split_nonempty [simp]: "Split s c \<noteq> []"
  by (induction s) (auto split: list.splits)

lemma Split_no_sep: "c \<notin> set w \<Longrightarrow> Split w c = [w]"
  by (induction w) auto

lemma Split_append_sep:
  "c \<notin> set w \<Longrightarrow> Split (w @ c # s) c = w # Split s c"
  by (induction w) auto

text \<open>Splitting undoes joining, as long as no name contains the separator.\<close>

lemma Split_Join:
  assumes "ws \<noteq> []" and "\<forall>w \<in> set ws. c \<notin> set w"
  shows "Split (Join ws [c]) c = ws"
  using assms
proof (induction ws "[c]" rule: Join.induct)
  case (2 w)
  then show ?case by (simp add: Split_no_sep)
next
  case (3 w v va)
  then show ?case by (simp add: Split_append_sep)
qed simp

section \<open>Maps\<close>

text \<open>
  A Go map is an association list with distinct keys; its order is the order in which
  \<open>range\<close> visits the keys, which Go leaves open, so theorems that hold for every list hold
  for every iteration order. A nil map and an empty map are both the empty list: the code never
  writes to a map it has not checked or made.
\<close>

type_synonym 'v gomap = "(string \<times> 'v) list"

abbreviation mget :: "'v gomap \<Rightarrow> string \<Rightarrow> 'v option" where
  "mget m k \<equiv> map_of m k"

definition mset_key :: "string \<Rightarrow> 'v \<Rightarrow> 'v gomap \<Rightarrow> 'v gomap" where
  "mset_key k v m = AList.update k v m"

definition mdel :: "string \<Rightarrow> 'v gomap \<Rightarrow> 'v gomap" where
  "mdel k m = AList.delete k m"

definition mhas :: "'v gomap \<Rightarrow> string \<Rightarrow> bool" where
  "mhas m k \<longleftrightarrow> map_of m k \<noteq> None"

text \<open>A string map read at a missing key gives the empty string.\<close>

definition mget_str :: "string gomap \<Rightarrow> string \<Rightarrow> string" where
  "mget_str m k = (case map_of m k of None \<Rightarrow> [] | Some v \<Rightarrow> v)"

definition same_map :: "'v gomap \<Rightarrow> 'v gomap \<Rightarrow> bool" where
  "same_map m n \<longleftrightarrow> (\<forall>k \<in> set (map fst m) \<union> set (map fst n). map_of m k = map_of n k)"

lemma mget_set [simp]: "mget (mset_key k v m) k' = (if k' = k then Some v else mget m k')"
  by (simp add: mset_key_def update_conv')

lemma mget_del [simp]: "mget (mdel k m) k' = (if k' = k then None else mget m k')"
  by (simp add: mdel_def delete_conv')

lemma mhas_set [simp]: "mhas (mset_key k v m) k' \<longleftrightarrow> k' = k \<or> mhas m k'"
  by (simp add: mhas_def)

lemma mhas_del [simp]: "mhas (mdel k m) k' \<longleftrightarrow> k' \<noteq> k \<and> mhas m k'"
  by (simp add: mhas_def)

lemma mget_str_set [simp]:
  "mget_str (mset_key k v m) k' = (if k' = k then v else mget_str m k')"
  by (simp add: mget_str_def)

lemma distinct_set [simp]: "distinct (map fst m) \<Longrightarrow> distinct (map fst (mset_key k v m))"
  by (simp add: mset_key_def distinct_update)

lemma distinct_del [simp]: "distinct (map fst m) \<Longrightarrow> distinct (map fst (mdel k m))"
  by (simp add: mdel_def distinct_delete)

lemma keys_set [simp]: "set (map fst (mset_key k v m)) = insert k (set (map fst m))"
  using dom_update [of k v m] by (simp add: mset_key_def dom_map_of_conv_image_fst)

lemma keys_set_present: "k \<in> set (map fst m) \<Longrightarrow> map fst (mset_key k v m) = map fst m"
  by (simp add: mset_key_def update_keys)

lemma same_map_iff: "same_map m n \<longleftrightarrow> map_of m = map_of n"
proof
  assume eq: "same_map m n"
  show "map_of m = map_of n"
  proof
    fix k
    show "map_of m k = map_of n k"
    proof (cases "k \<in> set (map fst m) \<union> set (map fst n)")
      case True
      with eq show ?thesis by (simp add: same_map_def)
    next
      case False
      then have "map_of m k = None" and "map_of n k = None"
        by (simp_all add: map_of_eq_None_iff)
      then show ?thesis by simp
    qed
  qed
qed (simp add: same_map_def)

section \<open>sort.Sort\<close>

text \<open>
  \<open>sort.Sort\<close> over a \<open>Less\<close> function, as an insertion sort. Go leaves the order of
  elements that \<open>Less\<close> does not separate open; where \<open>Less\<close> is a strict total order
  on the elements the result is the one sorted permutation.
\<close>

fun insert_by :: "('a \<Rightarrow> 'a \<Rightarrow> bool) \<Rightarrow> 'a \<Rightarrow> 'a list \<Rightarrow> 'a list" where
  "insert_by lt x [] = [x]"
| "insert_by lt x (y # ys) = (if lt y x then y # insert_by lt x ys else x # y # ys)"

fun sort_by :: "('a \<Rightarrow> 'a \<Rightarrow> bool) \<Rightarrow> 'a list \<Rightarrow> 'a list" where
  "sort_by lt [] = []"
| "sort_by lt (x # xs) = insert_by lt x (sort_by lt xs)"

lemma mset_insert_by: "mset (insert_by lt x xs) = add_mset x (mset xs)"
  by (induction xs) auto

lemma mset_sort_by [simp]: "mset (sort_by lt xs) = mset xs"
  by (induction xs) (auto simp: mset_insert_by)

lemma set_sort_by [simp]: "set (sort_by lt xs) = set xs"
  using mset_sort_by [of lt xs] by (metis set_mset_mset)

lemma length_sort_by [simp]: "length (sort_by lt xs) = length xs"
  using mset_sort_by [of lt xs] by (metis size_mset)

text \<open>What a \<open>Less\<close> function must satisfy for \<open>sort.Sort\<close> to sort.\<close>

locale less_order =
  fixes lt :: "'a \<Rightarrow> 'a \<Rightarrow> bool"
  assumes less_irrefl: "\<not> lt x x"
    and less_trans: "lt x y \<Longrightarrow> lt y z \<Longrightarrow> lt x z"
    and incomp_trans: "\<not> lt x y \<Longrightarrow> \<not> lt y x \<Longrightarrow> \<not> lt y z \<Longrightarrow> \<not> lt z y \<Longrightarrow>
           \<not> lt x z \<and> \<not> lt z x"
begin

lemma not_less_trans: "\<not> lt y x \<Longrightarrow> \<not> lt z y \<Longrightarrow> \<not> lt z x"
  using less_trans incomp_trans by blast

lemma sorted_insert:
  "sorted_wrt (\<lambda>a b. \<not> lt b a) xs \<Longrightarrow> sorted_wrt (\<lambda>a b. \<not> lt b a) (insert_by lt x xs)"
proof (induction xs)
  case (Cons y ys)
  have set_ins: "set (insert_by lt x ys) = insert x (set ys)"
    using mset_insert_by [of lt x ys] by (metis set_mset_add_mset_insert set_mset_mset)
  show ?case
  proof (cases "lt y x")
    case True
    then have "\<not> lt x y" using less_irrefl less_trans by blast
    with Cons True set_ins show ?thesis by auto
  next
    case False
    moreover have "\<forall>z \<in> set ys. \<not> lt z x"
      using Cons.prems not_less_trans [OF False] by simp
    ultimately show ?thesis using Cons.prems by simp
  qed
qed simp

lemma sorted_sort: "sorted_wrt (\<lambda>a b. \<not> lt b a) (sort_by lt xs)"
  by (induction xs) (auto intro: sorted_insert)

end

end
