(* ===== verification/ApiTypes.thy ===== *)
theory ApiTypes
  imports GoLib
begin

text \<open>
  The data of the system: the custom resources of \<open>api/v1beta1\<close>, the Kubernetes objects the
  controllers read and write, the \<open>Subset\<close> and \<open>RegionInfo\<close> types of the adapter
  package, and the requests to the API server with the functions that answer them. A struct is a
  record, an embedded \<open>ObjectMeta\<close> a record extension, a pointer field an \<open>option\<close>.
  Fields no controller reads one by one are kept together in a \<open>\<dots>Rest\<close> field, so that
  copying and comparing objects covers them.
\<close>

section \<open>Object metadata, selectors\<close>

record owner_ref =
  OwnerKind :: string
  OwnerName :: string
  OwnerUID :: string
  IsController :: bool

record object_meta =
  Name :: string
  Namespace :: string
  UID :: string
  CreationTimestamp :: int
  DeletionTimestamp :: "int option"
  Generation :: int
  Labels :: "string gomap"
  Annotations :: "string gomap"
  OwnerReferences :: "owner_ref list"

type_synonym nskey = "string \<times> string"

datatype selector_op = OpIn | OpNotIn | OpExists | OpDoesNotExist | OpOther string

record label_requirement =
  ReqKey :: string
  ReqOp :: selector_op
  ReqValues :: "string list"

record label_selector =
  MatchLabels :: "string gomap"
  MatchExpressions :: "label_requirement list"

section \<open>Pods and pod templates\<close>

record quantity =
  MilliValue :: int
  Value :: int

type_synonym resource_list = "quantity gomap"

record container =
  CName :: string
  CImage :: string
  CRequests :: resource_list
  CLimits :: resource_list
  CRest :: string

record node_requirement =
  NodeKey :: string
  NodeOperator :: string
  NodeValues :: "string list"

record node_selector_term =
  TermMatchExpressions :: "node_requirement list"
  TermRest :: string

record node_affinity =
  RequiredTerms :: "node_selector_term list option"
  NodeAffinityRest :: string

record affinity =
  NodeAffinity :: "node_affinity option"
  AffinityRest :: string

record pod_spec =
  Containers :: "container list"
  InitContainers :: "container list"
  Overhead :: resource_list
  Affinity :: "affinity option"
  ReadinessGates :: "string list"
  RestartPolicy :: string
  NodeName :: string
  PodSpecRest :: string

record pod_template =
  TemplateLabels :: "string gomap"
  TemplateSpec :: pod_spec
  TemplateRest :: string

datatype cond_status = ConditionTrue | ConditionFalse | ConditionUnknown

record condition =
  CondType :: string
  CondStatus :: cond_status
  CondReason :: string
  CondMessage :: string
  LastTransitionTime :: int

record deployment_condition = condition +
  LastUpdateTime :: int

record container_status =
  CSName :: string
  CSImageID :: string
  CSContainerID :: string

datatype pod_phase = PodPending | PodRunning | PodSucceeded | PodFailed | PodUnknown

record pod = object_meta +
  PodSpec :: pod_spec
  Phase :: pod_phase
  PodConditions :: "condition list"
  ContainerStatuses :: "container_status list"

record node = object_meta +
  NodeConditions :: "condition list"
  NodeAllocatable :: resource_list

section \<open>ExtendedDeployment\<close>

datatype int_or_string = IntVal int | StrVal string

datatype rollout_strategy = BetaRolloutStrategyType | GroupRolloutStrategyType
  | OtherRolloutStrategy string

datatype update_type = DeleteAllFirstUpdateStrategyType | RecreateUpdateStrategyType
  | RollingUpdateStrategyType | InPlaceOnlyUpdateStrategyType
  | InPlaceIfPossibleUpdateStrategyType | OtherUpdateStrategy string

datatype subset_type = InPlaceSetSubsetType | ReplicaSetSubsetType | DeploymentSubsetType
  | NoSubsetType | OtherSubsetType string

record rolling_update =
  MaxUnavailableVal :: "int_or_string option"
  MaxSurgeVal :: "int_or_string option"

record update_strategy =
  UpdateType :: update_type
  GracePeriodSeconds :: int
  RollingUpdate :: "rolling_update option"

record auto_reschedule =
  Enable :: bool
  TimeoutSeconds :: int

record strategy =
  BatchSize :: int
  MinReadySeconds :: int
  NeedWaitingForConfirm :: bool
  NeedFirstConfirm :: bool
  SyncWaitTimeout :: int
  RolloutStrategy :: rollout_strategy
  Pause :: bool
  AutoReschedule :: "auto_reschedule option"
  UpdateStrategy :: "update_strategy option"

record region =
  RegionName :: string
  RegionReplicas :: "int_or_string option"

record plaintext_overrider =
  OverPath :: string
  OverOperator :: string
  OverValue :: string

record overriders =
  OverName :: string
  Plaintext :: "plaintext_overrider list"

record ed_spec =
  HistoryLimit :: int
  Selector :: "label_selector option"
  SubsetType :: subset_type
  Strategy :: strategy
  Template :: pod_template
  Replicas :: "int option"
  Regions :: "region list"
  Overriders :: "overriders list"

record region_status =
  StRegionName :: string
  StReplicas :: int
  StUpdatedReplicas :: int
  StReadyReplicas :: int
  StAvailableReplicas :: int
  StUnavailableReplicas :: int

record ed_status =
  TotalReplicas :: int
  LabelSelectorStr :: string
  StatusRegions :: "region_status list"
  Conditions :: "deployment_condition list"
  CollisionCount :: "int option"
  Overview :: string
  LastTermStartTime :: string

record extended_deployment = object_meta +
  Spec :: ed_spec
  Status :: ed_status

record deploy_region = object_meta +
  RegionMatchLabels :: "string gomap"

record controller_revision = object_meta +
  Revision :: int
  DataRaw :: string

section \<open>Workloads\<close>

record inplace_update_status =
  IUSReady :: int
  IUSAvailable :: int
  IUSPodTemplateHash :: string

record inplaceset_status =
  ISReplicas :: int
  ISFullyLabeled :: int
  ISInplaceUpdate :: "inplace_update_status option"
  ISReady :: int
  ISAvailable :: int
  ISObservedGeneration :: int
  ISConditions :: "condition list"

record inplace_set = object_meta +
  IReplicas :: "int option"
  IMinReadySeconds :: int
  IUpdateType :: update_type
  IInPlaceGrace :: "int option"
  ISelector :: "label_selector option"
  ITemplate :: pod_template
  IStatus :: inplaceset_status

text \<open>A native Deployment and a native ReplicaSet; only the former has a strategy.\<close>

record native_set = object_meta +
  NReplicas :: "int option"
  NMinReadySeconds :: int
  NRecreate :: bool
  NSelector :: "label_selector option"
  NTemplate :: pod_template
  NStatusReplicas :: int
  NStatusAvailable :: int
  NObservedGeneration :: int

datatype workload = WInplaceSet inplace_set | WDeployment native_set | WReplicaSet native_set

section \<open>Subsets and region information\<close>

record sub_inplace_status =
  SubIUSAvailable :: int
  SubIUSPodTemplateHash :: string

text \<open>
  \<open>adapter.Subset\<close>. The pointer \<open>Spec.Replicas\<close> of an object read from the API server is
  never nil (the API server fills in the default of every workload kind); the one nil pointer the
  code meets is that of an object it has just made, which \<open>ManageSubsets\<close> replaces by 0, so
  the field is an integer and nil is 0.
\<close>

record subset = object_meta +
  SpecReplicas :: int
  SubMinReadySeconds :: int
  SubUpdateType :: update_type
  SubInPlaceGrace :: "int option"
  SubSelector :: "label_selector option"
  SubTemplate :: pod_template
  SubsetRef :: workload
  StatusReplicas :: int
  StatusReady :: int
  StatusAvailable :: int
  StatusInplace :: "sub_inplace_status option"

record region_info =
  New :: "subset option"
  Olds :: "subset list"
  ReplicasDesired :: bool
  AvailableDesired :: bool
  Region :: "deploy_region option"
  DesiredReplicas :: int
  ConfiguredReplicas :: int

section \<open>Zero values\<close>

text \<open>The value of a struct none of whose fields has been set; sample objects are built on them.\<close>

named_theorems zero_values \<open>definitions of Go's zero values\<close>

definition zero_pod_spec :: pod_spec where [zero_values]:
  "zero_pod_spec = \<lparr>Containers = [], InitContainers = [], Overhead = [], Affinity = None,
     ReadinessGates = [], RestartPolicy = [], NodeName = [], PodSpecRest = []\<rparr>"

definition zero_template :: pod_template where [zero_values]:
  "zero_template = \<lparr>TemplateLabels = [], TemplateSpec = zero_pod_spec, TemplateRest = []\<rparr>"

definition zero_strategy :: strategy where [zero_values]:
  "zero_strategy = \<lparr>BatchSize = 0, MinReadySeconds = 0, NeedWaitingForConfirm = False,
     NeedFirstConfirm = False, SyncWaitTimeout = 0, RolloutStrategy = OtherRolloutStrategy [],
     Pause = False, AutoReschedule = None, UpdateStrategy = None\<rparr>"

definition zero_ed_spec :: ed_spec where [zero_values]:
  "zero_ed_spec = \<lparr>HistoryLimit = 0, Selector = None, SubsetType = NoSubsetType,
     Strategy = zero_strategy, Template = zero_template, Replicas = None, Regions = [],
     Overriders = []\<rparr>"

definition zero_ed_status :: ed_status where [zero_values]:
  "zero_ed_status = \<lparr>TotalReplicas = 0, LabelSelectorStr = [], StatusRegions = [], Conditions = [],
     CollisionCount = None, Overview = [], LastTermStartTime = []\<rparr>"

definition zero_ED :: extended_deployment where [zero_values]:
  "zero_ED = \<lparr>Name = [], Namespace = [], UID = [], CreationTimestamp = 0, DeletionTimestamp = None,
     Generation = 0, Labels = [], Annotations = [], OwnerReferences = [],
     Spec = zero_ed_spec, Status = zero_ed_status\<rparr>"

definition zero_ips_status :: inplaceset_status where [zero_values]:
  "zero_ips_status = \<lparr>ISReplicas = 0, ISFullyLabeled = 0, ISInplaceUpdate = None, ISReady = 0,
     ISAvailable = 0, ISObservedGeneration = 0, ISConditions = []\<rparr>"

definition zero_inplace_set :: inplace_set where [zero_values]:
  "zero_inplace_set = \<lparr>Name = [], Namespace = [], UID = [], CreationTimestamp = 0,
     DeletionTimestamp = None, Generation = 0, Labels = [], Annotations = [], OwnerReferences = [],
     IReplicas = None, IMinReadySeconds = 0, IUpdateType = OtherUpdateStrategy [],
     IInPlaceGrace = None, ISelector = None, ITemplate = zero_template, IStatus = zero_ips_status\<rparr>"

definition zero_native_set :: native_set where [zero_values]:
  "zero_native_set = \<lparr>Name = [], Namespace = [], UID = [], CreationTimestamp = 0,
     DeletionTimestamp = None, Generation = 0, Labels = [], Annotations = [], OwnerReferences = [],
     NReplicas = None, NMinReadySeconds = 0, NRecreate = False, NSelector = None,
     NTemplate = zero_template, NStatusReplicas = 0, NStatusAvailable = 0, NObservedGeneration = 0\<rparr>"

definition zero_subset :: subset where [zero_values]:
  "zero_subset = \<lparr>Name = [], Namespace = [], UID = [], CreationTimestamp = 0,
     DeletionTimestamp = None, Generation = 0, Labels = [], Annotations = [], OwnerReferences = [],
     SpecReplicas = 0, SubMinReadySeconds = 0, SubUpdateType = OtherUpdateStrategy [],
     SubInPlaceGrace = None, SubSelector = None, SubTemplate = zero_template,
     SubsetRef = WInplaceSet zero_inplace_set, StatusReplicas = 0, StatusReady = 0,
     StatusAvailable = 0, StatusInplace = None\<rparr>"

definition zero_region_info :: region_info where [zero_values]:
  "zero_region_info = \<lparr>New = None, Olds = [], ReplicasDesired = False, AvailableDesired = False,
     Region = None, DesiredReplicas = 0, ConfiguredReplicas = 0\<rparr>"

definition zero_pod :: pod where [zero_values]:
  "zero_pod = \<lparr>Name = [], Namespace = [], UID = [], CreationTimestamp = 0,
     DeletionTimestamp = None, Generation = 0, Labels = [], Annotations = [], OwnerReferences = [],
     PodSpec = zero_pod_spec, Phase = PodPending, PodConditions = [], ContainerStatuses = []\<rparr>"

section \<open>Requests\<close>

datatype req =
    GetED nskey | UpdateED extended_deployment | UpdateEDStatus extended_deployment
  | ListSets nskey | GetSet nskey | CreateSet workload | UpdateSet workload | DeleteSet workload
  | ListRegions | GetRegion string
  | ListRevisions nskey | CreateRevision controller_revision
  | UpdateRevision controller_revision int | DeleteRevision controller_revision
  | ListPods nskey | GetPod nskey | UpdatePod pod | UpdatePodStatus pod
  | CreatePod string pod_template | DeletePod nskey | AdoptPod pod | ReleasePod pod
  | GetIPS nskey | UpdateIPSStatus inplace_set | ListIPS string | SelectIPS string
  | GetNode string | ListNodes string
  | Event string | Now

type_synonym 'a action = "(req, 'a) io"

text \<open>The answers of the API server and of the clock, each a function of the requests before.\<close>

record server =
  ansGetED :: "req list \<Rightarrow> nskey \<Rightarrow> err + extended_deployment"
  ansUpdateED :: "req list \<Rightarrow> extended_deployment \<Rightarrow> err + unit"
  ansUpdateEDStatus :: "req list \<Rightarrow> extended_deployment \<Rightarrow> err + unit"
  ansListSets :: "req list \<Rightarrow> nskey \<Rightarrow> err + workload list"
  ansGetSet :: "req list \<Rightarrow> nskey \<Rightarrow> err + workload"
  ansCreateSet :: "req list \<Rightarrow> workload \<Rightarrow> err + workload"
  ansUpdateSet :: "req list \<Rightarrow> workload \<Rightarrow> err + workload"
  ansDeleteSet :: "req list \<Rightarrow> workload \<Rightarrow> err + unit"
  ansListRegions :: "req list \<Rightarrow> err + deploy_region list"
  ansGetRegion :: "req list \<Rightarrow> string \<Rightarrow> err + deploy_region"
  ansListRevisions :: "req list \<Rightarrow> nskey \<Rightarrow> err + controller_revision list"
  ansCreateRevision :: "req list \<Rightarrow> controller_revision \<Rightarrow> int \<Rightarrow> err + controller_revision \<times> int"
  ansUpdateRevision :: "req list \<Rightarrow> controller_revision \<Rightarrow> int \<Rightarrow> err + controller_revision"
  ansDeleteRevision :: "req list \<Rightarrow> controller_revision \<Rightarrow> err + unit"
  ansListPods :: "req list \<Rightarrow> nskey \<Rightarrow> err + pod list"
  ansGetPod :: "req list \<Rightarrow> nskey \<Rightarrow> err + pod"
  ansUpdatePod :: "req list \<Rightarrow> pod \<Rightarrow> err + pod"
  ansUpdatePodStatus :: "req list \<Rightarrow> pod \<Rightarrow> err + unit"
  ansCreatePod :: "req list \<Rightarrow> string \<Rightarrow> pod_template \<Rightarrow> err + unit"
  ansDeletePod :: "req list \<Rightarrow> nskey \<Rightarrow> err + unit"
  ansAdoptPod :: "req list \<Rightarrow> pod \<Rightarrow> err + unit"
  ansReleasePod :: "req list \<Rightarrow> pod \<Rightarrow> err + unit"
  ansGetIPS :: "req list \<Rightarrow> nskey \<Rightarrow> err + inplace_set"
  ansUpdateIPSStatus :: "req list \<Rightarrow> inplace_set \<Rightarrow> err + inplace_set"
  ansListIPS :: "req list \<Rightarrow> string \<Rightarrow> err + inplace_set list"
  ansSelectIPS :: "req list \<Rightarrow> string \<Rightarrow> err + inplace_set list"
  ansGetNode :: "req list \<Rightarrow> string \<Rightarrow> err + node"
  ansListNodes :: "req list \<Rightarrow> string \<Rightarrow> err + node list"
  ansNow :: "req list \<Rightarrow> int"

text \<open>A sample server: nothing exists, writes succeed and echo the object, the clock stands still.\<close>

definition sample_server :: server where
  "sample_server = \<lparr>
     ansGetED = (\<lambda>_ _. Inl NotFound), ansUpdateED = (\<lambda>_ _. Inr ()), ansUpdateEDStatus = (\<lambda>_ _. Inr ()),
     ansListSets = (\<lambda>_ _. Inr []), ansGetSet = (\<lambda>_ _. Inl NotFound), ansCreateSet = (\<lambda>_ w. Inr w),
     ansUpdateSet = (\<lambda>_ w. Inr w), ansDeleteSet = (\<lambda>_ _. Inr ()),
     ansListRegions = (\<lambda>_. Inr []), ansGetRegion = (\<lambda>_ _. Inl NotFound),
     ansListRevisions = (\<lambda>_ _. Inr []), ansCreateRevision = (\<lambda>_ r n. Inr (r, n)),
     ansUpdateRevision = (\<lambda>_ r n. Inr (r\<lparr>Revision := n\<rparr>)), ansDeleteRevision = (\<lambda>_ _. Inr ()),
     ansListPods = (\<lambda>_ _. Inr []), ansGetPod = (\<lambda>_ _. Inl NotFound), ansUpdatePod = (\<lambda>_ p. Inr p),
     ansUpdatePodStatus = (\<lambda>_ _. Inr ()), ansCreatePod = (\<lambda>_ _ _. Inr ()), ansDeletePod = (\<lambda>_ _. Inr ()),
     ansAdoptPod = (\<lambda>_ _. Inr ()), ansReleasePod = (\<lambda>_ _. Inr ()), ansGetIPS = (\<lambda>_ _. Inl NotFound),
     ansUpdateIPSStatus = (\<lambda>_ s. Inr s), ansListIPS = (\<lambda>_ _. Inr []), ansSelectIPS = (\<lambda>_ _. Inr []),
     ansGetNode = (\<lambda>_ _. Inl NotFound), ansListNodes = (\<lambda>_ _. Inr []), ansNow = (\<lambda>_. 0)\<rparr>"

end
