(* ===== verification/Utils.thy ===== *)
theory Utils
  imports ApiTypes
begin

text \<open>
  The helper packages under \<open>pkg/utils\<close>: annotations (\<open>annotation.go\<close>), labels,
  selectors and node affinity (\<open>label_utils.go\<close>), and the per-region overrides of the pod
  template (\<open>overridemanager\<close>). The record \<open>ext\<close> collects the third-party functions
  these packages and the controllers call: JSON encodings, JSON patches, hashes and the validity
  of a label selector.
\<close>

section \<open>Annotation keys\<close>

definition AnnotationRevision :: string where
  "AnnotationRevision = ''deployment.extendeddeployment.io/revision''"
definition AnnotationRollbackTo :: string where
  "AnnotationRollbackTo = ''deployment.extendeddeployment.io/rollback-to''"
definition AnnotationFailedFlag :: string where
  "AnnotationFailedFlag = ''deployment.extendeddeployment.io/failed-flag''"
definition AnnotationUpgradeConfirm :: string where
  "AnnotationUpgradeConfirm = ''deployment.extendeddeployment.io/upgrade-confirm''"
definition AnnotationRollTerm :: string where
  "AnnotationRollTerm = ''deployment.extendeddeployment.io/roll-term''"
definition AnnotationReschedule :: string where
  "AnnotationReschedule = ''deployment.extendeddeployment.io/reschedule''"
definition IpsAnnotationRegionName :: string where
  "IpsAnnotationRegionName = ''inplaceset.extendeddeployment.io/region-name''"
definition IpsAnnotationTemplateHash :: string where
  "IpsAnnotationTemplateHash = ''inplaceset.extendeddeployment.io/template-hash''"
definition IpsAnnotationInplacesetUpdateSpec :: string where
  "IpsAnnotationInplacesetUpdateSpec = ''inplaceset.extendeddeployment.io/inplaceset-update-spec''"

text \<open>The keys are kept folded; that they differ is all a proof needs.\<close>

lemma annotation_keys_distinct [simp]:
  "distinct [AnnotationRevision, AnnotationRollbackTo, AnnotationFailedFlag,
     AnnotationUpgradeConfirm, AnnotationRollTerm, AnnotationReschedule, IpsAnnotationRegionName,
     IpsAnnotationTemplateHash, IpsAnnotationInplacesetUpdateSpec]"
  by (simp add: AnnotationRevision_def AnnotationRollbackTo_def AnnotationFailedFlag_def
      AnnotationUpgradeConfirm_def AnnotationRollTerm_def AnnotationReschedule_def
      IpsAnnotationRegionName_def IpsAnnotationTemplateHash_def IpsAnnotationInplacesetUpdateSpec_def)

section \<open>Annotation values\<close>

record InplaceSetUpdateSpec =
  UpdatePodNum :: int
  PodTemplateHash :: string

record ScheduleReplicas =
  Config :: int
  Schedule :: int

record AutoScheduleSpec =
  SchedGeneration :: int
  FailureRegion :: string
  Infos :: "ScheduleReplicas gomap"

definition DesiredReplicas_of :: "ScheduleReplicas \<Rightarrow> int" where
  "DesiredReplicas_of r = i32 (Config r + Schedule r)"

text \<open>
  Third-party functions: \<open>encoding/json\<close> for the two annotation values, a JSON patch applied
  to a template (\<open>evanphx/json-patch\<close>), the md5 of a template's JSON text,
  \<open>controller.ComputeHash\<close>, \<open>hash.HashObject\<close>, \<open>LabelSelectorAsSelector\<close> and
  \<open>controllerutil.SetControllerReference\<close>, the text of a selector, and from the controller
  history library the constructor and the comparison of revisions.
\<close>

record OverrideOption =
  Op :: string
  Path :: string
  Val :: string

text \<open>
  A compiled label selector: which labels it matches, and its text. \<open>label_sel\<close> is a selector
  built requirement by requirement.
\<close>

record selector =
  SelMatches :: "string gomap \<Rightarrow> bool"
  SelString :: string

datatype sel_operator = SelEquals | SelIn | SelNotIn | SelExists | SelDoesNotExist

datatype label_sel = LabelsNothing | LabelsEverything
  | LabelsReqs "(string \<times> sel_operator \<times> string list) list"

record ext =
  marshalUpdateSpec :: "InplaceSetUpdateSpec \<Rightarrow> string"
  unmarshalUpdateSpec :: "string \<Rightarrow> err + InplaceSetUpdateSpec"
  marshalSchedule :: "AutoScheduleSpec \<Rightarrow> string"
  unmarshalSchedule :: "string \<Rightarrow> err + AutoScheduleSpec"
  jsonPatch :: "OverrideOption list \<Rightarrow> pod_template \<Rightarrow> err + pod_template"
  md5Template :: "pod_template option \<Rightarrow> string"
  ComputeHash :: "pod_template \<Rightarrow> int \<Rightarrow> string"
  HashObject :: "pod_template \<Rightarrow> string"
  LabelSelectorAsSelector :: "label_selector option \<Rightarrow> err + selector"
  SetControllerReference :: "owner_ref \<Rightarrow> object_meta \<Rightarrow> err + object_meta"
  SelectorString :: "label_sel \<Rightarrow> string"
  marshalSpec :: "ed_spec \<Rightarrow> string"
  unmarshalSpec :: "string \<Rightarrow> err + ed_spec"
  NewControllerRevision :: "extended_deployment \<Rightarrow> string gomap \<Rightarrow> string \<Rightarrow> int \<Rightarrow> int \<Rightarrow>
    err + controller_revision"
  EqualRevision :: "controller_revision \<Rightarrow> controller_revision \<Rightarrow> bool"

definition GetFailedFlag :: "string gomap \<Rightarrow> string \<times> bool" where
  "GetFailedFlag anno = (case mget anno AnnotationFailedFlag of
     None \<Rightarrow> ([], False) | Some str \<Rightarrow> (str, True))"

definition RevisionToInt64 :: "string gomap \<Rightarrow> int \<times> err option" where
  "RevisionToInt64 anno = (case mget anno AnnotationRevision of
     None \<Rightarrow> (0, None) | Some v \<Rightarrow> ParseInt v 64)"

definition HaveAutoScheduleSpec :: "string gomap \<Rightarrow> bool" where
  "HaveAutoScheduleSpec anno = mhas anno AnnotationReschedule"

definition GetAutoScheduleSpec :: "ext \<Rightarrow> string gomap \<Rightarrow> err + AutoScheduleSpec option" where
  "GetAutoScheduleSpec X anno = (case mget anno AnnotationReschedule of
     None \<Rightarrow> Inr None
   | Some specStr \<Rightarrow> (case unmarshalSchedule X specStr of
        Inl e \<Rightarrow> Inl e | Inr spec \<Rightarrow> Inr (Some spec)))"

definition SetAutoScheduleSpec :: "ext \<Rightarrow> AutoScheduleSpec \<Rightarrow> string gomap \<Rightarrow> string gomap" where
  "SetAutoScheduleSpec X spec anno = mset_key AnnotationReschedule (marshalSchedule X spec) anno"

definition DelAutoScheduleSpec :: "string gomap \<Rightarrow> bool \<times> string gomap" where
  "DelAutoScheduleSpec anno =
     (if mhas anno AnnotationReschedule then (True, mdel AnnotationReschedule anno)
      else (False, anno))"

text \<open>The specification, whether it exists, and the error of decoding it.\<close>

definition GetInplaceSetUpdateSpec ::
    "ext \<Rightarrow> string gomap \<Rightarrow> InplaceSetUpdateSpec option \<times> bool \<times> err option" where
  "GetInplaceSetUpdateSpec X anno = (case mget anno IpsAnnotationInplacesetUpdateSpec of
     None \<Rightarrow> (None, False, None)
   | Some specStr \<Rightarrow> (case unmarshalUpdateSpec X specStr of
        Inl e \<Rightarrow> (None, False, Some e)
      | Inr spec \<Rightarrow> (Some spec, True, None)))"

definition SetInplacesetUpdateSpec ::
    "ext \<Rightarrow> InplaceSetUpdateSpec \<Rightarrow> string gomap \<Rightarrow> string gomap" where
  "SetInplacesetUpdateSpec X spec anno =
     mset_key IpsAnnotationInplacesetUpdateSpec (marshalUpdateSpec X spec) anno"

definition DelInplacesetUpdateSpec :: "string gomap \<Rightarrow> bool \<times> string gomap" where
  "DelInplacesetUpdateSpec anno =
     (if mhas anno IpsAnnotationInplacesetUpdateSpec
      then (True, mdel IpsAnnotationInplacesetUpdateSpec anno) else (False, anno))"

definition GetStrAnnotationByKey :: "string gomap \<Rightarrow> string \<Rightarrow> string \<times> bool" where
  "GetStrAnnotationByKey anno key = (case mget anno key of
     None \<Rightarrow> ([], False) | Some s \<Rightarrow> (s, True))"

definition GetInt64AnnotationByKey :: "string gomap \<Rightarrow> string \<Rightarrow> int \<times> bool" where
  "GetInt64AnnotationByKey anno key = (case GetStrAnnotationByKey anno key of
     (s, exists) \<Rightarrow>
       (if exists
        then (case ParseInt s 64 of (val, None) \<Rightarrow> (val, True) | (_, Some e) \<Rightarrow> (0, False))
        else (0, False)))"

fun DelAnnotations :: "string list \<Rightarrow> string gomap \<Rightarrow> bool \<times> string gomap" where
  "DelAnnotations [] anno = (False, anno)"
| "DelAnnotations (k # keys) anno =
     (if mhas anno k then (True, snd (DelAnnotations keys (mdel k anno)))
      else DelAnnotations keys anno)"

section \<open>Labels, selectors and node affinity\<close>

definition CloneAndAddLabel :: "string gomap \<Rightarrow> string \<Rightarrow> string \<Rightarrow> string gomap" where
  "CloneAndAddLabel labels labelKey labelValue =
     (if labelKey \<noteq> [] then mset_key labelKey labelValue labels else labels)"

definition CloneAndRemoveLabel :: "string gomap \<Rightarrow> string \<Rightarrow> string gomap" where
  "CloneAndRemoveLabel labels labelKey =
     (if labelKey \<noteq> [] then mdel labelKey labels else labels)"

text \<open>A nil selector is dereferenced when there is a label to add: \<open>None\<close> stands for the panic.\<close>

definition CloneSelectorAndAddLabel ::
    "label_selector option \<Rightarrow> string \<Rightarrow> string \<Rightarrow> label_selector option option" where
  "CloneSelectorAndAddLabel selector labelKey labelValue =
     (if labelKey = [] then Some selector
      else (case selector of
         None \<Rightarrow> None
       | Some s \<Rightarrow> Some (Some \<lparr>MatchLabels = mset_key labelKey labelValue (MatchLabels s),
            MatchExpressions = map (\<lambda>me. \<lparr>ReqKey = ReqKey me, ReqOp = ReqOp me,
               ReqValues = ReqValues me\<rparr>) (MatchExpressions s)\<rparr>)))"

definition zero_node_affinity :: node_affinity where
  "zero_node_affinity = \<lparr>RequiredTerms = None, NodeAffinityRest = []\<rparr>"

definition zero_affinity :: affinity where
  "zero_affinity = \<lparr>NodeAffinity = None, AffinityRest = []\<rparr>"

definition region_requirement :: "string \<times> string \<Rightarrow> node_requirement" where
  "region_requirement kv = \<lparr>NodeKey = fst kv, NodeOperator = ''In'', NodeValues = [snd kv]\<rparr>"

definition CloneNodeAffinityAndAdd :: "node_affinity option \<Rightarrow> string gomap \<Rightarrow> node_affinity" where
  "CloneNodeAffinityAndAdd nodeAffinity matchLabels =
     (let na = (case nodeAffinity of None \<Rightarrow> zero_node_affinity | Some a \<Rightarrow> a)
      in if matchLabels = [] then na
         else
           (let terms = (case RequiredTerms na of None \<Rightarrow> [] | Some ts \<Rightarrow> ts);
                reqs = sort_by (\<lambda>a b. NodeKey a < NodeKey b) (map region_requirement matchLabels)
            in na\<lparr>RequiredTerms := Some (terms @ [\<lparr>TermMatchExpressions = reqs, TermRest = []\<rparr>])\<rparr>))"

text \<open>
  The region affinity as it is added to a pod specification. The same four lines stand in the
  adapters and twice in \<open>subset_control.go\<close>.
\<close>

definition SetSubsetRegionAffinity :: "pod_spec \<Rightarrow> string gomap \<Rightarrow> pod_spec" where
  "SetSubsetRegionAffinity spec matchLabels =
     (let aff = (case Affinity spec of None \<Rightarrow> zero_affinity | Some a \<Rightarrow> a)
      in spec\<lparr>Affinity :=
           Some (aff\<lparr>NodeAffinity := Some (CloneNodeAffinityAndAdd (NodeAffinity aff) matchLabels)\<rparr>)\<rparr>)"

section \<open>Overrides\<close>

definition parseJSONPatchesByPlaintext :: "overriders \<Rightarrow> OverrideOption list" where
  "parseJSONPatchesByPlaintext inOverriders =
     map (\<lambda>p. \<lparr>Op = OverOperator p, Path = OverPath p, Val = OverValue p\<rparr>) (Plaintext inOverriders)"

text \<open>
  \<open>applyJSONPatch\<close>: encode the overrides, compile them to a patch, encode the template, patch
  the text, decode it into a new template. Encoder, compiler and decoder are third-party code.
\<close>

record json_lib =
  marshalOverrides :: "OverrideOption list \<Rightarrow> err + string"
  decodePatch :: "string \<Rightarrow> err + (string \<Rightarrow> err + string)"
  marshalTemplate :: "pod_template \<Rightarrow> err + string"
  unmarshalTemplate :: "string \<Rightarrow> err + pod_template"

definition applyJSONPatch :: "json_lib \<Rightarrow> OverrideOption list \<Rightarrow> pod_template \<Rightarrow> err + pod_template" where
  "applyJSONPatch J overrides obj = (case marshalOverrides J overrides of
     Inl e \<Rightarrow> Inl e
   | Inr jsonPatchBytes \<Rightarrow> (case decodePatch J jsonPatchBytes of
       Inl e \<Rightarrow> Inl e
     | Inr patch \<Rightarrow> (case marshalTemplate J obj of
         Inl e \<Rightarrow> Inl e
       | Inr objectJSONBytes \<Rightarrow> (case patch objectJSONBytes of
           Inl e \<Rightarrow> Inl e
         | Inr patchedObjectJSONBytes \<Rightarrow> unmarshalTemplate J patchedObjectJSONBytes))))"

text \<open>A patch that leaves the text leaves the template, when decoding undoes encoding.\<close>

lemma applyJSONPatch_neutral:
  assumes "marshalOverrides J os = Inr b" and "decodePatch J b = Inr Inr" and "marshalTemplate J t = Inr s"
    and "unmarshalTemplate J s = Inr t"
  shows "applyJSONPatch J os t = Inr t"
  using assms by (simp add: applyJSONPatch_def)

text \<open>
  Below the parameter \<open>jsonPatch\<close> is \<open>applyJSONPatch\<close> with its libraries. \<open>None\<close> is the nil
  template of a region that is not in the specification.
\<close>

definition ApplyOverridePolicies :: "ext \<Rightarrow> string \<Rightarrow> extended_deployment \<Rightarrow> pod_template option" where
  "ApplyOverridePolicies X regionName deploy =
     (let orgTemplate = Template (Spec deploy)
      in if Overriders (Spec deploy) = [] then Some orgTemplate
         else (case find (\<lambda>r. RegionName r = regionName) (Regions (Spec deploy)) of
            None \<Rightarrow> None
          | Some _ \<Rightarrow> (case find (\<lambda>ov. OverName ov = regionName) (Overriders (Spec deploy)) of
               None \<Rightarrow> Some orgTemplate
             | Some ov \<Rightarrow>
                 (case jsonPatch X (parseJSONPatchesByPlaintext ov) orgTemplate of
                    Inl e \<Rightarrow> Some orgTemplate
                  | Inr applyTemplate \<Rightarrow> Some applyTemplate))))"

section \<open>A sample of the third-party functions\<close>

text \<open>
  Concrete functions to evaluate the model with: the values are printed field by field, a patch
  appends its values to the template, and a hash is the text it hashes.
\<close>

definition sample_ext :: ext where
  "sample_ext = \<lparr>
     marshalUpdateSpec = (\<lambda>s. Itoa (UpdatePodNum s) @ '','' @ PodTemplateHash s),
     unmarshalUpdateSpec = (\<lambda>t. (case ParseInt_sum (takeWhile (\<lambda>c. c \<noteq> CHR '','') t) 64 of
        Inl e \<Rightarrow> Inl e
      | Inr n \<Rightarrow> Inr \<lparr>UpdatePodNum = n, PodTemplateHash = tl (dropWhile (\<lambda>c. c \<noteq> CHR '','') t)\<rparr>)),
     marshalSchedule = (\<lambda>s. Itoa (SchedGeneration s) @ '','' @ FailureRegion s),
     unmarshalSchedule = (\<lambda>t. (case ParseInt_sum (takeWhile (\<lambda>c. c \<noteq> CHR '','') t) 64 of
        Inl e \<Rightarrow> Inl e
      | Inr n \<Rightarrow> Inr \<lparr>SchedGeneration = n, FailureRegion = tl (dropWhile (\<lambda>c. c \<noteq> CHR '','') t),
          Infos = []\<rparr>)),
     jsonPatch = (\<lambda>os t. Inr (t\<lparr>TemplateRest := TemplateRest t @ concat (map Val os)\<rparr>)),
     md5Template = (\<lambda>t. case t of None \<Rightarrow> ''null'' | Some t \<Rightarrow> TemplateRest t),
     ComputeHash = (\<lambda>t n. TemplateRest t @ Itoa n),
     HashObject = (\<lambda>t. TemplateRest t),
     LabelSelectorAsSelector = (\<lambda>sel. case sel of
        None \<Rightarrow> Inr \<lparr>SelMatches = (\<lambda>_. False), SelString = []\<rparr>
      | Some l \<Rightarrow> Inr \<lparr>SelMatches = (\<lambda>labels. \<forall>(k, v) \<in> set (MatchLabels l). mget labels k = Some v),
          SelString = Join (map (\<lambda>(k, v). k @ ''='' @ v) (MatchLabels l)) '',''\<rparr>),
     SetControllerReference = (\<lambda>r m. if list_ex IsController (OwnerReferences m)
        then Inl (Msg ''already owned'')
        else Inr (m\<lparr>OwnerReferences := OwnerReferences m @ [r]\<rparr>)),
     SelectorString = (\<lambda>l. case l of LabelsReqs rs \<Rightarrow> Join (map fst rs) '','' | _ \<Rightarrow> []),
     marshalSpec = (\<lambda>s. TemplateRest (Template s)),
     unmarshalSpec = (\<lambda>t. Inr (zero_ed_spec\<lparr>Template := zero_template\<lparr>TemplateRest := t\<rparr>\<rparr>)),
     NewControllerRevision = (\<lambda>d labels raw n cc. Inr \<lparr>Name = Name d @ ''-'' @ Itoa n,
       Namespace = Namespace d, UID = [], CreationTimestamp = 0, DeletionTimestamp = None,
       Generation = 0, Labels = labels, Annotations = [], OwnerReferences = [], Revision = n,
       DataRaw = raw\<rparr>),
     EqualRevision = (\<lambda>a b. DataRaw a = DataRaw b)\<rparr>"

section \<open>Lemmas\<close>

lemma GetAutoScheduleSpec_Set:
  "GetAutoScheduleSpec X (SetAutoScheduleSpec X s anno) =
     map_sum id Some (unmarshalSchedule X (marshalSchedule X s))"
  by (simp add: GetAutoScheduleSpec_def SetAutoScheduleSpec_def split: sum.split)

lemma GetAutoScheduleSpec_Del:
  "GetAutoScheduleSpec X (snd (DelAutoScheduleSpec anno)) = Inr None"
  by (auto simp: GetAutoScheduleSpec_def DelAutoScheduleSpec_def mhas_def)

lemma ApplyOverridePolicies_region:
  "r \<in> set (Regions (Spec ed)) \<Longrightarrow> \<exists>t. ApplyOverridePolicies X (RegionName r) ed = Some t"
  by (auto simp: ApplyOverridePolicies_def Let_def find_None_iff split: option.splits sum.splits)

lemma DelAnnotations_result:
  "mget (snd (DelAnnotations keys anno)) k = (if k \<in> set keys then None else mget anno k)"
  by (induction keys anno rule: DelAnnotations.induct) (auto simp: mhas_def)

lemma DelAnnotations_changed:
  "fst (DelAnnotations keys anno) \<longleftrightarrow> (\<exists>k \<in> set keys. mhas anno k)"
  by (induction keys anno rule: DelAnnotations.induct) auto

text \<open>
  Deleting annotations removes exactly the named keys, and the answer tells whether one of
  them was there, which is what the callers update the object on.
\<close>

theorem DelAnnotations_correct:
  "(\<forall>k. mget (snd (DelAnnotations keys anno)) k = (if k \<in> set keys then None else mget anno k)) \<and>
   (fst (DelAnnotations keys anno) \<longleftrightarrow> (\<exists>k \<in> set keys. mhas anno k))"
  by (simp add: DelAnnotations_result DelAnnotations_changed)

section \<open>Node affinity of a region\<close>

text \<open>
  When a node satisfies a list of node selector terms: one term suffices, and a term needs all of
  its requirements. \<open>In\<close> is the operator the code adds; the others are the parameter
  \<open>other\<close>.
\<close>

definition requirement_holds ::
    "(node_requirement \<Rightarrow> string gomap \<Rightarrow> bool) \<Rightarrow> string gomap \<Rightarrow> node_requirement \<Rightarrow> bool" where
  "requirement_holds other labels r =
     (if NodeOperator r = ''In''
      then (case mget labels (NodeKey r) of None \<Rightarrow> False | Some v \<Rightarrow> v \<in> set (NodeValues r))
      else other r labels)"

definition node_selected ::
    "(node_requirement \<Rightarrow> string gomap \<Rightarrow> bool) \<Rightarrow> node_affinity \<Rightarrow> string gomap \<Rightarrow> bool" where
  "node_selected other na labels = (case RequiredTerms na of
     None \<Rightarrow> True
   | Some ts \<Rightarrow> (\<exists>t \<in> set ts. list_all (requirement_holds other labels) (TermMatchExpressions t)))"

lemma region_term_holds:
  "list_all (requirement_holds other labels)
     (sort_by (\<lambda>a b. NodeKey a < NodeKey b) (map region_requirement ml)) \<longleftrightarrow>
   (\<forall>(k, v) \<in> set ml. mget labels k = Some v)"
  by (auto simp: list_all_iff region_requirement_def requirement_holds_def split: option.splits)

text \<open>
  For a template without node selector terms of its own, the affinity the controller adds
  selects exactly the nodes that carry every label of the region.
\<close>

theorem region_affinity_selects_region:
  assumes "na = None \<or> (\<exists>a. na = Some a \<and> (RequiredTerms a = None \<or> RequiredTerms a = Some []))"
    and "matchLabels \<noteq> []"
  shows "node_selected other (CloneNodeAffinityAndAdd na matchLabels) labels \<longleftrightarrow>
     (\<forall>(k, v) \<in> set matchLabels. mget labels k = Some v)"
  using assms region_term_holds [of other labels matchLabels]
  by (auto simp: CloneNodeAffinityAndAdd_def node_selected_def Let_def zero_node_affinity_def
      split: option.splits)

theorem region_affinity_selects_region_witness:
  "node_selected (\<lambda>_ _. False) (CloneNodeAffinityAndAdd None [(''zone'', ''r1'')])
     [(''zone'', ''r1''), (''disk'', ''ssd'')] \<longleftrightarrow>
   (\<forall>(k, v) \<in> set [(''zone'', ''r1'')]. mget [(''zone'', ''r1''), (''disk'', ''ssd'')] k = Some v)"
  by (rule region_affinity_selects_region) simp_all

text \<open>
  Terms are alternatives, so a template that already has a node selector term keeps selecting
  every node of that term: the region the controller adds beside it does not restrict the pods to
  the region.
\<close>

theorem region_affinity_does_not_restrict:
  assumes "RequiredTerms a = Some ts" and "t \<in> set ts"
    and "list_all (requirement_holds other labels) (TermMatchExpressions t)"
  shows "node_selected other (CloneNodeAffinityAndAdd (Some a) matchLabels) labels"
  using assms by (auto simp: CloneNodeAffinityAndAdd_def node_selected_def Let_def)

theorem region_affinity_does_not_restrict_witness:
  "node_selected (\<lambda>_ _. False)
     (CloneNodeAffinityAndAdd
        (Some \<lparr>RequiredTerms = Some [\<lparr>TermMatchExpressions = [region_requirement (''disk'', ''ssd'')],
           TermRest = []\<rparr>], NodeAffinityRest = []\<rparr>) [(''zone'', ''r1'')])
     [(''zone'', ''r2''), (''disk'', ''ssd'')]"
  by (rule region_affinity_does_not_restrict)
    (auto simp: region_requirement_def requirement_holds_def)

text \<open>
  The template of a region of the specification is the common template patched by the
  first overrider that carries the region's name, and the unpatched template when there is none or
  the patch fails; it is never missing.
\<close>

theorem override_applies_to_named_region:
  assumes "r \<in> set (Regions (Spec ed))" and "RegionName r = n"
  shows "ApplyOverridePolicies X n ed = Some
     (case find (\<lambda>ov. OverName ov = n) (Overriders (Spec ed)) of
        None \<Rightarrow> Template (Spec ed)
      | Some ov \<Rightarrow>
          (case jsonPatch X (parseJSONPatchesByPlaintext ov) (Template (Spec ed)) of
             Inl e \<Rightarrow> Template (Spec ed) | Inr t \<Rightarrow> t))"
proof -
  have "find (\<lambda>r. RegionName r = n) (Regions (Spec ed)) \<noteq> None"
    using assms by (auto simp: find_None_iff)
  then show ?thesis
    by (auto simp: ApplyOverridePolicies_def Let_def
        split: option.splits sum.splits)
qed

theorem override_applies_to_named_region_witness:
  "ApplyOverridePolicies sample_ext ''r1''
     (zero_ED\<lparr>Spec := zero_ed_spec\<lparr>
        Regions := [\<lparr>RegionName = ''r1'', RegionReplicas = None\<rparr>],
        Overriders := [\<lparr>OverName = ''r1'', Plaintext =
          [\<lparr>OverPath = ''/spec'', OverOperator = ''replace'', OverValue = ''new''\<rparr>]\<rparr>]\<rparr>\<rparr>)
   = Some (zero_template\<lparr>TemplateRest := ''new''\<rparr>)"
  by (subst override_applies_to_named_region [where r = "\<lparr>RegionName = ''r1'', RegionReplicas = None\<rparr>"])
    (simp_all add: zero_values sample_ext_def parseJSONPatchesByPlaintext_def)

end
