(* ===== verification/DeployRes.thy ===== *)
theory DeployRes
  imports Utils
begin

text \<open>
  \<open>pkg/controllers/deployregion/resource.go\<close>: vectors of \<open>int64\<close> resources, what a pod
  requests, and how many replicas fit into a vector. The theorem: \<open>MaxDivided\<close> is the largest
  number of replicas that fits.
\<close>

section \<open>Quantities\<close>

definition ResourceCPU :: string where "ResourceCPU = ''cpu''"
definition ResourceMemory :: string where "ResourceMemory = ''memory''"
definition ResourceEphemeralStorage :: string where "ResourceEphemeralStorage = ''ephemeral-storage''"
definition ResourcePods :: string where "ResourcePods = ''pods''"

lemma resource_names_distinct [simp]:
  "distinct [ResourceCPU, ResourceMemory, ResourceEphemeralStorage, ResourcePods]"
  by (simp add: ResourceCPU_def ResourceMemory_def ResourceEphemeralStorage_def ResourcePods_def)

lemma resource_names_neq [simp]:
  "ResourceCPU \<noteq> ResourceMemory" "ResourceMemory \<noteq> ResourceCPU"
  "ResourceCPU \<noteq> ResourcePods" "ResourcePods \<noteq> ResourceCPU"
  "ResourceCPU \<noteq> ResourceEphemeralStorage" "ResourceEphemeralStorage \<noteq> ResourceCPU"
  "ResourceMemory \<noteq> ResourcePods" "ResourcePods \<noteq> ResourceMemory"
  "ResourceMemory \<noteq> ResourceEphemeralStorage" "ResourceEphemeralStorage \<noteq> ResourceMemory"
  "ResourcePods \<noteq> ResourceEphemeralStorage" "ResourceEphemeralStorage \<noteq> ResourcePods"
  using resource_names_distinct by auto

text \<open>
  The library's constructors of a quantity. \<open>Value\<close> rounds a fraction away from zero,
  \<open>MilliValue\<close> is 0 when the value times 1000 does not fit.
\<close>

definition NewMilliQuantity :: "int \<Rightarrow> quantity" where
  "NewMilliQuantity v = \<lparr>MilliValue = v, Value = sgn v * ((\<bar>v\<bar> + 999) div 1000)\<rparr>"

definition NewQuantity :: "int \<Rightarrow> quantity" where
  "NewQuantity v = \<lparr>MilliValue = (if is_i64 (v * 1000) then v * 1000 else 0), Value = v\<rparr>"

section \<open>Resource\<close>

record resource =
  MilliCPU :: int
  Memory :: int
  EphemeralStorage :: int
  AllowedPodNumber :: int

definition EmptyResource :: resource where
  "EmptyResource = \<lparr>MilliCPU = 0, Memory = 0, EphemeralStorage = 0, AllowedPodNumber = 0\<rparr>"

fun addQuantity :: "string \<times> quantity \<Rightarrow> resource \<Rightarrow> resource" where
  "addQuantity (rName, rQuant) r =
     (if rName = ResourceCPU then r\<lparr>MilliCPU := i64 (MilliCPU r + MilliValue rQuant)\<rparr>
      else if rName = ResourceMemory then r\<lparr>Memory := i64 (Memory r + Value rQuant)\<rparr>
      else if rName = ResourcePods then r\<lparr>AllowedPodNumber := i64 (AllowedPodNumber r + Value rQuant)\<rparr>
      else if rName = ResourceEphemeralStorage
      then r\<lparr>EphemeralStorage := i64 (EphemeralStorage r + Value rQuant)\<rparr>
      else r)"

definition Add :: "resource \<Rightarrow> resource_list \<Rightarrow> resource" where
  "Add r rl = fold addQuantity rl r"

definition AddResource :: "resource \<Rightarrow> resource \<Rightarrow> resource" where
  "AddResource r a = \<lparr>MilliCPU = i64 (MilliCPU r + MilliCPU a), Memory = i64 (Memory r + Memory a),
     EphemeralStorage = i64 (EphemeralStorage r + EphemeralStorage a),
     AllowedPodNumber = i64 (AllowedPodNumber r + AllowedPodNumber a)\<rparr>"

definition SubResource :: "resource \<Rightarrow> resource \<Rightarrow> resource" where
  "SubResource r a = \<lparr>MilliCPU = i64 (MilliCPU r - MilliCPU a), Memory = i64 (Memory r - Memory a),
     EphemeralStorage = i64 (EphemeralStorage r - EphemeralStorage a),
     AllowedPodNumber = i64 (AllowedPodNumber r - AllowedPodNumber a)\<rparr>"

text \<open>\<open>Sub\<close>: the resource and the error; what was subtracted before the error stays subtracted.\<close>

fun Sub :: "resource \<Rightarrow> resource_list \<Rightarrow> resource \<times> err option" where
  "Sub r [] = (r, None)"
| "Sub r ((rName, rQuant) # rl) =
     (if rName = ResourceCPU then
        (if MilliCPU r < MilliValue rQuant then (r, Some (Msg ''cpu difference is less than 0''))
         else Sub (r\<lparr>MilliCPU := i64 (MilliCPU r - MilliValue rQuant)\<rparr>) rl)
      else if rName = ResourceMemory then
        (if Memory r < Value rQuant then (r, Some (Msg ''memory difference is less than 0''))
         else Sub (r\<lparr>Memory := i64 (Memory r - Value rQuant)\<rparr>) rl)
      else if rName = ResourcePods then
        (if AllowedPodNumber r < Value rQuant then (r, Some (Msg ''allowed pod difference is less than 0''))
         else Sub (r\<lparr>AllowedPodNumber := i64 (AllowedPodNumber r - Value rQuant)\<rparr>) rl)
      else if rName = ResourceEphemeralStorage then
        (if EphemeralStorage r < Value rQuant
         then (r, Some (Msg ''allowed storage number difference is less than 0''))
         else Sub (r\<lparr>EphemeralStorage := i64 (EphemeralStorage r - Value rQuant)\<rparr>) rl)
      else Sub r rl)"

fun maxQuantity :: "string \<times> quantity \<Rightarrow> resource \<Rightarrow> resource" where
  "maxQuantity (rName, rQuant) r =
     (if rName = ResourceCPU then
        (if MilliValue rQuant > MilliCPU r then r\<lparr>MilliCPU := MilliValue rQuant\<rparr> else r)
      else if rName = ResourceMemory then
        (if Value rQuant > Memory r then r\<lparr>Memory := Value rQuant\<rparr> else r)
      else if rName = ResourceEphemeralStorage then
        (if Value rQuant > EphemeralStorage r then r\<lparr>EphemeralStorage := Value rQuant\<rparr> else r)
      else if rName = ResourcePods then
        (if Value rQuant > AllowedPodNumber r then r\<lparr>AllowedPodNumber := Value rQuant\<rparr> else r)
      else r)"

definition SetMaxResource :: "resource \<Rightarrow> resource_list \<Rightarrow> resource" where
  "SetMaxResource r rl = fold maxQuantity rl r"

definition ResourceList :: "resource \<Rightarrow> resource_list" where
  "ResourceList r =
     (if MilliCPU r > 0 then [(ResourceCPU, NewMilliQuantity (MilliCPU r))] else []) @
     (if Memory r > 0 then [(ResourceMemory, NewQuantity (Memory r))] else []) @
     (if EphemeralStorage r > 0 then [(ResourceEphemeralStorage, NewQuantity (EphemeralStorage r))] else []) @
     (if AllowedPodNumber r > 0 then [(ResourcePods, NewQuantity (AllowedPodNumber r))] else [])"

definition MinInt64 :: "int \<Rightarrow> int \<Rightarrow> int" where
  "MinInt64 a b = (if a \<le> b then a else b)"

fun divideQuantity :: "resource \<Rightarrow> string \<times> quantity \<Rightarrow> int \<Rightarrow> int" where
  "divideQuantity r (rName, rQuant) n =
     (if rName = ResourceCPU then
        (if MilliValue rQuant > 0 then MinInt64 n (quot (MilliCPU r) (MilliValue rQuant)) else n)
      else if rName = ResourceMemory then
        (if Value rQuant > 0 then MinInt64 n (quot (Memory r) (Value rQuant)) else n)
      else if rName = ResourceEphemeralStorage then
        (if Value rQuant > 0 then MinInt64 n (quot (EphemeralStorage r) (Value rQuant)) else n)
      else n)"

definition MaxDivided :: "resource \<Rightarrow> resource_list \<Rightarrow> int" where
  "MaxDivided r rl = MinInt64 (fold (divideQuantity r) rl MaxInt64) (AllowedPodNumber r)"

definition LessEqual :: "resource \<Rightarrow> resource \<Rightarrow> bool" where
  "LessEqual r rr \<longleftrightarrow> MilliCPU r \<le> MilliCPU rr \<and> Memory r \<le> Memory rr \<and>
     EphemeralStorage r \<le> EphemeralStorage rr \<and> AllowedPodNumber r \<le> AllowedPodNumber rr"

section \<open>The request of a pod\<close>

text \<open>Limits stand in for the requests that are missing.\<close>

definition defaultRequests :: "container \<Rightarrow> container" where
  "defaultRequests c = c\<lparr>CRequests := fold (\<lambda>(key, v) reqs. if mhas reqs key then reqs else mset_key key v reqs)
     (CLimits c) (CRequests c)\<rparr>"

definition AddPodRequest :: "resource \<Rightarrow> pod_spec \<Rightarrow> resource" where
  "AddPodRequest r podSpec =
     (let r = fold (\<lambda>c r. Add r (CRequests c)) (Containers podSpec) r;
          r = fold (\<lambda>c r. SetMaxResource r (CRequests c)) (InitContainers podSpec) r
      in Add r (Overhead podSpec))"

definition AddPodTemplateRequest :: "resource \<Rightarrow> pod_spec \<Rightarrow> resource" where
  "AddPodTemplateRequest r podSpec = AddPodRequest r
     (podSpec\<lparr>Containers := map defaultRequests (Containers podSpec),
        InitContainers := map defaultRequests (InitContainers podSpec)\<rparr>)"

definition AddResourcePods :: "resource \<Rightarrow> int \<Rightarrow> resource" where
  "AddResourcePods r pods = Add r [(ResourcePods, NewQuantity pods)]"

section \<open>How many replicas fit\<close>

text \<open>What one replica takes of a dimension, given its request; a request that is not positive takes nothing.\<close>

fun takes :: "resource \<Rightarrow> int \<Rightarrow> string \<times> quantity \<Rightarrow> bool" where
  "takes r k (rName, rQuant) \<longleftrightarrow>
     (rName = ResourceCPU \<longrightarrow> k * max 0 (MilliValue rQuant) \<le> MilliCPU r) \<and>
     (rName = ResourceMemory \<longrightarrow> k * max 0 (Value rQuant) \<le> Memory r) \<and>
     (rName = ResourceEphemeralStorage \<longrightarrow> k * max 0 (Value rQuant) \<le> EphemeralStorage r)"

text \<open>\<open>k\<close> replicas of a request fit into the resources.\<close>

definition fits :: "resource \<Rightarrow> resource_list \<Rightarrow> int \<Rightarrow> bool" where
  "fits r rl k \<longleftrightarrow> k \<le> AllowedPodNumber r \<and> list_all (takes r k) rl"

definition nonneg_resource :: "resource \<Rightarrow> bool" where
  "nonneg_resource r \<longleftrightarrow> 0 \<le> MilliCPU r \<and> 0 \<le> Memory r \<and> 0 \<le> EphemeralStorage r \<and>
     0 \<le> AllowedPodNumber r"

lemma MinInt64_min [simp]: "MinInt64 a b = min a b"
  by (simp add: MinInt64_def min_def)

lemma le_quot_iff: "0 \<le> a \<Longrightarrow> 0 < b \<Longrightarrow> k \<le> quot a b \<longleftrightarrow> k * b \<le> a"
proof -
  assume ab: "0 \<le> a" "0 < b"
  have "k * b \<le> a" if "k \<le> a div b"
    using that ab(2) by (metis div_mult_mod_eq dual_order.trans le_add_same_cancel1 mult_right_mono
        order_less_imp_le pos_mod_sign)
  moreover have "k \<le> a div b" if "k * b \<le> a"
    using zdiv_mono1 [OF that ab(2)] ab(2) by simp
  ultimately show ?thesis using ab by (auto simp: quot_nonneg)
qed

lemma divideQuantity_iff:
  assumes "nonneg_resource r" shows "k \<le> divideQuantity r q n \<longleftrightarrow> k \<le> n \<and> takes r k q"
  using assms by (cases q) (auto simp: nonneg_resource_def le_quot_iff max_def)

lemma divide_fold_iff:
  assumes "nonneg_resource r"
  shows "k \<le> fold (divideQuantity r) rl n \<longleftrightarrow> k \<le> n \<and> list_all (takes r k) rl"
  by (induction rl arbitrary: n) (auto simp: divideQuantity_iff [OF assms])

text \<open>
  C21: c0: \<open>MaxDivided\<close> is the largest number of replicas that fits: for resources none of which is
  negative, a number is at most \<open>MaxDivided\<close> exactly when that many replicas fit, in every
  dimension and within the allowed number of pods. The order of the request list plays no part.
\<close>

theorem MaxDivided_is_capacity:
  assumes "nonneg_resource r" and "is_i64 (AllowedPodNumber r)"
  shows "k \<le> MaxDivided r rl \<longleftrightarrow> fits r rl k"
  using assms
  by (auto simp: MaxDivided_def fits_def divide_fold_iff is_i64_def MaxInt64_def)

definition small_node :: resource where
  "small_node = \<lparr>MilliCPU = 2500, Memory = 4096, EphemeralStorage = 0, AllowedPodNumber = 110\<rparr>"

definition small_request :: resource_list where
  "small_request = [(''cpu'', \<lparr>MilliValue = 1000, Value = 1\<rparr>), (''memory'', \<lparr>MilliValue = 1024000, Value = 1024\<rparr>)]"

theorem MaxDivided_is_capacity_witness:
  "nonneg_resource small_node \<and> is_i64 (AllowedPodNumber small_node) \<and>
   fits small_node small_request 2 \<and> \<not> fits small_node small_request 3 \<and>
   2 \<le> MaxDivided small_node small_request \<and> \<not> 3 \<le> MaxDivided small_node small_request"
proof -
  have n: "nonneg_resource small_node" "is_i64 (AllowedPodNumber small_node)"
    by (simp_all add: nonneg_resource_def small_node_def is_i64_def)
  have f: "fits small_node small_request 2" "\<not> fits small_node small_request 3"
    by (simp_all add: fits_def small_node_def small_request_def ResourceCPU_def ResourceMemory_def
        ResourceEphemeralStorage_def)
  from n f show ?thesis
    by (simp add: MaxDivided_is_capacity [OF n])
qed

end
