(* ===== verification/Adapter.thy ===== *)
theory Adapter
  imports Utils
begin

text \<open>
  The package \<open>extendeddeployment/adapter\<close>: one adapter per workload kind behind the
  \<open>Adapter\<close> interface. An adapter is a record of its operations. A failed type assertion, and
  the dereference of a nil pointer, is a panic.
\<close>

section \<open>Workloads\<close>

definition RegionLabel :: string where
  "RegionLabel = ''inplaceset-region''"

definition PodTemplateHashLabel :: string where
  "PodTemplateHashLabel = ''pod-template-hash''"

definition InPlaceUpdateReady :: string where
  "InPlaceUpdateReady = ''InPlaceUpdateReady''"

definition meta_of :: "workload \<Rightarrow> object_meta" where
  "meta_of w = (case w of
     WInplaceSet s \<Rightarrow> object_meta.truncate s
   | WDeployment s \<Rightarrow> object_meta.truncate s
   | WReplicaSet s \<Rightarrow> object_meta.truncate s)"

definition set_meta :: "(object_meta \<Rightarrow> object_meta) \<Rightarrow> workload \<Rightarrow> workload" where
  "set_meta f w =
     (let m = f (meta_of w)
      in case w of
        WInplaceSet s \<Rightarrow> WInplaceSet (object_meta.extend m (object_meta.more s))
      | WDeployment s \<Rightarrow> WDeployment (object_meta.extend m (object_meta.more s))
      | WReplicaSet s \<Rightarrow> WReplicaSet (object_meta.extend m (object_meta.more s)))"

fun as_InplaceSet :: "workload \<Rightarrow> inplace_set action" where
  "as_InplaceSet (WInplaceSet s) = ret s"
| "as_InplaceSet _ = panic (Msg ''interface conversion'')"

fun as_Deployment :: "workload \<Rightarrow> native_set action" where
  "as_Deployment (WDeployment s) = ret s"
| "as_Deployment _ = panic (Msg ''interface conversion'')"

fun as_ReplicaSet :: "workload \<Rightarrow> native_set action" where
  "as_ReplicaSet (WReplicaSet s) = ret s"
| "as_ReplicaSet _ = panic (Msg ''interface conversion'')"

text \<open>The pointer \<open>Spec.Replicas\<close> of a workload as the subset's integer.\<close>

definition replicas_or_0 :: "int option \<Rightarrow> int" where
  "replicas_or_0 p = (case p of None \<Rightarrow> 0 | Some n \<Rightarrow> n)"

section \<open>Annotations copied to a new workload\<close>

definition annotationsToSkip :: "string list" where
  "annotationsToSkip = [''kubectl.kubernetes.io/last-applied-configuration'',
     AnnotationUpgradeConfirm, AnnotationFailedFlag, AnnotationRollbackTo, AnnotationRevision,
     AnnotationRollTerm]"

definition skipCopyAnnotation :: "string \<Rightarrow> bool" where
  "skipCopyAnnotation key = (key \<in> set annotationsToSkip)"

fun copyDeploymentAnnotationsToReplicaSet ::
    "string gomap \<Rightarrow> string gomap \<Rightarrow> bool \<times> string gomap" where
  "copyDeploymentAnnotationsToReplicaSet [] om = (False, om)"
| "copyDeploymentAnnotationsToReplicaSet ((k, v) # rest) om =
     (if skipCopyAnnotation k \<or> mget om k = Some v
      then copyDeploymentAnnotationsToReplicaSet rest om
      else (True, snd (copyDeploymentAnnotationsToReplicaSet rest (mset_key k v om))))"

definition SetNewReplicaSetAnnotations ::
    "extended_deployment \<Rightarrow> 'a object_meta_scheme \<Rightarrow> 'a object_meta_scheme" where
  "SetNewReplicaSetAnnotations deployment newOM =
     newOM\<lparr>Annotations :=
       snd (copyDeploymentAnnotationsToReplicaSet (Annotations deployment) (Annotations newOM))\<rparr>"

section \<open>The adapters\<close>

record adapter =
  NewResourceObject :: workload
  GetStatusObservedGeneration :: "workload \<Rightarrow> int action"
  GetReplicaDetails :: "workload \<Rightarrow> subset \<Rightarrow> subset action"
  ApplySubsetTemplate :: "extended_deployment \<Rightarrow> deploy_region option \<Rightarrow> pod_template option \<Rightarrow> int \<Rightarrow>
    workload \<Rightarrow> (extended_deployment \<times> workload) action"
  SetReplicas :: "workload \<Rightarrow> int \<Rightarrow> workload action"
  SetUpdateStrategy :: "workload \<Rightarrow> extended_deployment \<Rightarrow> workload action"

text \<open>
  The name hash of a new workload, from the template and the collision count, which is counted up;
  both pointers are dereferenced.
\<close>

definition nextNameHash ::
    "ext \<Rightarrow> extended_deployment \<Rightarrow> pod_template \<Rightarrow> (string \<times> extended_deployment) action" where
  "nextNameHash X cd template =
     bind_io (deref (CollisionCount (Status cd))) (\<lambda>n.
     ret (ComputeHash X template n, cd\<lparr>Status := (Status cd)\<lparr>CollisionCount := Some (i32 (n + 1))\<rparr>\<rparr>))"

definition inplaceStrategyType :: "update_type \<Rightarrow> update_type \<Rightarrow> update_type" where
  "inplaceStrategyType typ old =
     (if typ = InPlaceIfPossibleUpdateStrategyType \<or> typ = InPlaceOnlyUpdateStrategyType
      then InPlaceIfPossibleUpdateStrategyType
      else if typ = DeleteAllFirstUpdateStrategyType \<or> typ = RecreateUpdateStrategyType \<or>
        typ = RollingUpdateStrategyType
      then RecreateUpdateStrategyType else old)"

definition dropInplaceGate :: "pod_template \<Rightarrow> pod_template" where
  "dropInplaceGate t = t\<lparr>TemplateSpec := (TemplateSpec t)\<lparr>ReadinessGates :=
     filter (\<lambda>g. g \<noteq> InPlaceUpdateReady) (ReadinessGates (TemplateSpec t))\<rparr>\<rparr>"

definition InplaceSet_GetReplicaDetails :: "workload \<Rightarrow> subset \<Rightarrow> subset action" where
  "InplaceSet_GetReplicaDetails obj sub =
     bind_io (as_InplaceSet obj) (\<lambda>set.
     ret (sub\<lparr>SpecReplicas := replicas_or_0 (IReplicas set),
       SubMinReadySeconds := IMinReadySeconds set, SubUpdateType := IUpdateType set,
       SubInPlaceGrace := (case IInPlaceGrace set of None \<Rightarrow> SubInPlaceGrace sub | Some g \<Rightarrow> Some g),
       SubTemplate := ITemplate set, SubSelector := ISelector set,
       StatusReplicas := ISReplicas (IStatus set), StatusAvailable := ISAvailable (IStatus set),
       StatusInplace := (case ISInplaceUpdate (IStatus set) of
          None \<Rightarrow> StatusInplace sub
        | Some u \<Rightarrow> Some \<lparr>SubIUSAvailable = IUSAvailable u,
            SubIUSPodTemplateHash = IUSPodTemplateHash u\<rparr>)\<rparr>))"

definition InplaceSet_ApplySubsetTemplate ::
    "ext \<Rightarrow> extended_deployment \<Rightarrow> deploy_region option \<Rightarrow> pod_template option \<Rightarrow> int \<Rightarrow> workload \<Rightarrow>
     (extended_deployment \<times> workload) action" where
  "InplaceSet_ApplySubsetTemplate X cd drp tp replicas obj =
     bind_io (as_InplaceSet obj) (\<lambda>set.
     bind_io (deref tp) (\<lambda>template.
     bind_io (nextNameHash X cd template) (\<lambda>(podTemplateSpecHash, cd).
     bind_io (deref (CloneSelectorAndAddLabel (Selector (Spec cd)) PodTemplateHashLabel
       podTemplateSpecHash)) (\<lambda>newISSelector.
     bind_io (deref drp) (\<lambda>dr.
     bind_io (deref (UpdateStrategy (Strategy (Spec cd)))) (\<lambda>us.
     ret (cd, WInplaceSet (SetNewReplicaSetAnnotations cd (set\<lparr>
       Name := Name cd @ ''-'' @ Name dr @ ''-'' @ podTemplateSpecHash,
       Namespace := Namespace cd,
       Labels := CloneAndAddLabel (TemplateLabels template) RegionLabel (Name dr),
       ISelector := newISSelector,
       IReplicas := Some replicas,
       ITemplate := template\<lparr>
         TemplateLabels := CloneAndAddLabel (TemplateLabels template) PodTemplateHashLabel
           podTemplateSpecHash,
         TemplateSpec := SetSubsetRegionAffinity (TemplateSpec template) (RegionMatchLabels dr)\<rparr>,
       IMinReadySeconds := MinReadySeconds (Strategy (Spec cd)),
       IUpdateType := inplaceStrategyType (UpdateType us) (IUpdateType set),
       IInPlaceGrace := Some (GracePeriodSeconds us)\<rparr>)))))))))"

definition InplaceSet_SetReplicas :: "workload \<Rightarrow> int \<Rightarrow> workload action" where
  "InplaceSet_SetReplicas obj replicas =
     bind_io (as_InplaceSet obj) (\<lambda>set. ret (WInplaceSet (set\<lparr>IReplicas := Some replicas\<rparr>)))"

definition InplaceSet_SetUpdateStrategy :: "workload \<Rightarrow> extended_deployment \<Rightarrow> workload action" where
  "InplaceSet_SetUpdateStrategy obj cd =
     bind_io (as_InplaceSet obj) (\<lambda>set.
     bind_io (deref (UpdateStrategy (Strategy (Spec cd)))) (\<lambda>us.
     ret (WInplaceSet (set\<lparr>IMinReadySeconds := MinReadySeconds (Strategy (Spec cd)),
       IUpdateType := inplaceStrategyType (UpdateType us) (IUpdateType set),
       IInPlaceGrace := Some (GracePeriodSeconds us)\<rparr>))))"

definition InplaceSetAdapter :: "ext \<Rightarrow> adapter" where
  "InplaceSetAdapter X = \<lparr>
     NewResourceObject = WInplaceSet zero_inplace_set,
     GetStatusObservedGeneration =
       (\<lambda>obj. bind_io (as_InplaceSet obj) (\<lambda>s. ret (ISObservedGeneration (IStatus s)))),
     GetReplicaDetails = InplaceSet_GetReplicaDetails,
     ApplySubsetTemplate = InplaceSet_ApplySubsetTemplate X,
     SetReplicas = InplaceSet_SetReplicas,
     SetUpdateStrategy = InplaceSet_SetUpdateStrategy\<rparr>"

text \<open>Native workloads: a Deployment and a ReplicaSet hand the same fields to the subset.\<close>

definition native_details :: "native_set \<Rightarrow> subset \<Rightarrow> subset" where
  "native_details s sub = sub\<lparr>SpecReplicas := replicas_or_0 (NReplicas s),
     SubMinReadySeconds := NMinReadySeconds s, SubTemplate := NTemplate s,
     SubSelector := NSelector s, StatusReplicas := NStatusReplicas s,
     StatusAvailable := NStatusAvailable s\<rparr>"

definition Deployment_GetReplicaDetails :: "workload \<Rightarrow> subset \<Rightarrow> subset action" where
  "Deployment_GetReplicaDetails obj sub =
     bind_io (as_Deployment obj) (\<lambda>set. ret (native_details set sub))"

definition Deployment_ApplySubsetTemplate ::
    "ext \<Rightarrow> extended_deployment \<Rightarrow> deploy_region option \<Rightarrow> pod_template option \<Rightarrow> int \<Rightarrow> workload \<Rightarrow>
     (extended_deployment \<times> workload) action" where
  "Deployment_ApplySubsetTemplate X cd drp tp replicas obj =
     bind_io (as_Deployment obj) (\<lambda>set.
     bind_io (deref tp) (\<lambda>template.
     bind_io (nextNameHash X cd template) (\<lambda>(podTemplateSpecHash, cd).
     bind_io (deref drp) (\<lambda>dr.
     bind_io (deref (UpdateStrategy (Strategy (Spec cd)))) (\<lambda>us.
     ret (cd, WDeployment (SetNewReplicaSetAnnotations cd (set\<lparr>
       Name := Name cd @ ''-'' @ Name dr @ ''-'' @ podTemplateSpecHash,
       Namespace := Namespace cd,
       Labels := CloneAndAddLabel (TemplateLabels template) RegionLabel (Name dr),
       NSelector := Selector (Spec cd),
       NReplicas := Some replicas,
       NTemplate := dropInplaceGate (template\<lparr>
         TemplateSpec := SetSubsetRegionAffinity (TemplateSpec template) (RegionMatchLabels dr)\<rparr>),
       NMinReadySeconds := MinReadySeconds (Strategy (Spec cd)),
       NRecreate := (if UpdateType us = RecreateUpdateStrategyType then True else NRecreate set)
       \<rparr>))))))))"

definition Deployment_SetReplicas :: "workload \<Rightarrow> int \<Rightarrow> workload action" where
  "Deployment_SetReplicas obj replicas =
     bind_io (as_Deployment obj) (\<lambda>set. ret (WDeployment (set\<lparr>NReplicas := Some replicas\<rparr>)))"

definition Deployment_SetUpdateStrategy :: "workload \<Rightarrow> extended_deployment \<Rightarrow> workload action" where
  "Deployment_SetUpdateStrategy obj cd =
     bind_io (as_Deployment obj) (\<lambda>set.
     ret (WDeployment (set\<lparr>NMinReadySeconds := MinReadySeconds (Strategy (Spec cd))\<rparr>)))"

definition DeploymentAdapter :: "ext \<Rightarrow> adapter" where
  "DeploymentAdapter X = \<lparr>
     NewResourceObject = WDeployment zero_native_set,
     GetStatusObservedGeneration =
       (\<lambda>obj. bind_io (as_Deployment obj) (\<lambda>s. ret (NObservedGeneration s))),
     GetReplicaDetails = Deployment_GetReplicaDetails,
     ApplySubsetTemplate = Deployment_ApplySubsetTemplate X,
     SetReplicas = Deployment_SetReplicas,
     SetUpdateStrategy = Deployment_SetUpdateStrategy\<rparr>"

definition ReplicaSet_GetReplicaDetails :: "workload \<Rightarrow> subset \<Rightarrow> subset action" where
  "ReplicaSet_GetReplicaDetails obj sub =
     bind_io (as_ReplicaSet obj) (\<lambda>set. ret (native_details set sub))"

definition ReplicaSet_ApplySubsetTemplate ::
    "ext \<Rightarrow> extended_deployment \<Rightarrow> deploy_region option \<Rightarrow> pod_template option \<Rightarrow> int \<Rightarrow> workload \<Rightarrow>
     (extended_deployment \<times> workload) action" where
  "ReplicaSet_ApplySubsetTemplate X cd drp tp replicas obj =
     bind_io (as_ReplicaSet obj) (\<lambda>set.
     bind_io (deref tp) (\<lambda>template.
     bind_io (nextNameHash X cd template) (\<lambda>(podTemplateSpecHash, cd).
     bind_io (deref (CloneSelectorAndAddLabel (Selector (Spec cd)) PodTemplateHashLabel
       podTemplateSpecHash)) (\<lambda>newISSelector.
     bind_io (deref drp) (\<lambda>dr.
     ret (cd, WReplicaSet (SetNewReplicaSetAnnotations cd (set\<lparr>
       Name := Name cd @ ''-'' @ Name dr @ ''-'' @ podTemplateSpecHash,
       Namespace := Namespace cd,
       Labels := CloneAndAddLabel (TemplateLabels template) RegionLabel (Name dr),
       NSelector := newISSelector,
       NReplicas := Some replicas,
       NTemplate := dropInplaceGate (template\<lparr>
         TemplateLabels := CloneAndAddLabel (TemplateLabels template) PodTemplateHashLabel
           podTemplateSpecHash,
         TemplateSpec := SetSubsetRegionAffinity (TemplateSpec template) (RegionMatchLabels dr)\<rparr>),
       NMinReadySeconds := MinReadySeconds (Strategy (Spec cd))\<rparr>))))))))"

definition ReplicaSet_SetReplicas :: "workload \<Rightarrow> int \<Rightarrow> workload action" where
  "ReplicaSet_SetReplicas obj replicas =
     bind_io (as_ReplicaSet obj) (\<lambda>set. ret (WReplicaSet (set\<lparr>NReplicas := Some replicas\<rparr>)))"

definition ReplicaSet_SetUpdateStrategy :: "workload \<Rightarrow> extended_deployment \<Rightarrow> workload action" where
  "ReplicaSet_SetUpdateStrategy obj cd =
     bind_io (as_ReplicaSet obj) (\<lambda>set.
     ret (WReplicaSet (set\<lparr>NMinReadySeconds := MinReadySeconds (Strategy (Spec cd))\<rparr>)))"

definition ReplicaSetAdapter :: "ext \<Rightarrow> adapter" where
  "ReplicaSetAdapter X = \<lparr>
     NewResourceObject = WReplicaSet zero_native_set,
     GetStatusObservedGeneration =
       (\<lambda>obj. bind_io (as_ReplicaSet obj) (\<lambda>s. ret (NObservedGeneration s))),
     GetReplicaDetails = ReplicaSet_GetReplicaDetails,
     ApplySubsetTemplate = ReplicaSet_ApplySubsetTemplate X,
     SetReplicas = ReplicaSet_SetReplicas,
     SetUpdateStrategy = ReplicaSet_SetUpdateStrategy\<rparr>"

section \<open>Ordering subsets\<close>

definition SubSetsByCreationTimestamp_Less :: "subset \<Rightarrow> subset \<Rightarrow> bool" where
  "SubSetsByCreationTimestamp_Less a b =
     (if CreationTimestamp a = CreationTimestamp b then Name a < Name b
      else CreationTimestamp a < CreationTimestamp b)"

definition SubSetsByRevision_Less :: "subset \<Rightarrow> subset \<Rightarrow> bool" where
  "SubSetsByRevision_Less a b =
     (case (RevisionToInt64 (Annotations a), RevisionToInt64 (Annotations b)) of
        ((revision1, err1), (revision2, err2)) \<Rightarrow>
          (if err1 \<noteq> None \<or> err2 \<noteq> None \<or> revision1 = revision2
           then SubSetsByCreationTimestamp_Less a b
           else revision1 < revision2))"

interpretation by_creation: less_order SubSetsByCreationTimestamp_Less
  by unfold_locales (auto simp: SubSetsByCreationTimestamp_Less_def split: if_splits)

section \<open>Subsets of workloads\<close>

text \<open>\<open>convertToSubset\<close> of the subset control (and of the rescheduler, which repeats it).\<close>

definition subset_of_meta :: "object_meta \<Rightarrow> subset" where
  "subset_of_meta m = zero_subset\<lparr>Name := Name m, Namespace := Namespace m, UID := UID m,
     CreationTimestamp := CreationTimestamp m, DeletionTimestamp := DeletionTimestamp m,
     Generation := Generation m, Labels := Labels m, Annotations := Annotations m,
     OwnerReferences := OwnerReferences m\<rparr>"

definition convertToSubset :: "adapter \<Rightarrow> workload \<Rightarrow> subset action" where
  "convertToSubset A w =
     bind_io (GetReplicaDetails A w (subset_of_meta (meta_of w))) (\<lambda>sub.
     ret (sub\<lparr>SubsetRef := w\<rparr>))"

text \<open>The adapters by subset type, as \<open>Setup\<close> registers them.\<close>

definition subSetControls :: "ext \<Rightarrow> subset_type \<Rightarrow> adapter option" where
  "subSetControls X t = (case t of
     InPlaceSetSubsetType \<Rightarrow> Some (InplaceSetAdapter X)
   | DeploymentSubsetType \<Rightarrow> Some (DeploymentAdapter X)
   | ReplicaSetSubsetType \<Rightarrow> Some (ReplicaSetAdapter X)
   | _ \<Rightarrow> None)"

fun is_kind :: "subset_type \<Rightarrow> workload \<Rightarrow> bool" where
  "is_kind InPlaceSetSubsetType (WInplaceSet _) = True"
| "is_kind DeploymentSubsetType (WDeployment _) = True"
| "is_kind ReplicaSetSubsetType (WReplicaSet _) = True"
| "is_kind _ _ = False"

section \<open>The contract of an adapter\<close>

text \<open>
  What the subset control relies on: an adapter handles the workloads of its kind without a
  panic, its setters keep the kind and the metadata, writing the replica count changes nothing
  else of the subset, and a new workload carries the replicas asked for and the name, namespace
  and region label the controllers look it up by.
\<close>

locale adapter_contract =
  fixes A :: adapter and kind :: "workload \<Rightarrow> bool"
  assumes new_kind: "kind (NewResourceObject A)"
    and details: "kind w \<Longrightarrow> \<exists>s'. GetReplicaDetails A w s = ret s' \<and>
           object_meta.truncate s' = object_meta.truncate s \<and> StatusReady s' = StatusReady s"
    and set_replicas: "kind w \<Longrightarrow> \<exists>w'. SetReplicas A w n = ret w' \<and> kind w' \<and> meta_of w' = meta_of w \<and>
           GetReplicaDetails A w' s =
             bind_io (GetReplicaDetails A w s) (\<lambda>s'. ret (s'\<lparr>SpecReplicas := n\<rparr>))"
    and set_strategy: "kind w \<Longrightarrow> UpdateStrategy (Strategy (Spec cd)) = Some us \<Longrightarrow>
           \<exists>w'. SetUpdateStrategy A w cd = ret w' \<and> kind w' \<and> meta_of w' = meta_of w"
    and apply_template:
      "kind w \<Longrightarrow> ApplySubsetTemplate A cd dr t n w h = (Ok (cd', w'), h') \<Longrightarrow>
         h' = h \<and> kind w' \<and> Spec cd' = Spec cd \<and> Namespace (meta_of w') = Namespace cd \<and>
         (\<exists>r. dr = Some r \<and> mget (Labels (meta_of w')) RegionLabel = Some (Name r)) \<and>
         (\<forall>s s' g g'. GetReplicaDetails A w' s g = (Ok s', g') \<longrightarrow> SpecReplicas s' = n)"
begin

lemma convert_total:
  assumes "kind w"
  shows "\<exists>s. convertToSubset A w = ret s \<and> object_meta.truncate s = meta_of w \<and>
           StatusReady s = 0 \<and> SubsetRef s = w"
proof -
  obtain s where s: "GetReplicaDetails A w (subset_of_meta (meta_of w)) = ret s"
    "object_meta.truncate s = object_meta.truncate (subset_of_meta (meta_of w))"
    "StatusReady s = StatusReady (subset_of_meta (meta_of w))"
    using details [OF assms] by blast
  then show ?thesis
    by (cases "meta_of w")
      (auto simp: convertToSubset_def subset_of_meta_def zero_subset_def object_meta.defs)
qed

lemma convert_ready:
  "kind w \<Longrightarrow> convertToSubset A w h = (Ok s, h') \<Longrightarrow> StatusReady s = 0"
  using convert_total [of w] by (metis ret_eq_Ok)

lemma convert_set_replicas:
  assumes "kind w" and "convertToSubset A w = ret s"
  shows "\<exists>w'. SetReplicas A w n = ret w' \<and> kind w' \<and>
           convertToSubset A w' = ret (s\<lparr>SpecReplicas := n, SubsetRef := w'\<rparr>)"
proof -
  obtain w' where w': "SetReplicas A w n = ret w'" "kind w'" "meta_of w' = meta_of w"
    "GetReplicaDetails A w' (subset_of_meta (meta_of w)) =
       bind_io (GetReplicaDetails A w (subset_of_meta (meta_of w))) (\<lambda>s'. ret (s'\<lparr>SpecReplicas := n\<rparr>))"
    using set_replicas [OF assms(1)] by blast
  obtain d where d: "GetReplicaDetails A w (subset_of_meta (meta_of w)) = ret d"
    using details [OF assms(1)] by blast
  from assms(2) d have "s = d\<lparr>SubsetRef := w\<rparr>"
    by (metis bind_ret convertToSubset_def ret_eq_Ok)
  with w' d have "convertToSubset A w' = ret (s\<lparr>SpecReplicas := n, SubsetRef := w'\<rparr>)"
    by (simp add: convertToSubset_def)
  with w' show ?thesis by blast
qed

lemma convert_applied:
  assumes "ApplySubsetTemplate A cd dr t n (NewResourceObject A) h = (Ok (cd', w), h')"
  shows "\<exists>s. convertToSubset A w = ret s \<and> SpecReplicas s = n"
proof -
  from apply_template [OF new_kind assms] have k: "kind w"
    and n: "\<And>s s' g g'. GetReplicaDetails A w s g = (Ok s', g') \<Longrightarrow> SpecReplicas s' = n" by blast+
  obtain d where d: "GetReplicaDetails A w (subset_of_meta (meta_of w)) = ret d"
    using details [OF k] by blast
  with n have "SpecReplicas d = n" by (metis ret_eq_Ok)
  with d show ?thesis by (auto simp: convertToSubset_def)
qed

end

lemmas adapter_defs = InplaceSetAdapter_def DeploymentAdapter_def ReplicaSetAdapter_def
  InplaceSet_GetReplicaDetails_def InplaceSet_SetReplicas_def InplaceSet_SetUpdateStrategy_def
  Deployment_GetReplicaDetails_def Deployment_SetReplicas_def Deployment_SetUpdateStrategy_def
  ReplicaSet_GetReplicaDetails_def ReplicaSet_SetReplicas_def ReplicaSet_SetUpdateStrategy_def
  native_details_def meta_of_def object_meta.defs

lemmas adapter_apply_defs = InplaceSet_ApplySubsetTemplate_def Deployment_ApplySubsetTemplate_def
  ReplicaSet_ApplySubsetTemplate_def nextNameHash_def SetNewReplicaSetAnnotations_def
  CloneAndAddLabel_def RegionLabel_def replicas_or_0_def

lemma kindE:
  "is_kind InPlaceSetSubsetType w \<Longrightarrow> \<exists>s. w = WInplaceSet s"
  "is_kind DeploymentSubsetType w \<Longrightarrow> \<exists>s. w = WDeployment s"
  "is_kind ReplicaSetSubsetType w \<Longrightarrow> \<exists>s. w = WReplicaSet s"
  by (cases w; simp)+

interpretation ips_adapter: adapter_contract "InplaceSetAdapter X" "is_kind InPlaceSetSubsetType"
  by unfold_locales
    (auto simp: adapter_defs adapter_apply_defs dest!: kindE elim!: bind_OkE split: option.splits)

interpretation dep_adapter: adapter_contract "DeploymentAdapter X" "is_kind DeploymentSubsetType"
  by unfold_locales
    (auto simp: adapter_defs adapter_apply_defs dest!: kindE elim!: bind_OkE split: option.splits)

interpretation rs_adapter: adapter_contract "ReplicaSetAdapter X" "is_kind ReplicaSetSubsetType"
  by unfold_locales
    (auto simp: adapter_defs adapter_apply_defs dest!: kindE elim!: bind_OkE split: option.splits)

text \<open>Every registered adapter keeps the contract for the workloads of its subset type.\<close>

lemma registered_adapter: "subSetControls X t = Some A \<Longrightarrow> adapter_contract A (is_kind t)"
  using ips_adapter.adapter_contract_axioms dep_adapter.adapter_contract_axioms
    rs_adapter.adapter_contract_axioms
  by (auto simp: subSetControls_def split: subset_type.splits)

text \<open>
  Writing a replica count through the adapter of any subset type and reading the workload
  back as a subset gives that count, and nothing else of the subset changes.
\<close>

theorem replicas_round_trip:
  assumes "subSetControls X t = Some A" and "is_kind t w" and "convertToSubset A w = ret s"
  shows "\<exists>w'. SetReplicas A w n = ret w' \<and> is_kind t w' \<and>
           convertToSubset A w' = ret (s\<lparr>SpecReplicas := n, SubsetRef := w'\<rparr>)"
  by (rule adapter_contract.convert_set_replicas [OF registered_adapter [OF assms(1)] assms(2,3)])

theorem replicas_round_trip_witness:
  "\<exists>w'. SetReplicas (DeploymentAdapter sample_ext) (WDeployment zero_native_set) 3 = ret w' \<and>
     is_kind DeploymentSubsetType w' \<and>
     convertToSubset (DeploymentAdapter sample_ext) w' =
       ret (zero_subset\<lparr>SubsetRef := WDeployment zero_native_set, SpecReplicas := 3, SubsetRef := w'\<rparr>)"
  by (rule replicas_round_trip [of sample_ext])
    (simp_all add: subSetControls_def convertToSubset_def adapter_defs subset_of_meta_def zero_values
      replicas_or_0_def)

text \<open>
  No adapter copies the ready replicas of a workload: the subset of any workload reports 0
  ready replicas, whatever the workload's status says.
\<close>

theorem ready_replicas_never_read:
  assumes "subSetControls X t = Some A" and "is_kind t w" and "convertToSubset A w h = (Ok s, h')"
  shows "StatusReady s = 0"
  by (rule adapter_contract.convert_ready [OF registered_adapter [OF assms(1)] assms(2,3)])

theorem ready_replicas_never_read_witness:
  "convertToSubset (InplaceSetAdapter sample_ext)
     (WInplaceSet (zero_inplace_set\<lparr>IStatus := zero_ips_status\<lparr>ISReady := 5\<rparr>\<rparr>)) [] =
     (Ok (zero_subset\<lparr>SubsetRef :=
        WInplaceSet (zero_inplace_set\<lparr>IStatus := zero_ips_status\<lparr>ISReady := 5\<rparr>\<rparr>)\<rparr>), []) \<and>
   StatusReady (zero_subset\<lparr>SubsetRef :=
     WInplaceSet (zero_inplace_set\<lparr>IStatus := zero_ips_status\<lparr>ISReady := 5\<rparr>\<rparr>)\<rparr>) = 0"
proof -
  let ?w = "WInplaceSet (zero_inplace_set\<lparr>IStatus := zero_ips_status\<lparr>ISReady := 5\<rparr>\<rparr>)"
  have "convertToSubset (InplaceSetAdapter sample_ext) ?w [] = (Ok (zero_subset\<lparr>SubsetRef := ?w\<rparr>), [])"
    by (simp add: convertToSubset_def adapter_defs subset_of_meta_def zero_values replicas_or_0_def)
  with ready_replicas_never_read [of sample_ext InPlaceSetSubsetType _ ?w, OF _ _ this]
  show ?thesis by (simp add: subSetControls_def)
qed

end
