(* ===== verification/RefManager.thy ===== *)
theory RefManager
  imports Adapter
begin

text \<open>
  \<open>pkg/utils/refmanager\<close>: which of the listed workloads an ExtendedDeployment owns. Orphans
  that match the selector are adopted, owned workloads that stopped matching are released. The
  owner is always an ExtendedDeployment and the scheme is never nil, so the conversions of
  \<open>getOwner\<close> cannot fail and it is a read of the owner.
\<close>

section \<open>Definitions\<close>

definition GetControllerOf :: "'a object_meta_scheme \<Rightarrow> owner_ref option" where
  "GetControllerOf m = find IsController (OwnerReferences m)"

definition NewControllerRef :: "extended_deployment \<Rightarrow> owner_ref" where
  "NewControllerRef cd = \<lparr>OwnerKind = ''ExtendedDeployment'', OwnerName = Name cd,
     OwnerUID = UID cd, IsController = True\<rparr>"

text \<open>\<open>canAdoptErr\<close> is \<open>None\<close> until \<open>once\<close> has run.\<close>

record ref_manager =
  mgr_selector :: selector
  mgr_owner :: extended_deployment
  canAdoptErr :: "err option option"

definition New_ref_manager ::
    "ext \<Rightarrow> label_selector option \<Rightarrow> extended_deployment \<Rightarrow> err + ref_manager" where
  "New_ref_manager X sel owner = (case LabelSelectorAsSelector X sel of
     Inl e \<Rightarrow> Inl e
   | Inr s \<Rightarrow> Inr \<lparr>mgr_selector = s, mgr_owner = owner, canAdoptErr = None\<rparr>)"

definition getOwner :: "server \<Rightarrow> extended_deployment \<Rightarrow> extended_deployment action" where
  "getOwner S owner =
     (let k = (Namespace owner, Name owner) in call (GetED k) (\<lambda>h. ansGetED S h k))"

definition updateOwner :: "server \<Rightarrow> workload \<Rightarrow> workload action" where
  "updateOwner S w = call (UpdateSet w) (\<lambda>h. ansUpdateSet S h w)"

definition canAdopt :: "server \<Rightarrow> extended_deployment \<Rightarrow> unit action" where
  "canAdopt S owner =
     bind_io (getOwner S owner) (\<lambda>fresh.
     if UID fresh \<noteq> UID owner then fail (Msg ''original owner is gone'')
     else if DeletionTimestamp fresh \<noteq> None then fail (Msg ''owner has just been deleted'')
     else ret ())"

definition canAdoptOnce :: "server \<Rightarrow> ref_manager \<Rightarrow> (err option \<times> ref_manager) action" where
  "canAdoptOnce S mgr = (case canAdoptErr mgr of
     Some r \<Rightarrow> ret (r, mgr)
   | None \<Rightarrow> bind_io (attempt (canAdopt S (mgr_owner mgr))) (\<lambda>r.
       (let e = (case r of Inl e \<Rightarrow> Some e | Inr _ \<Rightarrow> None)
        in ret (e, mgr\<lparr>canAdoptErr := Some e\<rparr>))))"

text \<open>
  The errors of \<open>adopt\<close> and \<open>release\<close> are new messages that only quote the cause, so a
  caller cannot recognise \<open>NotFound\<close> in them.
\<close>

definition adopt :: "server \<Rightarrow> ext \<Rightarrow> ref_manager \<Rightarrow> workload \<Rightarrow> ((err + workload) \<times> ref_manager) action" where
  "adopt S X mgr obj =
     bind_io (canAdoptOnce S mgr) (\<lambda>(e, mgr).
     if e \<noteq> None then ret (Inl (Msg ''can't adopt Object''), mgr)
     else (case SetControllerReference X (NewControllerRef (mgr_owner mgr)) (meta_of obj) of
        Inl _ \<Rightarrow> ret (Inl (Msg ''can't set Object owner reference''), mgr)
      | Inr m \<Rightarrow>
          (let obj = set_meta (\<lambda>_. m) obj
           in bind_io (attempt (updateOwner S obj)) (\<lambda>r.
              (case r of
                 Inl _ \<Rightarrow> ret (Inl (Msg ''can't update Object owner reference''), mgr)
               | Inr _ \<Rightarrow> ret (Inr obj, mgr))))))"

fun drop_owner :: "string \<Rightarrow> owner_ref list \<Rightarrow> owner_ref list" where
  "drop_owner uid [] = []"
| "drop_owner uid (r # rs) = (if OwnerUID r = uid then rs else r # drop_owner uid rs)"

definition release :: "server \<Rightarrow> ref_manager \<Rightarrow> workload \<Rightarrow> (err + unit) action" where
  "release S mgr obj =
     (let uid = UID (mgr_owner mgr); refs = OwnerReferences (meta_of obj)
      in if list_ex (\<lambda>r. OwnerUID r = uid) refs
         then bind_io (attempt (updateOwner S
                (set_meta (\<lambda>m. m\<lparr>OwnerReferences := drop_owner uid refs\<rparr>) obj))) (\<lambda>r.
              (case r of
                 Inl _ \<Rightarrow> ret (Inl (Msg ''can't remove Pod owner reference''))
               | Inr _ \<Rightarrow> ret (Inr ())))
         else ret (Inr ()))"

text \<open>The object, when it is claimed; adoption changes it.\<close>

definition claimObject :: "server \<Rightarrow> ext \<Rightarrow> ref_manager \<Rightarrow> workload \<Rightarrow>
    ((err + workload option) \<times> ref_manager) action" where
  "claimObject S X mgr obj =
     (let isMatch = SelMatches (mgr_selector mgr) (Labels (meta_of obj)); owner = mgr_owner mgr
      in case GetControllerOf (meta_of obj) of
        Some controllerRef \<Rightarrow>
          (if OwnerUID controllerRef \<noteq> UID owner then ret (Inr None, mgr)
           else if isMatch then ret (Inr (Some obj), mgr)
           else if DeletionTimestamp owner \<noteq> None then ret (Inr None, mgr)
           else bind_io (release S mgr obj) (\<lambda>r.
             (case r of
                Inl NotFound \<Rightarrow> ret (Inr None, mgr)
              | Inl e \<Rightarrow> ret (Inl e, mgr)
              | Inr _ \<Rightarrow> ret (Inr None, mgr))))
      | None \<Rightarrow>
          (if DeletionTimestamp owner \<noteq> None \<or> \<not> isMatch then ret (Inr None, mgr)
           else if DeletionTimestamp (meta_of obj) \<noteq> None then ret (Inr None, mgr)
           else bind_io (adopt S X mgr obj) (\<lambda>(r, mgr).
             (case r of
                Inl NotFound \<Rightarrow> ret (Inr None, mgr)
              | Inl e \<Rightarrow> ret (Inl e, mgr)
              | Inr obj \<Rightarrow> ret (Inr (Some obj), mgr)))))"

definition claimStep :: "server \<Rightarrow> ext \<Rightarrow> workload \<Rightarrow> workload list \<times> err list \<times> ref_manager \<Rightarrow>
    (workload list \<times> err list \<times> ref_manager) action" where
  "claimStep S X obj st = (case st of (claimObjs, errlist, mgr) \<Rightarrow>
     bind_io (claimObject S X mgr obj) (\<lambda>(r, mgr).
     (case r of
        Inl e \<Rightarrow> ret (claimObjs, errlist @ [e], mgr)
      | Inr (Some o') \<Rightarrow> ret (claimObjs @ [o'], errlist, mgr)
      | Inr None \<Rightarrow> ret (claimObjs, errlist, mgr))))"

definition ClaimOwnedObjects :: "server \<Rightarrow> ext \<Rightarrow> ref_manager \<Rightarrow> workload list \<Rightarrow> workload list action" where
  "ClaimOwnedObjects S X mgr objs =
     bind_io (for_io (claimStep S X) objs ([], [], mgr)) (\<lambda>(claimObjs, errlist, _).
     if errlist \<noteq> [] then fail (Aggregate errlist) else ret claimObjs)"

section \<open>What claiming may write\<close>

text \<open>
  A write of the ref manager: the adoption of an orphan that matches and is not being deleted, or
  the release of an own object that stopped matching; neither once the owner is being deleted.
\<close>

definition adoption_of :: "ext \<Rightarrow> selector \<Rightarrow> extended_deployment \<Rightarrow> workload \<Rightarrow> workload \<Rightarrow> bool" where
  "adoption_of X sel owner obj w \<longleftrightarrow>
     GetControllerOf (meta_of obj) = None \<and> SelMatches sel (Labels (meta_of obj)) \<and>
     DeletionTimestamp (meta_of obj) = None \<and>
     (\<exists>m. SetControllerReference X (NewControllerRef owner) (meta_of obj) = Inr m \<and>
        w = set_meta (\<lambda>_. m) obj)"

definition release_of :: "selector \<Rightarrow> extended_deployment \<Rightarrow> workload \<Rightarrow> workload \<Rightarrow> bool" where
  "release_of sel owner obj w \<longleftrightarrow>
     (\<exists>r. GetControllerOf (meta_of obj) = Some r \<and> OwnerUID r = UID owner) \<and>
     \<not> SelMatches sel (Labels (meta_of obj)) \<and>
     w = set_meta (\<lambda>m. m\<lparr>OwnerReferences :=
           drop_owner (UID owner) (OwnerReferences (meta_of obj))\<rparr>) obj"

definition claim_request ::
    "ext \<Rightarrow> selector \<Rightarrow> extended_deployment \<Rightarrow> workload list \<Rightarrow> req \<Rightarrow> bool" where
  "claim_request X sel owner objs q \<longleftrightarrow>
     (q = GetED (Namespace owner, Name owner) \<or>
      DeletionTimestamp owner = None \<and>
        (\<exists>obj \<in> set objs. \<exists>w. q = UpdateSet w \<and>
           (adoption_of X sel owner obj w \<or> release_of sel owner obj w)))"

lemma emits_canAdopt: "P (GetED (Namespace owner, Name owner)) \<Longrightarrow> emits P (canAdopt S owner)"
  by (auto simp: canAdopt_def getOwner_def Let_def intro!: emits_intros)

lemma canAdoptOnce_mgr:
  "canAdoptOnce S mgr h = (Ok (e, mgr'), h') \<Longrightarrow>
     mgr_selector mgr' = mgr_selector mgr \<and> mgr_owner mgr' = mgr_owner mgr"
  by (auto simp: canAdoptOnce_def Let_def elim!: bind_OkE split: option.splits)

text \<open>The selector and the owner of the manager never change.\<close>

lemma claimObject_mgr:
  assumes "claimObject S X mgr obj h = (Ok (r, mgr'), h')"
  shows "mgr_selector mgr' = mgr_selector mgr \<and> mgr_owner mgr' = mgr_owner mgr"
  using assms
  by (auto simp: claimObject_def adopt_def Let_def elim!: bind_OkE dest!: canAdoptOnce_mgr
      split: option.splits if_splits sum.splits err.splits)

lemma emits_claimObject:
  assumes "obj \<in> set objs" and "mgr_selector mgr = sel" and "mgr_owner mgr = owner"
  shows "emits (claim_request X sel owner objs) (claimObject S X mgr obj)"
proof (rule emitsI)
  fix h
  note defs = claimObject_def adopt_def release_def canAdoptOnce_def canAdopt_def getOwner_def
    updateOwner_def Let_def io_defs
  show "\<exists>l. snd (claimObject S X mgr obj h) = h @ l \<and> list_all (claim_request X sel owner objs) l"
    using assms
    by (auto simp: defs claim_request_def adoption_of_def release_of_def
        split: option.splits sum.splits err.splits if_splits prod.splits res.splits)
qed

lemma claimStep_mgr:
  "claimStep S X obj (cs, es, mgr) h = (Ok (cs', es', mgr'), h') \<Longrightarrow>
     mgr_selector mgr' = mgr_selector mgr \<and> mgr_owner mgr' = mgr_owner mgr"
  by (auto simp: claimStep_def elim!: bind_OkE dest!: claimObject_mgr
      split: sum.splits option.splits)

lemma emits_ClaimOwnedObjects:
  "emits (claim_request X (mgr_selector mgr) (mgr_owner mgr) objs) (ClaimOwnedObjects S X mgr objs)"
proof -
  let ?I = "\<lambda>(_ :: workload list, _ :: err list, m :: ref_manager).
    mgr_selector m = mgr_selector mgr \<and> mgr_owner m = mgr_owner mgr"
  have "emits (claim_request X (mgr_selector mgr) (mgr_owner mgr) objs)
      (for_io (claimStep S X) objs ([], [], mgr))"
  proof (rule emits_for_inv [where I = ?I])
    fix obj st assume "obj \<in> set objs" and "?I st"
    then show "emits (claim_request X (mgr_selector mgr) (mgr_owner mgr) objs) (claimStep S X obj st)"
      by (auto simp: claimStep_def intro!: emits_intros emits_claimObject split: option.split)
  next
    fix obj st h t h' assume "?I st" and "claimStep S X obj st h = (Ok t, h')"
    then show "?I t" by (auto dest!: claimStep_mgr)
  qed simp
  then show ?thesis
    by (auto simp: ClaimOwnedObjects_def intro!: emits_intros)
qed

text \<open>
  C38: claiming only ever writes the adoption of a matching orphan that is not being deleted, or
  the release of an own workload that stopped matching, and writes nothing once the owner is being
  deleted; workloads of another controller are never touched. This holds for every answer of the
  API server.
\<close>

theorem claim_writes_only_own_objects:
  "emits (claim_request X (mgr_selector mgr) (mgr_owner mgr) objs) (ClaimOwnedObjects S X mgr objs)"
  by (rule emits_ClaimOwnedObjects)

section \<open>What claiming returns\<close>

definition claimed_from :: "ext \<Rightarrow> selector \<Rightarrow> extended_deployment \<Rightarrow> workload list \<Rightarrow> workload \<Rightarrow> bool" where
  "claimed_from X sel owner objs w \<longleftrightarrow>
     (w \<in> set objs \<and> SelMatches sel (Labels (meta_of w)) \<and>
        (\<exists>r. GetControllerOf (meta_of w) = Some r \<and> OwnerUID r = UID owner)) \<or>
     (\<exists>obj \<in> set objs. adoption_of X sel owner obj w)"

lemma claimObject_claimed:
  assumes "claimObject S X mgr obj h = (Ok (Inr (Some w), mgr'), h')" and "obj \<in> set objs"
  shows "claimed_from X (mgr_selector mgr) (mgr_owner mgr) objs w"
  using assms canAdoptOnce_mgr
  by (fastforce simp: claimObject_def adopt_def Let_def claimed_from_def adoption_of_def
      elim!: bind_OkE split: option.splits if_splits sum.splits err.splits)

text \<open>
  Every workload that claiming returns either was owned and matches the selector, or is a
  matching orphan that has just been adopted.
\<close>

theorem claimed_objects_owned:
  assumes "ClaimOwnedObjects S X mgr objs h = (Ok ws, h')" and "w \<in> set ws"
  shows "claimed_from X (mgr_selector mgr) (mgr_owner mgr) objs w"
proof -
  from assms(1) obtain es m h1 where
    loop: "for_io (claimStep S X) objs ([], [], mgr) h = (Ok (ws, es, m), h1)"
    by (auto simp: ClaimOwnedObjects_def elim!: bind_OkE split: if_splits)
  let ?I = "\<lambda>(cs, _ :: err list, m :: ref_manager) (_ :: req list).
    list_all (claimed_from X (mgr_selector mgr) (mgr_owner mgr) objs) cs \<and>
    mgr_selector m = mgr_selector mgr \<and> mgr_owner m = mgr_owner mgr"
  have "?I (ws, es, m) h1"
  proof (rule for_io_inv [OF loop, where I = ?I])
    fix obj st h t h' assume "obj \<in> set objs" and "?I st h" and "claimStep S X obj st h = (Ok t, h')"
    moreover obtain cs es' m' where "st = (cs, es', m')" by (cases st) auto
    ultimately show "?I t h'"
      by (auto simp: claimStep_def elim!: bind_OkE dest: claimObject_mgr claimObject_claimed
          split: sum.splits option.splits) (metis claimObject_claimed)+
  qed simp
  with assms(2) show ?thesis by (simp add: list_all_iff)
qed

definition own_set :: workload where
  "own_set = WReplicaSet (zero_native_set\<lparr>OwnerReferences := [\<lparr>OwnerKind = ''ExtendedDeployment'',
     OwnerName = ''app'', OwnerUID = ''u1'', IsController = True\<rparr>]\<rparr>)"

definition sample_manager :: "(string gomap \<Rightarrow> bool) \<Rightarrow> ref_manager" where
  "sample_manager f = \<lparr>mgr_selector = \<lparr>SelMatches = f, SelString = ''app''\<rparr>,
     mgr_owner = zero_ED\<lparr>Name := ''app'', UID := ''u1''\<rparr>, canAdoptErr = None\<rparr>"

theorem claimed_objects_owned_witness:
  "ClaimOwnedObjects sample_server sample_ext (sample_manager (\<lambda>_. True)) [own_set] [] = (Ok [own_set], []) \<and>
   claimed_from sample_ext (mgr_selector (sample_manager (\<lambda>_. True)))
     (mgr_owner (sample_manager (\<lambda>_. True))) [own_set] own_set"
proof -
  have "ClaimOwnedObjects sample_server sample_ext (sample_manager (\<lambda>_. True)) [own_set] [] = (Ok [own_set], [])"
    by (simp add: ClaimOwnedObjects_def claimStep_def claimObject_def own_set_def sample_manager_def
        GetControllerOf_def meta_of_def object_meta.defs zero_values)
  with claimed_objects_owned [OF this] show ?thesis by simp
qed

text \<open>
  When a workload to be released has vanished in the meantime, the answer \<open>NotFound\<close> of the
  API server is hidden in a new message, so the object is reported as an error and not skipped, as
  the comment in \<open>claimObject\<close> intends.
\<close>

theorem vanished_release_is_an_error:
  assumes "GetControllerOf (meta_of obj) = Some r" and "OwnerUID r = UID (mgr_owner mgr)"
    and "\<not> SelMatches (mgr_selector mgr) (Labels (meta_of obj))"
    and "DeletionTimestamp (mgr_owner mgr) = None" and "\<And>w. ansUpdateSet S h w = Inl NotFound"
  shows "\<exists>h'. claimObject S X mgr obj h =
     (Ok (Inl (Msg ''can't remove Pod owner reference''), mgr), h')"
proof -
  from assms(1) have "r \<in> set (OwnerReferences (meta_of obj))"
    by (auto simp: GetControllerOf_def find_Some_iff)
  with assms show ?thesis
    by (auto simp: claimObject_def release_def updateOwner_def io_defs Let_def list_ex_iff)
qed

theorem vanished_release_is_an_error_witness:
  "\<exists>h'. claimObject (sample_server\<lparr>ansUpdateSet := \<lambda>_ _. Inl NotFound\<rparr>) sample_ext
     (sample_manager (\<lambda>_. False)) own_set [] =
     (Ok (Inl (Msg ''can't remove Pod owner reference''), sample_manager (\<lambda>_. False)), h')"
  by (rule vanished_release_is_an_error [where r = "\<lparr>OwnerKind = ''ExtendedDeployment'',
        OwnerName = ''app'', OwnerUID = ''u1'', IsController = True\<rparr>"])
    (simp_all add: own_set_def sample_manager_def GetControllerOf_def meta_of_def object_meta.defs zero_values)

end
