(* ===== verification/Scaling.thy ===== *)
theory Scaling
  imports Adapter
begin

text \<open>
  The arithmetic of a rollout: the step of a batch (\<open>calculateStepSize\<close>), the counters of
  \<open>controller_util.go\<close>, and the surge and unavailability budgets of \<open>rolling.go\<close> with the
  \<open>intstr\<close> helpers they call. A percentage is scaled in \<open>float64\<close> in the code; here the
  ceiling of the exact quotient is taken, which is the same number as long as the product stays
  below \<open>2 ^ 53\<close>.
\<close>

section \<open>Definitions\<close>

definition BetaStepSize :: int where
  "BetaStepSize = 1"

definition getSubsetRegionName :: "subset \<Rightarrow> string" where
  "getSubsetRegionName ss = mget_str (Annotations ss) IpsAnnotationRegionName"

definition sum32 :: "('a \<Rightarrow> int) \<Rightarrow> 'a list \<Rightarrow> int" where
  "sum32 f xs = fold (\<lambda>x acc. i32 (acc + f x)) xs 0"

definition getActualReplicaCountForSubets :: "subset list \<Rightarrow> int" where
  "getActualReplicaCountForSubets ISs = sum32 StatusReplicas ISs"

definition getReadyReplicaCountForSubsets :: "subset list \<Rightarrow> int" where
  "getReadyReplicaCountForSubsets ISs = sum32 StatusReady ISs"

definition getAvailableReplicaCountForSubsets :: "subset list \<Rightarrow> int" where
  "getAvailableReplicaCountForSubsets ISs = sum32 StatusAvailable ISs"

definition getReplicaCountForSubsets :: "subset list \<Rightarrow> int" where
  "getReplicaCountForSubsets ISs = sum32 SpecReplicas ISs"

definition calculateStepSize :: "extended_deployment \<Rightarrow> int \<Rightarrow> int \<Rightarrow> int" where
  "calculateStepSize cd desiredReplicas replicas =
     (let batch = BatchSize (Strategy (Spec cd));
          stepSize = (case RolloutStrategy (Strategy (Spec cd)) of
             GroupRolloutStrategyType \<Rightarrow> batch
           | BetaRolloutStrategyType \<Rightarrow> (if replicas = 0 then BetaStepSize else batch)
           | OtherRolloutStrategy _ \<Rightarrow> 0);
          diff = i32 (desiredReplicas - replicas);
          factor = (if diff < 0 then -1 else 1);
          diff = (if diff < 0 then i32 (- diff) else diff);
          stepSize = Int32Min stepSize diff
      in if stepSize = 0 then 0 else i32 (stepSize * factor))"

definition ceil_percent :: "int \<Rightarrow> int \<Rightarrow> int" where
  "ceil_percent v tot = - ((- (v * tot)) div 100)"

definition getIntOrPercentValue :: "int_or_string \<Rightarrow> err + int \<times> bool" where
  "getIntOrPercentValue v = (case v of
     IntVal n \<Rightarrow> Inr (n, False)
   | StrVal str \<Rightarrow> (case ParseInt_sum (filter (\<lambda>c. c \<noteq> CHR ''%'') str) 64 of
        Inl e \<Rightarrow> Inl (Msg ''invalid value'') | Inr n \<Rightarrow> Inr (n, True)))"

text \<open>\<open>GetValueFromIntOrPercent\<close>, always called with rounding up.\<close>

definition GetValueFromIntOrPercent :: "int_or_string option \<Rightarrow> int \<Rightarrow> err + int" where
  "GetValueFromIntOrPercent v tot = (case v of
     None \<Rightarrow> Inl (Msg ''nil value for IntOrString'')
   | Some v \<Rightarrow> (case getIntOrPercentValue v of
        Inl e \<Rightarrow> Inl (Msg ''invalid value for IntOrString'')
      | Inr (value, isPercent) \<Rightarrow> Inr (if isPercent then ceil_percent value tot else value)))"

definition ValueOrDefault :: "int_or_string option \<Rightarrow> int_or_string \<Rightarrow> int_or_string option" where
  "ValueOrDefault v d = (case v of None \<Rightarrow> Some d | Some x \<Rightarrow> Some x)"

definition ResolveFenceposts ::
    "int_or_string option \<Rightarrow> int_or_string option \<Rightarrow> int \<Rightarrow> err + int \<times> int" where
  "ResolveFenceposts maxSurge maxUnavailable desired =
     (case GetValueFromIntOrPercent (ValueOrDefault maxSurge (IntVal 0)) desired of
        Inl e \<Rightarrow> Inl e
      | Inr surge \<Rightarrow>
          (case GetValueFromIntOrPercent (ValueOrDefault maxUnavailable (IntVal 0)) desired of
             Inl e \<Rightarrow> Inl e
           | Inr unavailable \<Rightarrow>
               (let unavailable = (if surge = 0 \<and> unavailable = 0 then 1 else unavailable)
                in Inr (i32 surge, i32 unavailable))))"

definition GetReplicasCount :: "subset list \<Rightarrow> int" where
  "GetReplicasCount allRSs = sum32 SpecReplicas allRSs"

text \<open>The rolling update parameters; both pointers are dereferenced.\<close>

definition rollingParams :: "extended_deployment \<Rightarrow> rolling_update action" where
  "rollingParams cd =
     bind_io (deref (UpdateStrategy (Strategy (Spec cd)))) (\<lambda>us. deref (RollingUpdate us))"

definition NewRSNewReplicas ::
    "extended_deployment \<Rightarrow> subset list \<Rightarrow> subset \<Rightarrow> region_info \<Rightarrow> int action" where
  "NewRSNewReplicas cd allRSs newRS region =
     bind_io (rollingParams cd) (\<lambda>ru.
     bind_io (of_sum (GetValueFromIntOrPercent (MaxSurgeVal ru) (DesiredReplicas region))) (\<lambda>maxSurge.
     let currentPodCount = GetReplicasCount allRSs;
         maxTotalPods = i32 (DesiredReplicas region + i32 maxSurge)
     in if currentPodCount \<ge> maxTotalPods then ret (SpecReplicas newRS)
        else
          (let scaleUpCount = min (i32 (maxTotalPods - currentPodCount))
                 (i32 (DesiredReplicas region - SpecReplicas newRS))
           in ret (i32 (SpecReplicas newRS + scaleUpCount)))))"

definition MaxUnavailable :: "extended_deployment \<Rightarrow> region_info \<Rightarrow> int action" where
  "MaxUnavailable cd region =
     (if DesiredReplicas region = 0 then ret 0
      else bind_io (rollingParams cd) (\<lambda>ru.
        (case ResolveFenceposts (MaxSurgeVal ru) (MaxUnavailableVal ru) (DesiredReplicas region) of
           Inl _ \<Rightarrow> ret 0
         | Inr (_, maxUnavailable) \<Rightarrow> ret maxUnavailable)))"

section \<open>Sums of int32 counters\<close>

lemma i32_i32 [simp]: "i32 (i32 x) = i32 x"
  by (rule i32_id) simp

lemma i32_add_i32: "i32 (i32 x + y) = i32 (x + y)"
  unfolding i32_def by (simp add: algebra_simps mod_simps)

lemma fold_i32: "fold (\<lambda>x acc. i32 (acc + f x)) xs (i32 a) = i32 (a + sum_list (map f xs))"
proof (induction xs arbitrary: a)
  case (Cons x xs)
  show ?case using Cons.IH [of "a + f x"] by (simp add: i32_add_i32 add.assoc)
qed simp

lemma sum32_eq: "sum32 f xs = i32 (sum_list (map f xs))"
  using fold_i32 [of f xs 0] by (simp add: sum32_def)

text \<open>
  Adding the replica counts of subsets in \<open>int32\<close> arithmetic, wrap-around at every step
  included, gives the true sum whenever the true sum fits in an \<open>int32\<close>.
\<close>

theorem GetReplicasCount_exact:
  assumes "is_i32 (sum_list (map SpecReplicas xs))"
  shows "GetReplicasCount xs = sum_list (map SpecReplicas xs)"
  using assms by (simp add: GetReplicasCount_def sum32_eq i32_id)

theorem GetReplicasCount_exact_witness:
  "GetReplicasCount [zero_subset\<lparr>SpecReplicas := 3\<rparr>, zero_subset\<lparr>SpecReplicas := 4\<rparr>] =
     sum_list (map SpecReplicas [zero_subset\<lparr>SpecReplicas := 3\<rparr>, zero_subset\<lparr>SpecReplicas := 4\<rparr>])"
  by (rule GetReplicasCount_exact) (simp add: is_i32_def)

section \<open>The step of a batch\<close>

definition known_rollout :: "extended_deployment \<Rightarrow> bool" where
  "known_rollout cd \<longleftrightarrow> RolloutStrategy (Strategy (Spec cd)) = GroupRolloutStrategyType \<or>
     RolloutStrategy (Strategy (Spec cd)) = BetaRolloutStrategyType"

abbreviation replica_count :: "int \<Rightarrow> bool" where
  "replica_count n \<equiv> 0 \<le> n \<and> n < 2147483648"

lemma calculateStepSize_eq:
  assumes "replica_count d" and "replica_count r" and "known_rollout cd"
    and "b = BatchSize (Strategy (Spec cd))" and "0 < b"
  shows "\<exists>k. 0 < k \<and> k \<le> max 1 b \<and> calculateStepSize cd d r = sgn (d - r) * min k \<bar>d - r\<bar>"
proof -
  let ?k = "if RolloutStrategy (Strategy (Spec cd)) = BetaRolloutStrategyType \<and> r = 0 then 1 else b"
  have diff: "i32 (d - r) = d - r" "i32 (r - d) = r - d"
    using assms by (auto intro!: i32_idI)
  have "calculateStepSize cd d r = sgn (d - r) * min ?k \<bar>d - r\<bar>"
  proof (cases "d < r")
    case True
    then have "i32 (- min ?k (r - d)) = - min ?k (r - d)"
      using assms by (intro i32_idI) (auto simp: min_def)
    with True assms(3,4,5) diff show ?thesis
      by (auto simp: calculateStepSize_def Let_def known_rollout_def BetaStepSize_def)
  next
    case False
    then have "i32 (min ?k (d - r)) = min ?k (d - r)"
      using assms by (intro i32_idI) (auto simp: min_def)
    with False assms(3,4,5) diff show ?thesis
      by (cases "d = r") (auto simp: calculateStepSize_def Let_def known_rollout_def BetaStepSize_def)
  qed
  with assms(5) show ?thesis by (intro exI [of _ ?k]) auto
qed

lemma calculateStepSize_progress:
  assumes "replica_count d" and "replica_count r" and "known_rollout cd"
    and "0 < BatchSize (Strategy (Spec cd))" and "r \<noteq> d"
  shows "\<bar>d - (r + calculateStepSize cd d r)\<bar> < \<bar>d - r\<bar>"
    and "replica_count (r + calculateStepSize cd d r)"
proof -
  from calculateStepSize_eq [OF assms(1-3) refl assms(4)] obtain k where k: "0 < k"
    "calculateStepSize cd d r = sgn (d - r) * min k \<bar>d - r\<bar>" by blast
  then show "\<bar>d - (r + calculateStepSize cd d r)\<bar> < \<bar>d - r\<bar>"
    using assms(5) by (cases "d < r") (auto simp: min_def)
  show "replica_count (r + calculateStepSize cd d r)"
    using k assms(1,2) by (cases "d < r"; cases "d = r") (auto simp: min_def)
qed

text \<open>
  A step never overshoots: with a positive batch size the next replica count lies between
  the current and the desired one, and differs from the current one by at most the batch size (one
  replica for the first step of a beta rollout).
\<close>

theorem step_never_overshoots:
  assumes "replica_count d" and "replica_count r" and "known_rollout cd"
    and "0 < BatchSize (Strategy (Spec cd))"
  shows "min r d \<le> r + calculateStepSize cd d r \<and> r + calculateStepSize cd d r \<le> max r d \<and>
     \<bar>calculateStepSize cd d r\<bar> \<le> BatchSize (Strategy (Spec cd))"
proof -
  from calculateStepSize_eq [OF assms(1-3) refl assms(4)] obtain k where k: "0 < k"
    "k \<le> max 1 (BatchSize (Strategy (Spec cd)))"
    "calculateStepSize cd d r = sgn (d - r) * min k \<bar>d - r\<bar>" by blast
  then show ?thesis
    using assms(4) by (cases "d < r"; cases "d = r") (auto simp: min_def max_def)
qed

definition beta_of_three :: extended_deployment where
  "beta_of_three = zero_ED\<lparr>Spec := zero_ed_spec\<lparr>Strategy :=
     zero_strategy\<lparr>BatchSize := 3, RolloutStrategy := BetaRolloutStrategyType\<rparr>\<rparr>\<rparr>"

lemma beta_of_three_fields [simp]:
  "known_rollout beta_of_three" "BatchSize (Strategy (Spec beta_of_three)) = 3"
  by (simp_all add: beta_of_three_def known_rollout_def zero_values)

theorem step_never_overshoots_witness:
  "min 1 10 \<le> 1 + calculateStepSize beta_of_three 10 1 \<and>
   1 + calculateStepSize beta_of_three 10 1 \<le> max 1 10 \<and>
   \<bar>calculateStepSize beta_of_three 10 1\<bar> \<le> BatchSize (Strategy (Spec beta_of_three))"
  by (rule step_never_overshoots) simp_all

text \<open>
  The rollout of a region ends: from any replica count, scaling by one step after another
  reaches the desired replicas after at most as many steps as there are replicas to add or remove,
  and stays there.
\<close>

theorem stepping_reaches_desired:
  assumes "replica_count d" and "replica_count r" and "known_rollout cd"
    and "0 < BatchSize (Strategy (Spec cd))" and "nat \<bar>d - r\<bar> \<le> n"
  shows "((\<lambda>r. r + calculateStepSize cd d r) ^^ n) r = d"
  using assms
proof (induction n arbitrary: r)
  case 0
  then show ?case by simp
next
  case (Suc n)
  let ?r' = "r + calculateStepSize cd d r"
  have "replica_count ?r' \<and> nat \<bar>d - ?r'\<bar> \<le> n"
  proof (cases "r = d")
    case True
    then have "calculateStepSize cd d r = 0"
      using Suc.prems(4) by (simp add: calculateStepSize_def Let_def BetaStepSize_def min_def
          split: rollout_strategy.splits)
    with True Suc.prems show ?thesis by simp
  next
    case False
    then show ?thesis
      using calculateStepSize_progress [OF Suc.prems(1,2,3,4)] Suc.prems(5) by linarith
  qed
  with Suc.IH Suc.prems show ?case
    by (simp add: funpow_Suc_right del: funpow.simps)
qed

theorem stepping_reaches_desired_witness:
  "((\<lambda>r. r + calculateStepSize beta_of_three 10 r) ^^ 10) 0 = 10"
  by (rule stepping_reaches_desired) simp_all

section \<open>Budgets of a rolling update\<close>

text \<open>
  The two budgets of a rolling update are never both zero, so a rolling update can always
  take a step: when both resolve to zero one replica may be unavailable.
\<close>

theorem fenceposts_not_both_zero:
  assumes "ResolveFenceposts maxSurge maxUnavailable desired = Inr (s, u)"
    and "\<And>v x. v \<in> {maxSurge, maxUnavailable} \<Longrightarrow>
           GetValueFromIntOrPercent (ValueOrDefault v (IntVal 0)) desired = Inr x \<Longrightarrow> is_i32 x"
  shows "s \<noteq> 0 \<or> u \<noteq> 0"
proof -
  from assms(1) obtain surge unavailable where
    v: "GetValueFromIntOrPercent (ValueOrDefault maxSurge (IntVal 0)) desired = Inr surge"
      "GetValueFromIntOrPercent (ValueOrDefault maxUnavailable (IntVal 0)) desired = Inr unavailable"
    and su: "s = i32 surge" "u = i32 (if surge = 0 \<and> unavailable = 0 then 1 else unavailable)"
    by (auto simp: ResolveFenceposts_def Let_def split: sum.splits)
  from v assms(2) have "i32 surge = surge" "i32 unavailable = unavailable"
    by (auto intro!: i32_id)
  with su show ?thesis by (auto simp: i32_def)
qed

theorem fenceposts_not_both_zero_witness:
  "ResolveFenceposts (Some (IntVal 0)) None 10 = Inr (0, 1) \<and> ((0 :: int) \<noteq> 0 \<or> (1 :: int) \<noteq> 0)"
proof -
  have r: "ResolveFenceposts (Some (IntVal 0)) None 10 = Inr (0, 1)"
    by (simp add: ResolveFenceposts_def GetValueFromIntOrPercent_def ValueOrDefault_def
        getIntOrPercentValue_def i32_def)
  from fenceposts_not_both_zero [OF r] r show ?thesis
    by (auto simp: GetValueFromIntOrPercent_def ValueOrDefault_def getIntOrPercentValue_def is_i32_def)
qed

lemma NewRSNewReplicas_OkE:
  assumes "NewRSNewReplicas cd allRSs newRS region h = (Ok n, h')"
  obtains ru us maxSurge where "UpdateStrategy (Strategy (Spec cd)) = Some us"
    "RollingUpdate us = Some ru"
    "GetValueFromIntOrPercent (MaxSurgeVal ru) (DesiredReplicas region) = Inr maxSurge" "h' = h"
    "n = (if GetReplicasCount allRSs \<ge> i32 (DesiredReplicas region + i32 maxSurge) then SpecReplicas newRS
          else i32 (SpecReplicas newRS +
             min (i32 (i32 (DesiredReplicas region + i32 maxSurge) - GetReplicasCount allRSs))
               (i32 (DesiredReplicas region - SpecReplicas newRS))))"
  using assms
  by (auto simp: NewRSNewReplicas_def rollingParams_def Let_def elim!: bind_OkE split: if_splits)

text \<open>
  C16: scaling up the new subset of a rolling update keeps both limits: it never takes the new
  subset past the desired replicas and never lets the region run more than the desired replicas
  plus the surge (unless there already were more), and it never shrinks the new subset.
\<close>

theorem rolling_surge_bound:
  assumes "NewRSNewReplicas cd allRSs newRS region h = (Ok n, h')"
    and "UpdateStrategy (Strategy (Spec cd)) = Some us" and "RollingUpdate us = Some ru"
    and "GetValueFromIntOrPercent (MaxSurgeVal ru) (DesiredReplicas region) = Inr surge"
    and "0 \<le> surge" and "0 \<le> DesiredReplicas region" and "DesiredReplicas region + surge < 2147483648"
    and "0 \<le> SpecReplicas newRS" and "SpecReplicas newRS \<le> DesiredReplicas region"
    and "allRSs = olds @ [newRS]" and "\<forall>s \<in> set olds. 0 \<le> SpecReplicas s"
    and "sum_list (map SpecReplicas allRSs) < 2147483648"
  shows "SpecReplicas newRS \<le> n \<and> n \<le> DesiredReplicas region \<and>
     sum_list (map SpecReplicas olds) + n \<le>
       max (sum_list (map SpecReplicas allRSs)) (DesiredReplicas region + surge)"
proof -
  have olds: "0 \<le> sum_list (map SpecReplicas olds)"
    using assms(11) by (intro sum_list_nonneg) auto
  have total: "sum_list (map SpecReplicas allRSs) = sum_list (map SpecReplicas olds) + SpecReplicas newRS"
    using assms(10) by simp
  then have count: "GetReplicasCount allRSs = sum_list (map SpecReplicas allRSs)"
    using olds assms(8,12) by (simp add: GetReplicasCount_def sum32_eq i32_idI)
  have w: "i32 surge = surge" "i32 (DesiredReplicas region + surge) = DesiredReplicas region + surge"
    "i32 (DesiredReplicas region + surge - GetReplicasCount allRSs) =
       DesiredReplicas region + surge - GetReplicasCount allRSs"
    "i32 (DesiredReplicas region - SpecReplicas newRS) = DesiredReplicas region - SpecReplicas newRS"
    using assms(5-9,12) olds total count by (auto intro!: i32_idI)
  from assms(1) have n: "n = (if GetReplicasCount allRSs \<ge> DesiredReplicas region + surge
      then SpecReplicas newRS
      else i32 (SpecReplicas newRS + min (DesiredReplicas region + surge - GetReplicasCount allRSs)
               (DesiredReplicas region - SpecReplicas newRS)))"
    using assms(2-4) w by (elim NewRSNewReplicas_OkE) (simp add: w)
  show ?thesis
  proof (cases "GetReplicasCount allRSs \<ge> DesiredReplicas region + surge")
    case True
    with n assms(9) total show ?thesis by simp
  next
    case False
    let ?up = "min (DesiredReplicas region + surge - GetReplicasCount allRSs)
                 (DesiredReplicas region - SpecReplicas newRS)"
    have up: "0 \<le> ?up" "?up \<le> DesiredReplicas region - SpecReplicas newRS"
      "?up \<le> DesiredReplicas region + surge - GetReplicasCount allRSs"
      using False assms(9) by auto
    then have "i32 (SpecReplicas newRS + ?up) = SpecReplicas newRS + ?up"
      using assms(5-9) by (intro i32_idI) auto
    with n False have "n = SpecReplicas newRS + ?up" by simp
    with up total count show ?thesis by linarith
  qed
qed

text \<open>A sample region: ten replicas desired, surge of three, no unavailable replicas.\<close>

definition surge_three :: extended_deployment where
  "surge_three = zero_ED\<lparr>Spec := zero_ed_spec\<lparr>Strategy := zero_strategy\<lparr>UpdateStrategy :=
     Some \<lparr>UpdateType = RollingUpdateStrategyType, GracePeriodSeconds = 0,
       RollingUpdate = Some \<lparr>MaxUnavailableVal = Some (IntVal 0), MaxSurgeVal = Some (IntVal 3)\<rparr>\<rparr>\<rparr>\<rparr>\<rparr>"

lemma surge_three_params [simp]:
  "UpdateStrategy (Strategy (Spec surge_three)) =
     Some \<lparr>UpdateType = RollingUpdateStrategyType, GracePeriodSeconds = 0,
       RollingUpdate = Some \<lparr>MaxUnavailableVal = Some (IntVal 0), MaxSurgeVal = Some (IntVal 3)\<rparr>\<rparr>"
  by (simp add: surge_three_def zero_values)

definition old_ten :: subset where
  "old_ten = zero_subset\<lparr>Name := ''old'', SpecReplicas := 10, StatusReplicas := 10, StatusAvailable := 10\<rparr>"

lemma old_ten_fields [simp]: "SpecReplicas old_ten = 10" "StatusAvailable old_ten = 10"
  by (simp_all add: old_ten_def zero_values)

lemma zero_subset_replicas [simp]: "SpecReplicas zero_subset = 0"
  by (simp add: zero_values)

theorem rolling_surge_bound_witness:
  "NewRSNewReplicas surge_three ([old_ten] @ [zero_subset]) zero_subset
     (zero_region_info\<lparr>DesiredReplicas := 10\<rparr>) [] = (Ok 3, []) \<and>
   SpecReplicas zero_subset \<le> 3 \<and> 3 \<le> DesiredReplicas (zero_region_info\<lparr>DesiredReplicas := 10\<rparr>) \<and>
   sum_list (map SpecReplicas [old_ten]) + 3 \<le>
     max (sum_list (map SpecReplicas ([old_ten] @ [zero_subset])))
       (DesiredReplicas (zero_region_info\<lparr>DesiredReplicas := 10\<rparr>) + 3)"
proof -
  have n: "NewRSNewReplicas surge_three ([old_ten] @ [zero_subset]) zero_subset
     (zero_region_info\<lparr>DesiredReplicas := 10\<rparr>) [] = (Ok 3, [])"
    by (simp add: NewRSNewReplicas_def rollingParams_def GetValueFromIntOrPercent_def
        getIntOrPercentValue_def GetReplicasCount_def sum32_eq i32_def)
  moreover have "GetValueFromIntOrPercent (Some (IntVal 3)) 10 = Inr 3"
    by (simp add: GetValueFromIntOrPercent_def getIntOrPercentValue_def)
  ultimately show ?thesis
    using rolling_surge_bound [OF n surge_three_params, of _ 3 "[old_ten]"] by simp
qed

end
