(* ===== verification/Replicas.thy ===== *)
theory Replicas
  imports ApiTypes Complex_Main
begin

text \<open>
  How many replicas a region gets: \<open>ParseRegionReplicas\<close> of
  \<open>extendeddeployment/controller_util.go\<close>, and the admission webhook that decides which
  numbers may be asked for (\<open>webhook/v1beta1\<close>). The products and quotients of
  \<open>float64\<close> values are taken over the rationals: a product of an \<open>int32\<close> and a
  percentage is exact in a \<open>float64\<close>, and the rounding error of its quotient by 100 (below
  \<open>2 ^ -20\<close>) is far smaller than the distance of a multiple of \<open>1/100\<close> to the next
  half-integer it is not equal to, so the floor is the same.
\<close>

section \<open>ParseRegionReplicas\<close>

definition round_go :: "rat \<Rightarrow> int" where
  "round_go x = \<lfloor>x + 1 / 2\<rfloor>"

definition ParseRegionReplicas :: "int \<Rightarrow> int_or_string \<Rightarrow> err + int" where
  "ParseRegionReplicas totalReplicas regionReplicas = (case regionReplicas of
     IntVal n \<Rightarrow>
       (if n < 0 then Inl (Msg ''region replicas should not be less than 0'') else Inr n)
   | StrVal strVal \<Rightarrow>
       (if totalReplicas < 0
        then Inl (Msg ''region replicas should not be string when replicas is empty'')
        else if \<not> HasSuffix strVal ''%''
        then Inl (Msg ''region replicas only support integer value or percentage value'')
        else (case ParseInt_sum (take (length strVal - 1) strVal) 32 of
           Inl e \<Rightarrow> Inl (Msg ''region replicas should be correct percentage integer'')
         | Inr percent64 \<Rightarrow>
             (if percent64 > 100 \<or> percent64 < 0
              then Inl (Msg ''region replicas should be in range [0, 100]'')
              else Inr (i32 (round_go (of_int totalReplicas * of_int percent64 / 100)))))))"

section \<open>The admission webhook\<close>

definition is_IntVal :: "int_or_string \<Rightarrow> bool" where
  "is_IntVal v = (case v of IntVal _ \<Rightarrow> True | StrVal _ \<Rightarrow> False)"

definition is_int_region :: "region \<Rightarrow> bool" where
  "is_int_region r = (case RegionReplicas r of None \<Rightarrow> False | Some v \<Rightarrow> is_IntVal v)"

definition is_str_region :: "region \<Rightarrow> bool" where
  "is_str_region r = (case RegionReplicas r of None \<Rightarrow> False | Some v \<Rightarrow> \<not> is_IntVal v)"

text \<open>The type of the first region is read without a nil check.\<close>

definition isRegionReplicasTypeConsistent :: "region list \<Rightarrow> bool res" where
  "isRegionReplicasTypeConsistent regions = (case regions of
     [] \<Rightarrow> Ok True
   | r0 # _ \<Rightarrow> (case RegionReplicas r0 of
        None \<Rightarrow> Panic (Msg ''nil pointer dereference'')
      | Some v0 \<Rightarrow> Ok (list_all (\<lambda>r. case RegionReplicas r of
            None \<Rightarrow> True | Some v \<Rightarrow> is_IntVal v = is_IntVal v0) regions)))"

fun sumPercent :: "region list \<Rightarrow> int \<Rightarrow> err + int" where
  "sumPercent [] totalNum = Inr totalNum"
| "sumPercent (r # rs) totalNum = (case RegionReplicas r of
     Some (StrVal s) \<Rightarrow>
       (if \<not> HasSuffix s ''%''
        then Inl (Msg ''region replicas only support percentage value'')
        else (case ParseInt_sum (take (length s - 1) s) 32 of
           Inl e \<Rightarrow> Inl (Msg ''region replicas should be correct percentage integer'')
         | Inr percent64 \<Rightarrow>
             (if percent64 > 100 \<or> percent64 < 0
              then Inl (Msg ''region replicas should be in range [0, 100]'')
              else sumPercent rs (totalNum + percent64))))
   | _ \<Rightarrow> sumPercent rs totalNum)"

definition compareReplicas :: "extended_deployment \<Rightarrow> err list res" where
  "compareReplicas ed =
     (if (case Replicas (Spec ed) of None \<Rightarrow> False | Some n \<Rightarrow> n > 0)
      then (case find is_int_region (Regions (Spec ed)) of
         Some r \<Rightarrow> (case isRegionReplicasTypeConsistent (Regions (Spec ed)) of
            Ok True \<Rightarrow> Ok []
          | Ok False \<Rightarrow> Ok [Msg ''can not support int replicas for regions'']
          | Err e \<Rightarrow> Err e
          | Panic e \<Rightarrow> Panic e)
       | None \<Rightarrow> (case sumPercent (Regions (Spec ed)) 0 of
            Inl e \<Rightarrow> Ok [e]
          | Inr totalNum \<Rightarrow>
              (if totalNum \<noteq> 100 then Ok [Msg ''region replicas sum up should be 100''] else Ok [])))
      else (case find is_str_region (Regions (Spec ed)) of
         Some r \<Rightarrow> Ok [Msg ''region replicas is not valid'']
       | None \<Rightarrow> Ok []))"

definition compareLabelSelector :: "label_selector option \<Rightarrow> label_selector option \<Rightarrow> err list" where
  "compareLabelSelector new old =
     (if new \<noteq> old then [Msg ''spec.selector: field is immutable''] else [])"

definition compareSubSetType :: "subset_type \<Rightarrow> subset_type \<Rightarrow> err list" where
  "compareSubSetType new old =
     (if new \<noteq> old then [Msg ''spec.subsetType: field is immutable''] else [])"

definition compareForExtendedDeployment ::
    "extended_deployment \<Rightarrow> extended_deployment \<Rightarrow> err list res" where
  "compareForExtendedDeployment new old = (case compareReplicas new of
     Ok es \<Rightarrow> Ok (compareLabelSelector (Selector (Spec new)) (Selector (Spec old)) @
                compareSubSetType (SubsetType (Spec new)) (SubsetType (Spec old)) @ es)
   | Err e \<Rightarrow> Err e
   | Panic e \<Rightarrow> Panic e)"

text \<open>
  \<open>validatePodTemplate\<close>: the restart policy is checked here, the rest of the template by the
  API machinery (\<open>validation.ValidatePodTemplateSpec\<close>), a parameter.
\<close>

definition validatePodTemplate :: "(pod_template \<Rightarrow> err list) \<Rightarrow> pod_template \<Rightarrow> err list" where
  "validatePodTemplate ValidatePodTemplateSpec template =
     (if RestartPolicy (TemplateSpec template) \<noteq> '''' \<and>
         RestartPolicy (TemplateSpec template) \<noteq> ''Always''
      then [Msg ''extendeddeployment pod.spec.restartPolicy need Always or null'']
      else ValidatePodTemplateSpec template)"

definition validateForExtendedDeployment ::
    "(pod_template \<Rightarrow> err list) \<Rightarrow> extended_deployment \<Rightarrow> err list" where
  "validateForExtendedDeployment vpt obj = validatePodTemplate vpt (Template (Spec obj))"

definition validateForInPlaceSet :: "(pod_template \<Rightarrow> err list) \<Rightarrow> inplace_set \<Rightarrow> err list" where
  "validateForInPlaceSet vpt obj = validatePodTemplate vpt (ITemplate obj)"

text \<open>The answers of the webhook: admitted (\<open>Ok\<close>), refused (\<open>Err\<close>) or a panic.\<close>

definition ValidateCreate :: "(pod_template \<Rightarrow> err list) \<Rightarrow> extended_deployment \<Rightarrow> unit res" where
  "ValidateCreate vpt ed =
     (let errs = validateForExtendedDeployment vpt ed
      in if errs \<noteq> [] then Err (Aggregate errs)
         else (case compareReplicas ed of
            Ok es \<Rightarrow> (if es \<noteq> [] then Err (Aggregate es) else Ok ())
          | Err e \<Rightarrow> Err e
          | Panic e \<Rightarrow> Panic e))"

definition ValidateUpdate :: "extended_deployment \<Rightarrow> extended_deployment \<Rightarrow> unit res" where
  "ValidateUpdate oldObj newObj = (case compareForExtendedDeployment newObj oldObj of
     Ok es \<Rightarrow> (if es \<noteq> [] then Err (Aggregate es) else Ok ())
   | Err e \<Rightarrow> Err e
   | Panic e \<Rightarrow> Panic e)"

definition ValidateCreateIPS :: "(pod_template \<Rightarrow> err list) \<Rightarrow> inplace_set \<Rightarrow> unit res" where
  "ValidateCreateIPS vpt ips =
     (let errs = validateForInPlaceSet vpt ips
      in if errs \<noteq> [] then Err (Aggregate errs) else Ok ())"

text \<open>A sample: one replica shared by two regions at 50% each.\<close>

definition two_halves :: extended_deployment where
  "two_halves = zero_ED\<lparr>Spec := zero_ed_spec\<lparr>Replicas := Some 1, Regions :=
     [\<lparr>RegionName = ''r1'', RegionReplicas = Some (StrVal ''50%'')\<rparr>,
      \<lparr>RegionName = ''r2'', RegionReplicas = Some (StrVal ''50%'')\<rparr>]\<rparr>\<rparr>"

section \<open>Rounding\<close>

lemma round_go_percent: "round_go (of_int n * of_int p / 100) = (n * p + 50) div 100"
proof -
  have "(of_int n * of_int p / 100 + 1 / 2 :: rat) = of_int (n * p + 50) / of_int 100"
    by (simp add: field_simps)
  then show ?thesis
    unfolding round_go_def by (simp only: floor_divide_of_int_eq)
qed

lemma percent_bounds:
  fixes n p :: int
  assumes "0 \<le> n" and "0 \<le> p" and "p \<le> 100"
  shows "0 \<le> (n * p + 50) div 100" and "(n * p + 50) div 100 \<le> n"
    and "\<bar>100 * ((n * p + 50) div 100) - n * p\<bar> \<le> 50"
proof -
  have np: "0 \<le> n * p" "n * p \<le> n * 100"
    using assms by (simp_all add: mult_left_mono)
  then show "0 \<le> (n * p + 50) div 100" by simp
  show "(n * p + 50) div 100 \<le> n" using np by linarith
  show "\<bar>100 * ((n * p + 50) div 100) - n * p\<bar> \<le> 50" by linarith
qed

text \<open>What a percentage that parses stands for.\<close>

lemma ParseRegionReplicas_percent:
  assumes "0 \<le> n" and "is_i32 n" and "HasSuffix s ''%''"
    and "ParseInt_sum (take (length s - 1) s) 32 = Inr p" and "0 \<le> p" and "p \<le> 100"
  shows "ParseRegionReplicas n (StrVal s) = Inr ((n * p + 50) div 100)"
proof -
  have "is_i32 ((n * p + 50) div 100)"
    using percent_bounds [of n p] assms by (auto simp: is_i32_def)
  then show ?thesis
    using assms by (simp add: ParseRegionReplicas_def round_go_percent i32_id)
qed

lemma ParseRegionReplicas_StrE:
  assumes "ParseRegionReplicas n (StrVal s) = Inr r" and "is_i32 n"
  obtains p where "HasSuffix s ''%''" "ParseInt_sum (take (length s - 1) s) 32 = Inr p"
    "0 \<le> p" "p \<le> 100" "0 \<le> n" "r = (n * p + 50) div 100"
proof -
  from assms(1) obtain p where p: "HasSuffix s ''%''" "0 \<le> n"
    "ParseInt_sum (take (length s - 1) s) 32 = Inr p" "0 \<le> p" "p \<le> 100"
    by (auto simp: ParseRegionReplicas_def not_less split: if_splits sum.splits)
  with assms ParseRegionReplicas_percent [of n s p] have "r = (n * p + 50) div 100" by simp
  with p that show ?thesis by blast
qed

text \<open>
  A percentage that parses gives a replica count between 0 and the total, and the count is
  the percentage of the total rounded to the nearest integer (off by at most one half).
\<close>

theorem region_percentage_is_nearest:
  assumes "ParseRegionReplicas n (StrVal s) = Inr r" and "is_i32 n"
  shows "\<exists>p. ParseInt_sum (take (length s - 1) s) 32 = Inr p \<and> 0 \<le> p \<and> p \<le> 100 \<and>
           0 \<le> r \<and> r \<le> n \<and> \<bar>100 * r - n * p\<bar> \<le> 50"
  using assms by (elim ParseRegionReplicas_StrE) (use percent_bounds in auto)

theorem region_percentage_is_nearest_witness:
  "ParseRegionReplicas 7 (StrVal ''30%'') = Inr 2 \<and>
   (\<exists>p. ParseInt_sum (take (length ''30%'' - 1) ''30%'') 32 = Inr p \<and> 0 \<le> p \<and> p \<le> 100 \<and>
     0 \<le> (2 :: int) \<and> (2 :: int) \<le> 7 \<and> \<bar>100 * 2 - 7 * p\<bar> \<le> 50)"
proof -
  have p: "ParseInt_sum (take (length ''30%'' - 1) ''30%'') 32 = Inr 30"
    by (simp add: ParseInt_sum_def ParseInt_def digit_val_def)
  have r: "ParseRegionReplicas 7 (StrVal ''30%'') = Inr 2"
    using ParseRegionReplicas_percent [of 7 "''30%''" 30] p by (simp add: HasSuffix_def is_i32_def)
  from region_percentage_is_nearest [OF r] r show ?thesis by (simp add: is_i32_def)
qed

section \<open>What the webhook guarantees\<close>

lemma sumPercent_nearest:
  assumes "sumPercent rs acc = Inr t" and "0 \<le> n" and "is_i32 n"
    and "\<forall>r \<in> set rs. \<exists>s. RegionReplicas r = Some (StrVal s)"
  shows "\<exists>ks. map (\<lambda>r. ParseRegionReplicas n (the (RegionReplicas r))) rs = map Inr ks \<and>
           list_all (\<lambda>k. 0 \<le> k \<and> k \<le> n) ks \<and>
           \<bar>100 * sum_list ks - n * (t - acc)\<bar> \<le> 50 * int (length rs)"
  using assms
proof (induction rs arbitrary: acc)
  case Nil
  then show ?case by simp
next
  case (Cons r rs)
  from Cons.prems(4) obtain s where s: "RegionReplicas r = Some (StrVal s)" by auto
  with Cons.prems(1) obtain p where p: "HasSuffix s ''%''"
    "ParseInt_sum (take (length s - 1) s) 32 = Inr p" "0 \<le> p" "p \<le> 100"
    "sumPercent rs (acc + p) = Inr t"
    by (auto simp: not_less split: if_splits sum.splits)
  from Cons.IH [OF p(5)] Cons.prems obtain ks where ks:
    "map (\<lambda>r. ParseRegionReplicas n (the (RegionReplicas r))) rs = map Inr ks"
    "list_all (\<lambda>k. 0 \<le> k \<and> k \<le> n) ks"
    "\<bar>100 * sum_list ks - n * (t - (acc + p))\<bar> \<le> 50 * int (length rs)"
    by auto
  let ?k = "(n * p + 50) div 100"
  have k: "0 \<le> ?k" "?k \<le> n" "\<bar>100 * ?k - n * p\<bar> \<le> 50"
    using percent_bounds Cons.prems(2) p by auto
  have "100 * sum_list (?k # ks) - n * (t - acc) =
      (100 * ?k - n * p) + (100 * sum_list ks - n * (t - (acc + p)))"
    by (simp add: algebra_simps)
  then have "\<bar>100 * sum_list (?k # ks) - n * (t - acc)\<bar> \<le> 50 * int (length (r # rs))"
    using k(3) ks(3) by simp
  with k ks ParseRegionReplicas_percent [OF Cons.prems(2,3) p(1-4)] s show ?case
    by (intro exI [of _ "?k # ks"]) simp
qed

lemma sumPercent_member:
  assumes "sumPercent rs acc = Inr t" and "r \<in> set rs" and "RegionReplicas r = Some (StrVal s)"
  shows "\<exists>p. HasSuffix s ''%'' \<and> ParseInt_sum (take (length s - 1) s) 32 = Inr p \<and>
           0 \<le> p \<and> p \<le> 100"
  using assms
  by (induction rs acc rule: sumPercent.induct)
    (auto simp: not_less split: if_splits sum.splits option.splits int_or_string.splits)

lemma compareReplicas_percent:
  assumes "compareReplicas ed = Ok []" and "Replicas (Spec ed) = Some n" and "0 < n"
    and "\<forall>r \<in> set (Regions (Spec ed)). \<exists>s. RegionReplicas r = Some (StrVal s)"
  shows "sumPercent (Regions (Spec ed)) 0 = Inr 100"
proof -
  have "find is_int_region (Regions (Spec ed)) = None"
    using assms(4) by (auto simp: find_None_iff is_int_region_def is_IntVal_def)
  with assms show ?thesis
    by (auto simp: compareReplicas_def split: sum.splits if_splits)
qed

text \<open>
  For a spec the webhook admits, with a positive total and percentage regions, every region
  parses and the replica counts of its \<open>k\<close> regions add up to the total give or take
  \<open>k / 2\<close>: rounding each region on its own may create or lose replicas, but no more.
\<close>

theorem admitted_percentages_total:
  assumes "compareReplicas ed = Ok []" and "Replicas (Spec ed) = Some n" and "0 < n" and "is_i32 n"
    and "\<forall>r \<in> set (Regions (Spec ed)). \<exists>s. RegionReplicas r = Some (StrVal s)"
  shows "\<exists>ks. map (\<lambda>r. ParseRegionReplicas n (the (RegionReplicas r))) (Regions (Spec ed)) = map Inr ks
           \<and> list_all (\<lambda>k. 0 \<le> k \<and> k \<le> n) ks
           \<and> 2 * \<bar>sum_list ks - n\<bar> \<le> int (length (Regions (Spec ed)))"
proof -
  have "sumPercent (Regions (Spec ed)) 0 = Inr 100"
    using compareReplicas_percent assms by blast
  from sumPercent_nearest [OF this _ assms(4,5)] assms(3) obtain ks where ks:
    "map (\<lambda>r. ParseRegionReplicas n (the (RegionReplicas r))) (Regions (Spec ed)) = map Inr ks"
    "list_all (\<lambda>k. 0 \<le> k \<and> k \<le> n) ks"
    "\<bar>100 * sum_list ks - n * (100 - 0)\<bar> \<le> 50 * int (length (Regions (Spec ed)))" by auto
  have "100 * sum_list ks - n * (100 - 0) = 100 * (sum_list ks - n)" by simp
  with ks(3) have "100 * \<bar>sum_list ks - n\<bar> \<le> 50 * int (length (Regions (Spec ed)))"
    by (simp only: abs_mult abs_numeral)
  then have "2 * \<bar>sum_list ks - n\<bar> \<le> int (length (Regions (Spec ed)))" by linarith
  with ks show ?thesis by blast
qed

lemma parse_50: "ParseInt_sum (take (length ''50%'' - 1) ''50%'') 32 = Inr 50"
  by (simp add: ParseInt_sum_def ParseInt_def digit_val_def)

lemma two_halves_fields [simp]:
  "Replicas (Spec two_halves) = Some 1"
  "Regions (Spec two_halves) = [\<lparr>RegionName = ''r1'', RegionReplicas = Some (StrVal ''50%'')\<rparr>,
      \<lparr>RegionName = ''r2'', RegionReplicas = Some (StrVal ''50%'')\<rparr>]"
  by (simp_all add: two_halves_def zero_values)

lemma two_halves_admitted: "compareReplicas two_halves = Ok []"
  using parse_50
  by (simp add: compareReplicas_def is_int_region_def is_IntVal_def HasSuffix_def)

lemma half_of_one: "ParseRegionReplicas 1 (StrVal ''50%'') = Inr 1"
  using ParseRegionReplicas_percent [of 1 "''50%''" 50] parse_50
  by (simp add: HasSuffix_def is_i32_def)

theorem admitted_percentages_total_witness:
  "compareReplicas two_halves = Ok [] \<and>
   (\<exists>ks. map (\<lambda>r. ParseRegionReplicas 1 (the (RegionReplicas r))) (Regions (Spec two_halves))
            = map Inr ks
       \<and> list_all (\<lambda>k. 0 \<le> k \<and> k \<le> 1) ks
       \<and> 2 * \<bar>sum_list ks - 1\<bar> \<le> int (length (Regions (Spec two_halves))))"
  using admitted_percentages_total [OF two_halves_admitted, of 1] two_halves_admitted
  by (simp add: is_i32_def)

text \<open>
  That slack is real. One replica over two regions of 50% each passes the webhook, and each
  region is given one replica: two replicas run where one was asked for.
\<close>

theorem rounding_creates_replica:
  "ValidateCreate (\<lambda>_. []) two_halves = Ok () \<and> Replicas (Spec two_halves) = Some 1 \<and>
   map (\<lambda>r. ParseRegionReplicas 1 (the (RegionReplicas r))) (Regions (Spec two_halves))
     = [Inr 1, Inr 1]"
  using two_halves_admitted half_of_one
  by (simp add: ValidateCreate_def validateForExtendedDeployment_def validatePodTemplate_def
      two_halves_def zero_values)

text \<open>
  With a positive total, every region of an admitted spec whose replicas are a string or a
  non-negative integer parses, to a non-negative count (the webhook refuses a string beside an
  integer, and a string that is no percentage).
\<close>

theorem admitted_regions_parse:
  assumes ok: "compareReplicas ed = Ok []" and "Replicas (Spec ed) = Some n" and "0 < n" and "is_i32 n"
    and "r \<in> set (Regions (Spec ed))" and "RegionReplicas r = Some v" and "\<forall>i. v = IntVal i \<longrightarrow> 0 \<le> i"
  shows "\<exists>k. ParseRegionReplicas n v = Inr k \<and> 0 \<le> k"
proof (cases v)
  case (IntVal i)
  with assms(7) show ?thesis by (simp add: ParseRegionReplicas_def)
next
  case (StrVal s)
  have "find is_int_region (Regions (Spec ed)) = None"
  proof (rule ccontr)
    assume "find is_int_region (Regions (Spec ed)) \<noteq> None"
    then obtain x where x: "find is_int_region (Regions (Spec ed)) = Some x" by blast
    then have mem: "x \<in> set (Regions (Spec ed))" "is_int_region x"
      by (auto simp: find_Some_iff)
    from ok assms(2,3) x have "isRegionReplicasTypeConsistent (Regions (Spec ed)) = Ok True"
      by (auto simp: compareReplicas_def split: res.splits bool.splits)
    with mem assms(5,6) StrVal show False
      by (auto simp: isRegionReplicasTypeConsistent_def list_all_iff is_int_region_def is_IntVal_def
          split: list.splits option.splits int_or_string.splits)
  qed
  with ok assms(2,3) obtain t where "sumPercent (Regions (Spec ed)) 0 = Inr t"
    by (auto simp: compareReplicas_def split: sum.splits)
  from sumPercent_member [OF this assms(5)] assms(6) StrVal obtain p where
    p: "HasSuffix s ''%''" "ParseInt_sum (take (length s - 1) s) 32 = Inr p" "0 \<le> p" "p \<le> 100"
    by blast
  with ParseRegionReplicas_percent [of n s p] percent_bounds(1) [of n p] assms(3,4) StrVal
  show ?thesis by simp
qed

theorem admitted_regions_parse_witness:
  "\<exists>k. ParseRegionReplicas 1 (StrVal ''50%'') = Inr k \<and> 0 \<le> k"
proof (rule admitted_regions_parse [OF two_halves_admitted])
  show "\<lparr>RegionName = ''r1'', RegionReplicas = Some (StrVal ''50%'')\<rparr> \<in> set (Regions (Spec two_halves))"
    by simp
qed (simp_all add: is_i32_def)

end

