(* ===== verification/SubsetControl.thy ===== *)
theory SubsetControl
  imports RefManager Scaling Replicas
begin

text \<open>
  \<open>extendeddeployment/subset_control.go\<close> and \<open>rolling.go\<close>: grouping the workloads of an
  ExtendedDeployment by region, creating, scaling and deleting them, and one rollout step for each
  update strategy. The \<open>SubsetControl\<close> struct is the record \<open>subset_control\<close>, passed along
  and returned changed; the objects behind its pointers are the values in it. A function that
  changes the ExtendedDeployment (its collision count) returns it too. The key used for log lines
  and the log lines themselves are left out, except where evaluating their arguments matters.
\<close>

section \<open>State\<close>

record ctl =
  Srv :: server
  Ext :: ext
  Adp :: adapter
  DisableInplaceUpdate :: bool

record subset_control =
  regionInfoMap :: "region_info gomap"
  autoScheduleSpec :: "AutoScheduleSpec option"
  allSubsets :: "subset list"
  unusedSubsets :: "subset list"

definition updateRetries :: nat where
  "updateRetries = 5"

definition objectKey :: "'a object_meta_scheme \<Rightarrow> nskey" where
  "objectKey m = (Namespace m, Name m)"

definition put_region :: "string \<Rightarrow> region_info \<Rightarrow> subset_control \<Rightarrow> subset_control" where
  "put_region n ri m = m\<lparr>regionInfoMap := mset_key n ri (regionInfoMap m)\<rparr>"

section \<open>Requests for workloads\<close>

definition getSet :: "ctl \<Rightarrow> nskey \<Rightarrow> workload action" where
  "getSet C k = call (GetSet k) (\<lambda>h. ansGetSet (Srv C) h k)"

definition updateSet :: "ctl \<Rightarrow> workload \<Rightarrow> workload action" where
  "updateSet C w = call (UpdateSet w) (\<lambda>h. ansUpdateSet (Srv C) h w)"

text \<open>
  The loop that \<open>UpdateSubsetAnnotations\<close>, \<open>ScaleSubset\<close> and \<open>updateSubSetStrategy\<close> share:
  read the workload, change it, write it back, again after a failed write, \<open>n\<close> times in all.
\<close>

fun updateLoop :: "ctl \<Rightarrow> nskey \<Rightarrow> (workload \<Rightarrow> workload action) \<Rightarrow> nat \<Rightarrow> workload action" where
  "updateLoop C k f 0 = ret (NewResourceObject (Adp C))"
| "updateLoop C k f (Suc n) =
     bind_io (getSet C k) (\<lambda>w.
     bind_io (f w) (\<lambda>w.
     bind_io (attempt (updateSet C w)) (\<lambda>r.
     (case r of
        Inr w' \<Rightarrow> ret w'
      | Inl e \<Rightarrow> if n = 0 then fail e else updateLoop C k f n))))"

definition setInplaceUpdate :: "subset \<Rightarrow> workload \<Rightarrow> workload action" where
  "setInplaceUpdate ss obj =
     bind_io (as_InplaceSet obj) (\<lambda>s.
     ret (WInplaceSet (s\<lparr>ITemplate := (ITemplate s)\<lparr>TemplateSpec :=
       (TemplateSpec (ITemplate s))\<lparr>Containers := Containers (TemplateSpec (SubTemplate ss))\<rparr>\<rparr>\<rparr>)))"

definition UpdateSubsetAnnotations :: "ctl \<Rightarrow> subset \<Rightarrow> bool \<Rightarrow> unit action" where
  "UpdateSubsetAnnotations C sub isInplaceUpdate =
     bind_io (updateLoop C (objectKey sub) (\<lambda>w.
       let w = set_meta (\<lambda>m. m\<lparr>Annotations := Annotations sub\<rparr>) w
       in if isInplaceUpdate then setInplaceUpdate sub w else ret w) updateRetries) (\<lambda>_. ret ())"

definition DeleteSubset :: "ctl \<Rightarrow> extended_deployment \<Rightarrow> subset \<Rightarrow> unit action" where
  "DeleteSubset C cd sub =
     bind_io (call (DeleteSet (SubsetRef sub)) (\<lambda>h. ansDeleteSet (Srv C) h (SubsetRef sub))) (\<lambda>_.
     emit (Event ''DeleteSuccess''))"

definition ScaleSubset :: "ctl \<Rightarrow> extended_deployment \<Rightarrow> subset \<Rightarrow> int \<Rightarrow> unit action" where
  "ScaleSubset C cd ss newReplicas =
     (if SpecReplicas ss = newReplicas then ret ()
      else bind_io (updateLoop C (objectKey ss) (\<lambda>w. SetReplicas (Adp C) w newReplicas) updateRetries) (\<lambda>_.
        emit (Event ''ScaleSuccess'')))"

definition updateSubSetStrategy :: "ctl \<Rightarrow> extended_deployment \<Rightarrow> subset \<Rightarrow> subset action" where
  "updateSubSetStrategy C cd ss =
     bind_io (updateLoop C (objectKey ss) (\<lambda>w. SetUpdateStrategy (Adp C) w cd) updateRetries) (\<lambda>w.
     bind_io (emit (Event ''UpdateStrategySuccess'')) (\<lambda>_.
     convertToSubset (Adp C) w))"

section \<open>Listing and grouping\<close>

definition ownedSubset :: "extended_deployment \<Rightarrow> subset \<Rightarrow> bool" where
  "ownedSubset cd ss \<longleftrightarrow> DeletionTimestamp ss = None \<and>
     (case OwnerReferences ss of [] \<Rightarrow> False | r # _ \<Rightarrow> OwnerUID r = UID cd)"

definition GetAllSubsets :: "ctl \<Rightarrow> extended_deployment \<Rightarrow> subset list action" where
  "GetAllSubsets C cd =
     bind_io (of_sum (LabelSelectorAsSelector (Ext C) (Selector (Spec cd)))) (\<lambda>sel.
     let k = (Namespace cd, SelString sel) in
     bind_io (call (ListSets k) (\<lambda>h. ansListSets (Srv C) h k)) (\<lambda>selected.
     bind_io (of_sum (New_ref_manager (Ext C) (Selector (Spec cd)) cd)) (\<lambda>manager.
     bind_io (ClaimOwnedObjects (Srv C) (Ext C) manager selected) (\<lambda>claimedSets.
     for_io (\<lambda>w subSets. bind_io (convertToSubset (Adp C) w) (\<lambda>ss.
       ret (if ownedSubset cd ss then subSets @ [ss] else subSets))) claimedSets []))))"

text \<open>\<open>Semantic.DeepEqual\<close> of two pod templates: maps are equal up to their order.\<close>

definition container_equal :: "container \<Rightarrow> container \<Rightarrow> bool" where
  "container_equal c d \<longleftrightarrow> CName c = CName d \<and> CImage c = CImage d \<and>
     same_map (CRequests c) (CRequests d) \<and> same_map (CLimits c) (CLimits d) \<and> CRest c = CRest d"

definition template_equal :: "pod_template \<Rightarrow> pod_template \<Rightarrow> bool" where
  "template_equal t u \<longleftrightarrow> same_map (TemplateLabels t) (TemplateLabels u) \<and>
     TemplateRest t = TemplateRest u \<and>
     list_all2 container_equal (Containers (TemplateSpec t)) (Containers (TemplateSpec u)) \<and>
     list_all2 container_equal (InitContainers (TemplateSpec t)) (InitContainers (TemplateSpec u)) \<and>
     same_map (Overhead (TemplateSpec t)) (Overhead (TemplateSpec u)) \<and>
     (TemplateSpec t)\<lparr>Containers := [], InitContainers := [], Overhead := []\<rparr> =
     (TemplateSpec u)\<lparr>Containers := [], InitContainers := [], Overhead := []\<rparr>"

text \<open>
  The template of a region with its node affinity, and the template of a subset, both without the
  hash label, as they are compared.
\<close>

definition regionTemplate ::
    "ctl \<Rightarrow> subset_control \<Rightarrow> string \<Rightarrow> extended_deployment \<Rightarrow> pod_template action" where
  "regionTemplate C m regionName cd =
     bind_io (deref (ApplyOverridePolicies (Ext C) regionName cd)) (\<lambda>template.
     bind_io (deref (mget (regionInfoMap m) regionName)) (\<lambda>region.
     bind_io (deref (Region region)) (\<lambda>dr.
     ret (template\<lparr>
       TemplateSpec := SetSubsetRegionAffinity (TemplateSpec template) (RegionMatchLabels dr),
       TemplateLabels := mdel PodTemplateHashLabel (TemplateLabels template)\<rparr>))))"

definition unhashed :: "pod_template \<Rightarrow> pod_template" where
  "unhashed t = t\<lparr>TemplateLabels := mdel PodTemplateHashLabel (TemplateLabels t)\<rparr>"

definition subsetTemplateEqualExtendedDeployment ::
    "ctl \<Rightarrow> subset_control \<Rightarrow> subset \<Rightarrow> extended_deployment \<Rightarrow> bool action" where
  "subsetTemplateEqualExtendedDeployment C m ss cd =
     (let regionName = getSubsetRegionName ss;
          template = ApplyOverridePolicies (Ext C) regionName cd
      in case mget (Annotations ss) IpsAnnotationTemplateHash of
        Some ssTemplateHash \<Rightarrow> ret (ssTemplateHash = md5Template (Ext C) template)
      | None \<Rightarrow> bind_io (regionTemplate C m regionName cd) (\<lambda>template.
          ret (template_equal template (unhashed (SubTemplate ss)))))"

definition buildRegionInfo ::
    "extended_deployment \<Rightarrow> deploy_region gomap \<Rightarrow> region_info gomap action" where
  "buildRegionInfo cd regionMap =
     for_io (\<lambda>region mp.
       bind_io (deref (Replicas (Spec cd))) (\<lambda>totalReplicas.
       bind_io (deref (RegionReplicas region)) (\<lambda>rr.
       bind_io (of_sum (ParseRegionReplicas totalReplicas rr)) (\<lambda>replicas.
       ret (mset_key (RegionName region) (zero_region_info\<lparr>ConfiguredReplicas := replicas,
         DesiredReplicas := replicas, Region := mget regionMap (RegionName region)\<rparr>) mp)))))
     (Regions (Spec cd)) []"

text \<open>One subset put into its region, or among the unused ones.\<close>

definition assignSubset ::
    "ctl \<Rightarrow> extended_deployment \<Rightarrow> subset \<Rightarrow> subset_control \<Rightarrow> subset_control action" where
  "assignSubset C cd ss m =
     (let regionName = getSubsetRegionName ss
      in case mget (regionInfoMap m) regionName of
        None \<Rightarrow> ret (m\<lparr>unusedSubsets := unusedSubsets m @ [ss]\<rparr>)
      | Some rss \<Rightarrow>
          (if New rss \<noteq> None then ret (put_region regionName (rss\<lparr>Olds := Olds rss @ [ss]\<rparr>) m)
           else bind_io (subsetTemplateEqualExtendedDeployment C m ss cd) (\<lambda>eq.
             if eq then ret (put_region regionName (rss\<lparr>New := Some ss\<rparr>) m)
             else ret (put_region regionName (rss\<lparr>Olds := Olds rss @ [ss]\<rparr>) m))))"

definition regionState :: "ext \<Rightarrow> region_info \<Rightarrow> region_info" where
  "regionState X ri = (case New ri of
     None \<Rightarrow> ri
   | Some ss \<Rightarrow>
       (let desiredReplicas = DesiredReplicas ri;
            isScaleDown = (desiredReplicas < SpecReplicas ss)
        in case GetInplaceSetUpdateSpec X (Annotations ss) of
          (Some spec, True, _) \<Rightarrow>
            (case StatusInplace ss of
               Some st \<Rightarrow>
                 (if SubIUSPodTemplateHash st = PodTemplateHash spec
                  then ri\<lparr>ReplicasDesired := (i32 (UpdatePodNum spec) = desiredReplicas),
                    AvailableDesired := (SubIUSAvailable st \<ge> i32 (UpdatePodNum spec) \<or>
                      isScaleDown \<and> SubIUSAvailable st \<ge> desiredReplicas)\<rparr>
                  else ri)
             | None \<Rightarrow> ri)
        | _ \<Rightarrow> ri\<lparr>ReplicasDesired := (SpecReplicas ss = desiredReplicas),
              AvailableDesired := (isScaleDown \<or> StatusAvailable ss \<ge> SpecReplicas ss)\<rparr>))"

definition reschedRegion :: "AutoScheduleSpec \<Rightarrow> string \<times> region_info \<Rightarrow> string \<times> region_info" where
  "reschedRegion spec nr = (case mget (Infos spec) (fst nr) of
     None \<Rightarrow> nr
   | Some regionInfo \<Rightarrow> (fst nr, (snd nr)\<lparr>DesiredReplicas := DesiredReplicas_of regionInfo\<rparr>))"

definition groupSubset ::
    "ctl \<Rightarrow> extended_deployment \<Rightarrow> deploy_region gomap \<Rightarrow> subset_control \<Rightarrow> subset_control action" where
  "groupSubset C cd regionMap m =
     bind_io (buildRegionInfo cd regionMap) (\<lambda>mp.
     bind_io (for_io (assignSubset C cd) (allSubsets m)
       (m\<lparr>regionInfoMap := mp, unusedSubsets := []\<rparr>)) (\<lambda>m.
     bind_io (of_sum (GetAutoScheduleSpec (Ext C) (Annotations cd))) (\<lambda>spec.
     let m = (case spec of
           None \<Rightarrow> m
         | Some sp \<Rightarrow> m\<lparr>autoScheduleSpec := Some sp,
             regionInfoMap := map (reschedRegion sp) (regionInfoMap m)\<rparr>)
     in ret (m\<lparr>regionInfoMap := map (\<lambda>(n, ri). (n, regionState (Ext C) ri)) (regionInfoMap m)\<rparr>))))"

definition QuerySubsetAndRegionInfo ::
    "ctl \<Rightarrow> extended_deployment \<Rightarrow> deploy_region gomap \<Rightarrow> subset_control \<Rightarrow> subset_control action" where
  "QuerySubsetAndRegionInfo C cd regionMap m =
     bind_io (GetAllSubsets C cd) (\<lambda>subs.
     groupSubset C cd regionMap (m\<lparr>allSubsets := subs\<rparr>))"

section \<open>Creating a subset\<close>

definition maxRevisionForSubsets :: "subset list \<Rightarrow> err + int" where
  "maxRevisionForSubsets objs = fold (\<lambda>obj acc. (case acc of
     Inl e \<Rightarrow> Inl e
   | Inr mx \<Rightarrow> (case RevisionToInt64 (Annotations obj) of
        (_, Some e) \<Rightarrow> Inl e
      | (v, None) \<Rightarrow> Inr (if v > mx then v else mx)))) objs (Inr 0)"

definition CreateSubset :: "ctl \<Rightarrow> extended_deployment \<Rightarrow> deploy_region option \<Rightarrow> int \<Rightarrow> string \<Rightarrow>
    (extended_deployment \<times> subset) action" where
  "CreateSubset C cd drp replicas revision =
     (let cd = (if CollisionCount (Status cd) = None
                then cd\<lparr>Status := (Status cd)\<lparr>CollisionCount := Some 0\<rparr>\<rparr> else cd)
      in bind_io (deref drp) (\<lambda>dr.
         let overrideTemplate = ApplyOverridePolicies (Ext C) (Name dr) cd;
             templateHash = md5Template (Ext C) overrideTemplate
         in bind_io (ApplySubsetTemplate (Adp C) cd drp overrideTemplate replicas
                (NewResourceObject (Adp C))) (\<lambda>(cd, w).
            let w = set_meta (\<lambda>om. om\<lparr>
                  Annotations := mset_key AnnotationRevision revision
                    (mset_key IpsAnnotationRegionName (Name dr)
                      (mset_key IpsAnnotationTemplateHash templateHash (Annotations om))),
                  OwnerReferences := [NewControllerRef cd]\<rparr>) w
            in bind_io (call (CreateSet w) (\<lambda>h. ansCreateSet (Srv C) h w)) (\<lambda>w.
               bind_io (emit (Event ''CreateSuccess'')) (\<lambda>_.
               bind_io (convertToSubset (Adp C) w) (\<lambda>ss. ret (cd, ss)))))))"

text \<open>
  \<open>NewSubset\<close> with the region information it may change. The log line after a successful
  creation evaluates \<open>ri.New.Name\<close>, and \<open>ri.New\<close> is nil on that path.
\<close>

definition NewSubset :: "ctl \<Rightarrow> extended_deployment \<Rightarrow> region_info \<Rightarrow> int \<Rightarrow>
    (extended_deployment \<times> region_info \<times> subset) action" where
  "NewSubset C cd ri replicas =
     (case maxRevisionForSubsets (Olds ri) of
        Inl e \<Rightarrow> bind_io (deref (Region ri)) (\<lambda>_. fail e)
      | Inr maxRevision64 \<Rightarrow>
          (let revision = i64 (maxRevision64 + 1)
           in case New ri of
             Some new \<Rightarrow>
               (let new' = new\<lparr>Annotations := mset_key AnnotationRevision (Itoa revision) (Annotations new)\<rparr>;
                    raise_rev = bind_io (UpdateSubsetAnnotations C new' False) (\<lambda>_.
                      ret (cd, ri\<lparr>New := Some new'\<rparr>, new'))
                in case mget (Annotations new) AnnotationRevision of
                  None \<Rightarrow> raise_rev
                | Some val \<Rightarrow> (case ParseInt_sum val 64 of
                     Inl e \<Rightarrow> fail e
                   | Inr existRevision \<Rightarrow>
                       (if existRevision < revision then raise_rev else ret (cd, ri, new))))
           | None \<Rightarrow>
               bind_io (deref (Region ri)) (\<lambda>_.
               bind_io (CreateSubset C cd (Region ri) replicas (Itoa revision)) (\<lambda>_.
               nil_deref))))"

section \<open>Scaling down old subsets\<close>

text \<open>
  \<open>cleanupUnhealthyReplicas\<close> sorts the old subsets and takes unavailable replicas away. The
  slice it sorts stays visible to the caller beside the list it leaves in the region, so the loop
  returns both: every old subset with its new replica count, and the ones that were not deleted.
\<close>

fun cleanupLoop :: "ctl \<Rightarrow> extended_deployment \<Rightarrow> int \<Rightarrow> subset list \<Rightarrow> int \<Rightarrow>
    ((err + int) \<times> subset list \<times> subset list) action" where
  "cleanupLoop C cd maxCleanupCount [] totalScaleDown = ret (Inr totalScaleDown, [], [])"
| "cleanupLoop C cd maxCleanupCount (ss # sss) totalScaleDown =
     (if totalScaleDown \<ge> maxCleanupCount then ret (Inr totalScaleDown, ss # sss, ss # sss)
      else if SpecReplicas ss = StatusAvailable ss
      then bind_io (cleanupLoop C cd maxCleanupCount sss totalScaleDown) (\<lambda>(r, every, kept).
        ret (r, ss # every, ss # kept))
      else
        (let scaleDownCount = Int32Min (i32 (SpecReplicas ss - StatusAvailable ss))
               (i32 (maxCleanupCount - totalScaleDown));
             newReplicas = i32 (SpecReplicas ss - scaleDownCount)
         in if newReplicas > SpecReplicas ss
            then ret (Inl (Msg ''when cleaning up unhealthy subsets, got invalid request''), ss # sss, [])
            else if newReplicas = 0
            then bind_io (attempt (DeleteSubset C cd ss)) (\<lambda>d.
              (case d of
                 Inl e \<Rightarrow> ret (Inl e, ss # sss, [])
               | Inr _ \<Rightarrow>
                   bind_io (cleanupLoop C cd maxCleanupCount sss (i32 (totalScaleDown + scaleDownCount)))
                     (\<lambda>(r, every, kept). ret (r, ss # every, kept))))
            else bind_io (attempt (ScaleSubset C cd ss newReplicas)) (\<lambda>d.
              (case d of
                 Inl e \<Rightarrow> ret (Inl e, ss # sss, [])
               | Inr _ \<Rightarrow>
                   (let ss' = ss\<lparr>SpecReplicas := newReplicas\<rparr>
                    in bind_io (cleanupLoop C cd maxCleanupCount sss (i32 (totalScaleDown + scaleDownCount)))
                         (\<lambda>(r, every, kept). ret (r, ss' # every, ss' # kept)))))))"

definition cleanupUnhealthyReplicas ::
    "ctl \<Rightarrow> extended_deployment \<Rightarrow> subset_control \<Rightarrow> string \<Rightarrow> int \<Rightarrow>
     ((err + int) \<times> subset list \<times> subset_control) action" where
  "cleanupUnhealthyReplicas C cd m regionName maxCleanupCount =
     bind_io (deref (mget (regionInfoMap m) regionName)) (\<lambda>ri.
     bind_io (cleanupLoop C cd maxCleanupCount
       (sort_by SubSetsByCreationTimestamp_Less (Olds ri)) 0) (\<lambda>(r, every, kept).
     (case r of
        Inl e \<Rightarrow> ret (Inl e, every, put_region regionName (ri\<lparr>Olds := every\<rparr>) m)
      | Inr n \<Rightarrow> ret (Inr n, every, put_region regionName (ri\<lparr>Olds := kept\<rparr>) m))))"

text \<open>
  The loop of \<open>regionSyncOnce\<close> over the old subsets: one that has more replicas than must go is
  scaled, the replicas of the others are only subtracted.
\<close>

fun scaleDownOlds :: "ctl \<Rightarrow> extended_deployment \<Rightarrow> int \<Rightarrow> subset list \<Rightarrow> unit action" where
  "scaleDownOlds C cd needScaleDown [] = ret ()"
| "scaleDownOlds C cd needScaleDown (ss # sss) =
     (if SpecReplicas ss > needScaleDown
      then ScaleSubset C cd ss (i32 (SpecReplicas ss - needScaleDown))
      else scaleDownOlds C cd (i32 (needScaleDown - SpecReplicas ss)) sss)"

definition regionSyncOnce :: "ctl \<Rightarrow> extended_deployment \<Rightarrow> subset_control \<Rightarrow> string \<Rightarrow> bool \<Rightarrow>
    (bool \<times> subset_control) action" where
  "regionSyncOnce C cd m regionName updateNewSs =
     bind_io (deref (mget (regionInfoMap m) regionName)) (\<lambda>info.
     bind_io (deref (New info)) (\<lambda>new.
     let oldReplicas = sum32 SpecReplicas (Olds info);
         maxCleanupCount = i32 (i32 (oldReplicas + StatusAvailable new) - DesiredReplicas info)
     in bind_io (cleanupUnhealthyReplicas C cd m regionName maxCleanupCount) (\<lambda>(r, _, m).
        bind_io (of_sum r) (\<lambda>cleanupCount.
        bind_io (deref (mget (regionInfoMap m) regionName)) (\<lambda>info.
        let needScaleDown = i32 (maxCleanupCount - cleanupCount)
        in bind_io (if needScaleDown > 0 then scaleDownOlds C cd needScaleDown (Olds info) else ret ()) (\<lambda>_.
           if \<not> updateNewSs then ret (True, m)
           else
             (let stepSize = calculateStepSize cd (DesiredReplicas info) (SpecReplicas new)
              in bind_io (ScaleSubset C cd new (i32 (SpecReplicas new + stepSize))) (\<lambda>_.
                 ret (True, m)))))))))"

section \<open>In-place updates\<close>

definition isCanInplaceUpdate ::
    "ctl \<Rightarrow> extended_deployment \<Rightarrow> subset_control \<Rightarrow> subset \<Rightarrow> bool action" where
  "isCanInplaceUpdate C cd m ss =
     (let regionName = getSubsetRegionName ss
      in bind_io (regionTemplate C m regionName cd) (\<lambda>template.
         bind_io (deref (mget (regionInfoMap m) regionName)) (\<lambda>region.
         let ipsTemplate = unhashed (SubTemplate ss);
             noImage = (\<lambda>t. t\<lparr>TemplateSpec := (TemplateSpec t)\<lparr>Containers :=
               map (\<lambda>c. c\<lparr>CImage := []\<rparr>) (Containers (TemplateSpec t))\<rparr>\<rparr>)
         in ret (\<not> (length (Containers (TemplateSpec template)) \<noteq>
                    length (Containers (TemplateSpec ipsTemplate)) \<or>
                  DesiredReplicas region > SpecReplicas ss) \<and>
                template_equal (noImage template) (noImage ipsTemplate)))))"

text \<open>
  \<open>CheckInplaceUpdate\<close> works on the new subset or on the first old one; a pointer to the same
  object may then stand in both places, so a change is written to each.
\<close>

definition inplaceTarget :: "region_info \<Rightarrow> subset option" where
  "inplaceTarget info = (case (New info, Olds info) of
     (Some n, []) \<Rightarrow> Some n
   | (None, o' # _) \<Rightarrow> Some o'
   | _ \<Rightarrow> None)"

definition writeTarget :: "region_info \<Rightarrow> subset \<Rightarrow> region_info" where
  "writeTarget info ss =
     (if New info \<noteq> None then info\<lparr>New := Some ss\<rparr> else info\<lparr>Olds := ss # tl (Olds info)\<rparr>)"

definition CheckInplaceUpdate :: "ctl \<Rightarrow> extended_deployment \<Rightarrow> subset_control \<Rightarrow> string \<Rightarrow>
    (bool \<times> subset_control) action" where
  "CheckInplaceUpdate C cd m regionName =
     bind_io (deref (mget (regionInfoMap m) regionName)) (\<lambda>info.
     case inplaceTarget info of
       None \<Rightarrow> ret (False, m)
     | Some ss \<Rightarrow>
         (case GetInplaceSetUpdateSpec (Ext C) (Annotations ss) of (spec, exists, _) \<Rightarrow>
            if \<not> exists \<and> New info \<noteq> None then ret (False, m)
            else
              (let ss = (if Olds info \<noteq> [] \<and> exists
                     then ss\<lparr>Annotations := snd (DelInplacesetUpdateSpec (Annotations ss))\<rparr> else ss);
                   m = put_region regionName (writeTarget info ss) m
               in bind_io (isCanInplaceUpdate C cd m ss) (\<lambda>can.
                  if \<not> can then ret (False, m)
                  else
                    (let spec = (case spec of None \<Rightarrow> \<lparr>UpdatePodNum = 0, PodTemplateHash = []\<rparr>
                                            | Some s \<Rightarrow> s);
                         stepSize = calculateStepSize cd (DesiredReplicas info) (i32 (UpdatePodNum spec))
                     in if stepSize \<le> 0 then ret (False, m)
                        else
                          (let stepSize = (if UpdatePodNum spec = 0 \<and> stepSize = DesiredReplicas info
                                           then 1 else stepSize);
                               overrideTemplate = ApplyOverridePolicies (Ext C) regionName cd
                           in bind_io (deref overrideTemplate) (\<lambda>t.
                              let ss = ss\<lparr>SubTemplate := (SubTemplate ss)\<lparr>TemplateSpec :=
                                    (TemplateSpec (SubTemplate ss))\<lparr>Containers :=
                                      Containers (TemplateSpec t)\<rparr>\<rparr>\<rparr>;
                                  spec = \<lparr>UpdatePodNum = UpdatePodNum spec + stepSize,
                                    PodTemplateHash = HashObject (Ext C) (SubTemplate ss)\<rparr>;
                                  ss = ss\<lparr>Annotations := mset_key IpsAnnotationTemplateHash
                                    (md5Template (Ext C) overrideTemplate)
                                    (SetInplacesetUpdateSpec (Ext C) spec (Annotations ss))\<rparr>
                              in bind_io (UpdateSubsetAnnotations C ss True) (\<lambda>_.
                                 let ss = ss\<lparr>StatusAvailable := i32 (StatusAvailable ss - stepSize)\<rparr>
                                 in bind_io (emit (Event ''InplaceUpdateSuccess'')) (\<lambda>_.
                                    ret (True, put_region regionName
                                      ((writeTarget info ss)\<lparr>New := Some ss\<rparr>) m))))))))))"

section \<open>Rolling updates\<close>

definition reconcileNewSubset :: "ctl \<Rightarrow> extended_deployment \<Rightarrow> subset list \<Rightarrow> subset \<Rightarrow> region_info \<Rightarrow>
    bool action" where
  "reconcileNewSubset C cd allRSs newRS region =
     (if SpecReplicas newRS = DesiredReplicas region then ret False
      else if SpecReplicas newRS > DesiredReplicas region
      then bind_io (ScaleSubset C cd newRS (DesiredReplicas region)) (\<lambda>_. ret True)
      else bind_io (NewRSNewReplicas cd allRSs newRS region) (\<lambda>newReplicasCount.
        bind_io (ScaleSubset C cd newRS newReplicasCount) (\<lambda>_. ret True)))"

fun scaleDownLoop :: "ctl \<Rightarrow> extended_deployment \<Rightarrow> int \<Rightarrow> subset list \<Rightarrow> int \<Rightarrow> int action" where
  "scaleDownLoop C cd totalScaleDownCount [] totalScaleDown = ret totalScaleDown"
| "scaleDownLoop C cd totalScaleDownCount (targetRS # rest) totalScaleDown =
     (if totalScaleDown \<ge> totalScaleDownCount then ret totalScaleDown
      else if SpecReplicas targetRS = 0 then scaleDownLoop C cd totalScaleDownCount rest totalScaleDown
      else
        (let scaleDownCount = min (SpecReplicas targetRS) (i32 (totalScaleDownCount - totalScaleDown));
             newReplicasCount = i32 (SpecReplicas targetRS - scaleDownCount)
         in if newReplicasCount > SpecReplicas targetRS
            then fail (Msg ''when scaling down old RS, got invalid request'')
            else bind_io (ScaleSubset C cd targetRS newReplicasCount) (\<lambda>_.
              scaleDownLoop C cd totalScaleDownCount rest (i32 (totalScaleDown + scaleDownCount)))))"

definition scaleDownOldSubsetsForRollingUpdate ::
    "ctl \<Rightarrow> extended_deployment \<Rightarrow> subset list \<Rightarrow> subset list \<Rightarrow> region_info \<Rightarrow> int action" where
  "scaleDownOldSubsetsForRollingUpdate C cd allRSs oldRSs region =
     bind_io (MaxUnavailable cd region) (\<lambda>maxUnavailable.
     let minAvailable = i32 (DesiredReplicas region - maxUnavailable);
         availablePodCount = GetReplicasCount allRSs
     in if availablePodCount \<le> minAvailable then ret 0
        else scaleDownLoop C cd (i32 (availablePodCount - minAvailable)) oldRSs 0)"

text \<open>Errors of the two scale-downs are dropped: the caller sees that nothing was updated.\<close>

definition reconcileOldSubsets :: "ctl \<Rightarrow> extended_deployment \<Rightarrow> subset_control \<Rightarrow> subset list \<Rightarrow>
    subset list \<Rightarrow> subset \<Rightarrow> region_info \<Rightarrow> string \<Rightarrow> (bool \<times> subset_control) action" where
  "reconcileOldSubsets C cd m allRSs oldRSs newRS region regionName =
     (if GetReplicasCount oldRSs = 0 then ret (False, m)
      else bind_io (MaxUnavailable cd region) (\<lambda>maxUnavailable.
        let allPodsCount = GetReplicasCount allRSs;
            minAvailable = i32 (DesiredReplicas region - maxUnavailable);
            newRSUnavailablePodCount = i32 (SpecReplicas newRS - StatusAvailable newRS);
            maxScaleDown = i32 (i32 (allPodsCount - minAvailable) - newRSUnavailablePodCount)
        in if maxScaleDown \<le> 0 then ret (False, m)
           else bind_io (cleanupUnhealthyReplicas C cd m regionName maxScaleDown) (\<lambda>(r, every, m).
             (case r of
                Inl _ \<Rightarrow> ret (False, m)
              | Inr cleanupCount \<Rightarrow>
                  bind_io (deref (mget (regionInfoMap m) regionName)) (\<lambda>region.
                  bind_io (attempt (scaleDownOldSubsetsForRollingUpdate C cd
                    (Olds region @ [newRS]) every region)) (\<lambda>s.
                  (case s of
                     Inl _ \<Rightarrow> ret (False, m)
                   | Inr scaleDownCount \<Rightarrow> ret (i32 (cleanupCount + scaleDownCount) > 0, m))))))))"

section \<open>Deleting everything first\<close>

fun scaleDownOldReplicaSetsForDeleteAllFirst ::
    "ctl \<Rightarrow> extended_deployment \<Rightarrow> subset list \<Rightarrow> bool action" where
  "scaleDownOldReplicaSetsForDeleteAllFirst C cd [] = ret False"
| "scaleDownOldReplicaSetsForDeleteAllFirst C cd (ss # sss) =
     (if SpecReplicas ss = 0 then scaleDownOldReplicaSetsForDeleteAllFirst C cd sss
      else bind_io (ScaleSubset C cd ss 0) (\<lambda>_.
        bind_io (scaleDownOldReplicaSetsForDeleteAllFirst C cd sss) (\<lambda>_. ret True)))"

definition IsControlledBy :: "'a object_meta_scheme \<Rightarrow> 'b object_meta_scheme \<Rightarrow> bool" where
  "IsControlledBy obj owner = (case GetControllerOf obj of
     None \<Rightarrow> False | Some r \<Rightarrow> OwnerUID r = UID owner)"

fun oldPodsLoop :: "ctl \<Rightarrow> subset list \<Rightarrow> err list \<Rightarrow> bool action" where
  "oldPodsLoop C [] errs = (if errs = [] then ret False else fail (Aggregate errs))"
| "oldPodsLoop C (old # olds) errs =
     (case LabelSelectorAsSelector (Ext C) (SubSelector old) of
        Inl e \<Rightarrow> oldPodsLoop C olds (errs @ [e])
      | Inr sel \<Rightarrow>
          (let k = ([], SelString sel)
           in bind_io (attempt (call (ListPods k) (\<lambda>h. ansListPods (Srv C) h k))) (\<lambda>r.
              (case r of
                 Inl e \<Rightarrow> oldPodsLoop C olds (errs @ [e])
               | Inr pods \<Rightarrow>
                   (if list_ex (\<lambda>pod. IsControlledBy pod old) pods then ret True
                    else oldPodsLoop C olds errs)))))"

definition oldPodsRunning :: "ctl \<Rightarrow> subset list \<Rightarrow> region_info \<Rightarrow> bool action" where
  "oldPodsRunning C oldSSs region =
     (if getActualReplicaCountForSubets oldSSs > 0 then ret True
      else if getAvailableReplicaCountForSubsets oldSSs > 0 then ret True
      else oldPodsLoop C (Olds region) [])"

definition rolloutDeleteAllFirst :: "ctl \<Rightarrow> extended_deployment \<Rightarrow> subset_control \<Rightarrow> string \<Rightarrow>
    (bool \<times> extended_deployment \<times> subset_control) action" where
  "rolloutDeleteAllFirst C cd m regionName =
     bind_io (deref (mget (regionInfoMap m) regionName)) (\<lambda>ri.
     bind_io (scaleDownOldReplicaSetsForDeleteAllFirst C cd (Olds ri)) (\<lambda>scaledDown.
     if scaledDown then ret (True, cd, m)
     else bind_io (oldPodsRunning C (Olds ri) ri) (\<lambda>running.
       if running then ret (False, cd, m)
       else bind_io (NewSubset C cd ri (DesiredReplicas ri)) (\<lambda>(cd, ri, new).
         let m = put_region regionName (ri\<lparr>New := Some new\<rparr>) m
         in bind_io (if SpecReplicas new \<noteq> DesiredReplicas ri
                     then ScaleSubset C cd new (DesiredReplicas ri) else ret ()) (\<lambda>_.
            ret (True, cd, m))))))"

section \<open>Managing all regions\<close>

fun ClearLoop :: "ctl \<Rightarrow> extended_deployment \<Rightarrow> subset list \<Rightarrow> unit action" where
  "ClearLoop C cd [] = ret ()"
| "ClearLoop C cd (ss # sss) = bind_io (DeleteSubset C cd ss) (\<lambda>_. ClearLoop C cd sss)"

definition ClearUnused :: "ctl \<Rightarrow> extended_deployment \<Rightarrow> subset_control \<Rightarrow> unit action" where
  "ClearUnused C cd m = ClearLoop C cd (unusedSubsets m)"

definition recreateRegion :: "ctl \<Rightarrow> extended_deployment \<Rightarrow> subset_control \<Rightarrow> string \<Rightarrow>
    (bool \<times> extended_deployment \<times> subset_control) action" where
  "recreateRegion C cd m regionName =
     bind_io (deref (mget (regionInfoMap m) regionName)) (\<lambda>ri.
     let stepSize = calculateStepSize cd (DesiredReplicas ri) 0
     in bind_io (NewSubset C cd ri stepSize) (\<lambda>(cd, ri, new).
        let m = put_region regionName (ri\<lparr>New := Some new\<rparr>) m
        in bind_io (regionSyncOnce C cd m regionName True) (\<lambda>(u, m). ret (u, cd, m))))"

definition rollingRegion :: "ctl \<Rightarrow> extended_deployment \<Rightarrow> subset_control \<Rightarrow> string \<Rightarrow>
    (bool \<times> extended_deployment \<times> subset_control) action" where
  "rollingRegion C cd m regionName =
     bind_io (deref (mget (regionInfoMap m) regionName)) (\<lambda>ri.
     bind_io (case New ri of
        Some new \<Rightarrow> ret (cd, ri, new)
      | None \<Rightarrow>
          bind_io (convertToSubset (Adp C) (NewResourceObject (Adp C))) (\<lambda>newRS.
          bind_io (NewRSNewReplicas cd (Olds ri) newRS ri) (\<lambda>newReplicasCount.
          NewSubset C cd ri newReplicasCount))) (\<lambda>(cd, ri, new).
     let ri = ri\<lparr>New := Some new\<rparr>; m = put_region regionName ri m; allRSs = Olds ri @ [new]
     in bind_io (reconcileNewSubset C cd allRSs new ri) (\<lambda>_.
        bind_io (reconcileOldSubsets C cd m allRSs (Olds ri) new ri regionName) (\<lambda>(_, m).
        ret (True, cd, m)))))"

text \<open>
  The loop of \<open>ManageSubsets\<close> over the regions. After an in-place update the code continues with
  the next region before it records that a region was updated; the delete-first strategy returns
  from within the loop.
\<close>

fun manageRegions :: "ctl \<Rightarrow> extended_deployment \<Rightarrow> subset_control \<Rightarrow> string list \<Rightarrow> bool \<Rightarrow>
    (bool \<times> extended_deployment \<times> subset_control) action" where
  "manageRegions C cd m [] anyRegionUpdated = ret (anyRegionUpdated, cd, m)"
| "manageRegions C cd m (regionName # rest) anyRegionUpdated =
     bind_io (deref (UpdateStrategy (Strategy (Spec cd)))) (\<lambda>us.
     let goOn = (\<lambda>(u, cd, m). manageRegions C cd m rest (anyRegionUpdated \<or> u))
     in if UpdateType us = InPlaceIfPossibleUpdateStrategyType \<or>
           UpdateType us = InPlaceOnlyUpdateStrategyType
        then
          bind_io (if SubsetType (Spec cd) \<noteq> InPlaceSetSubsetType
            then bind_io (emit (Event ''InplaceStrategyWithoutInplaceSet'')) (\<lambda>_. ret False)
            else ret (\<not> DisableInplaceUpdate C)) (\<lambda>canInPlaceUpdate.
          if canInPlaceUpdate
          then bind_io (CheckInplaceUpdate C cd m regionName) (\<lambda>(doInplaceUpdate, m).
            if doInplaceUpdate then manageRegions C cd m rest anyRegionUpdated
            else if UpdateType us = InPlaceOnlyUpdateStrategyType
            then fail (Msg ''inplace update strategy set InPlaceOnly, but can't inplace update'')
            else bind_io (recreateRegion C cd m regionName) goOn)
          else bind_io (recreateRegion C cd m regionName) goOn)
        else if UpdateType us = RecreateUpdateStrategyType
        then bind_io (recreateRegion C cd m regionName) goOn
        else if UpdateType us = RollingUpdateStrategyType
        then (if RollingUpdate us \<noteq> None then bind_io (rollingRegion C cd m regionName) goOn
              else goOn (False, cd, m))
        else if UpdateType us = DeleteAllFirstUpdateStrategyType
        then rolloutDeleteAllFirst C cd m regionName
        else goOn (False, cd, m))"

definition ManageSubsets :: "ctl \<Rightarrow> extended_deployment \<Rightarrow> subset_control \<Rightarrow>
    (bool \<times> extended_deployment \<times> subset_control) action" where
  "ManageSubsets C cd m =
     bind_io (ClearUnused C cd m) (\<lambda>_.
     manageRegions C cd m (map fst (regionInfoMap m)) False)"

section \<open>The update strategy of subsets\<close>

definition strategyDiffers :: "extended_deployment \<Rightarrow> subset \<Rightarrow> bool action" where
  "strategyDiffers cd new =
     (if MinReadySeconds (Strategy (Spec cd)) \<noteq> SubMinReadySeconds new then ret True
      else if SubsetType (Spec cd) = InPlaceSetSubsetType
      then bind_io (deref (UpdateStrategy (Strategy (Spec cd)))) (\<lambda>us.
        if (UpdateType us = InPlaceIfPossibleUpdateStrategyType \<or>
            UpdateType us = InPlaceOnlyUpdateStrategyType) \<and>
           SubUpdateType new \<noteq> InPlaceIfPossibleUpdateStrategyType
        then ret True
        else if (UpdateType us = DeleteAllFirstUpdateStrategyType \<or>
            UpdateType us = RecreateUpdateStrategyType \<or> UpdateType us = RollingUpdateStrategyType) \<and>
           SubUpdateType new \<noteq> RecreateUpdateStrategyType
        then ret True
        else bind_io (deref (SubInPlaceGrace new)) (\<lambda>g. ret (GracePeriodSeconds us \<noteq> g)))
      else ret False)"

definition UpdateSubsetStrategy ::
    "ctl \<Rightarrow> extended_deployment \<Rightarrow> subset_control \<Rightarrow> subset_control action" where
  "UpdateSubsetStrategy C cd m =
     for_io (\<lambda>(regionName, ri) m. (case New ri of
        None \<Rightarrow> ret m
      | Some new \<Rightarrow> bind_io (strategyDiffers cd new) (\<lambda>needsUpdate.
          if needsUpdate
          then bind_io (updateSubSetStrategy C cd new) (\<lambda>new.
            ret (put_region regionName (ri\<lparr>New := Some new\<rparr>) m))
          else ret m)))
     (regionInfoMap m) m"

end
