(* ===== verification/Rollout.thy ===== *)
theory Rollout
  imports SubsetControl
begin

text \<open>
  What the subset control guarantees: how subsets are grouped, what a rollout step may write, and
  which counts it keeps.
\<close>

section \<open>Requests of the operations\<close>

definition valid_ctl :: "ctl \<Rightarrow> bool" where
  "valid_ctl C \<longleftrightarrow> (\<exists>X t. subSetControls X t = Some (Adp C))"

lemma emits_as [emits_intros]:
  "emits P (as_InplaceSet w)" "emits P (as_Deployment w)" "emits P (as_ReplicaSet w)"
  by (cases w; auto intro: emits_intros)+

lemma valid_ctl_cases:
  "valid_ctl C \<Longrightarrow> \<exists>X. Adp C = InplaceSetAdapter X \<or> Adp C = DeploymentAdapter X \<or> Adp C = ReplicaSetAdapter X"
proof -
  assume "valid_ctl C"
  then obtain X t where "subSetControls X t = Some (Adp C)" by (auto simp: valid_ctl_def)
  then show ?thesis by (cases t) (auto simp: subSetControls_def dest: sym)
qed

text \<open>The adapters send no request.\<close>

lemma emits_adapter [emits_intros]:
  assumes "valid_ctl C"
  shows "emits P (SetReplicas (Adp C) w n)" "emits P (SetUpdateStrategy (Adp C) w cd)"
    "emits P (GetReplicaDetails (Adp C) w s)" "emits P (ApplySubsetTemplate (Adp C) cd dr t n w)"
  using valid_ctl_cases [OF assms]
  by (auto simp: adapter_defs nextNameHash_def InplaceSet_ApplySubsetTemplate_def
      Deployment_ApplySubsetTemplate_def ReplicaSet_ApplySubsetTemplate_def intro!: emits_intros)

lemma emits_convert [emits_intros]: "valid_ctl C \<Longrightarrow> emits P (convertToSubset (Adp C) w)"
  by (auto simp: convertToSubset_def intro!: emits_intros)

lemma emits_updateLoop:
  assumes "P (GetSet k)" and "\<And>w. P (UpdateSet w)" and "\<And>w. emits P (f w)"
  shows "emits P (updateLoop C k f n)"
  using assms
  by (induction n) (auto simp: getSet_def updateSet_def intro!: emits_intros split: sum.split)

text \<open>A request that neither creates nor deletes a workload.\<close>

definition keeps_sets :: "req \<Rightarrow> bool" where
  "keeps_sets q = (case q of CreateSet _ \<Rightarrow> False | DeleteSet _ \<Rightarrow> False | _ \<Rightarrow> True)"

lemma keeps_sets_simps [simp]:
  "keeps_sets (GetSet k)" "keeps_sets (UpdateSet w)" "keeps_sets (Event e)" "keeps_sets (ListPods p)"
  "\<not> keeps_sets (CreateSet w)" "\<not> keeps_sets (DeleteSet w)"
  by (simp_all add: keeps_sets_def)

lemma emits_ScaleSubset:
  assumes "valid_ctl C" and "\<And>q. keeps_sets q \<Longrightarrow> P q"
  shows "emits P (ScaleSubset C cd ss n)"
  using assms by (auto simp: ScaleSubset_def intro!: emits_intros emits_updateLoop)

lemma emits_setInplaceUpdate [emits_intros]: "emits P (setInplaceUpdate ss w)"
  by (auto simp: setInplaceUpdate_def intro!: emits_intros)

lemma emits_UpdateSubsetAnnotations:
  assumes "\<And>q. keeps_sets q \<Longrightarrow> P q"
  shows "emits P (UpdateSubsetAnnotations C ss b)"
  using assms
  by (auto simp: UpdateSubsetAnnotations_def Let_def intro!: emits_intros emits_updateLoop)

lemma emits_DeleteSubset:
  "P (DeleteSet (SubsetRef ss)) \<Longrightarrow> P (Event ''DeleteSuccess'') \<Longrightarrow> emits P (DeleteSubset C cd ss)"
  by (auto simp: DeleteSubset_def intro!: emits_intros)

lemma emits_CreateSubset:
  assumes "valid_ctl C" and "\<And>w. P (CreateSet w)" and "P (Event ''CreateSuccess'')"
  shows "emits P (CreateSubset C cd dr n rv)"
  using assms by (auto simp: CreateSubset_def Let_def intro!: emits_intros)

lemma emits_NewSubset:
  assumes "valid_ctl C" and "\<And>q. (\<forall>w. q \<noteq> DeleteSet w) \<Longrightarrow> P q"
  shows "emits P (NewSubset C cd ri n)"
  using assms
  by (auto simp: NewSubset_def Let_def keeps_sets_def
      intro!: emits_intros emits_CreateSubset emits_UpdateSubsetAnnotations
      split: sum.split option.split req.splits)

section \<open>Scaling one subset\<close>

lemma updateLoop_Ok:
  assumes "updateLoop C k f n h = (Ok w', h')" and "n \<noteq> 0" and "\<And>w. emits (\<lambda>_. False) (f w)"
  shows "\<exists>g0 g w u. ansGetSet (Srv C) g0 k = Inr w \<and> f w g = (Ok u, g) \<and>
           ansUpdateSet (Srv C) g u = Inr w' \<and> h' = g @ [UpdateSet u]"
  using assms(1,2)
proof (induction n arbitrary: h)
  case (Suc n)
  from Suc.prems obtain w h1 u h2 r h3 where
    get: "getSet C k h = (Ok w, h1)" and
    f: "f w h1 = (Ok u, h2)" and upd: "attempt (updateSet C u) h2 = (Ok r, h3)" and
    rest: "(case r of Inr w' \<Rightarrow> ret w' | Inl e \<Rightarrow> if n = 0 then fail e else updateLoop C k f n) h3 = (Ok w', h')"
    by (auto elim!: bind_OkE)
  from get have w: "ansGetSet (Srv C) h k = Inr w" by (simp add: getSet_def)
  from emitsD [OF assms(3) f] have h2: "h2 = h1" by (auto simp: list_all_iff)
  show ?case
  proof (cases r)
    case (Inl e)
    with rest Suc.IH show ?thesis by (cases "n = 0") auto
  next
    case (Inr x)
    with upd rest have "ansUpdateSet (Srv C) h1 u = Inr w'" "h' = h1 @ [UpdateSet u]"
      by (auto simp: attempt_def updateSet_def call_def h2 split: sum.splits prod.splits)
    with w f h2 show ?thesis by blast
  qed
qed simp

text \<open>
  When scaling a subset succeeds, the last thing that happened is that the API server accepted
  a write of the workload with exactly the requested replica count: read back as a subset it has
  that many replicas. Scaling to the count the subset already has sends nothing.
\<close>

theorem ScaleSubset_writes_count:
  assumes "ScaleSubset C cd ss n h = (Ok (), h')" and "subSetControls X t = Some (Adp C)"
    and "\<And>g k w. ansGetSet (Srv C) g k = Inr w \<Longrightarrow> is_kind t w"
  shows "if SpecReplicas ss = n then h' = h
         else \<exists>g u w' s. h' = g @ [UpdateSet u, Event ''ScaleSuccess''] \<and>
           ansUpdateSet (Srv C) g u = Inr w' \<and> convertToSubset (Adp C) u = ret s \<and> SpecReplicas s = n"
proof (cases "SpecReplicas ss = n")
  case True
  with assms(1) show ?thesis by (simp add: ScaleSubset_def)
next
  case False
  from assms(2) have valid: "valid_ctl C" by (auto simp: valid_ctl_def)
  from False assms(1) obtain w0 h1 where
    loop: "updateLoop C (objectKey ss) (\<lambda>w. SetReplicas (Adp C) w n) updateRetries h = (Ok w0, h1)"
    and h': "h' = h1 @ [Event ''ScaleSuccess'']"
    by (auto simp: ScaleSubset_def elim!: bind_OkE)
  from updateLoop_Ok [OF loop] valid obtain g0 g w u where
    u: "ansGetSet (Srv C) g0 (objectKey ss) = Inr w" "SetReplicas (Adp C) w n g = (Ok u, g)"
      "ansUpdateSet (Srv C) g u = Inr w0" "h1 = g @ [UpdateSet u]"
    by (auto simp: updateRetries_def intro: emits_adapter)
  from adapter_contract.convert_total [OF registered_adapter [OF assms(2)] assms(3) [OF u(1)]]
  obtain s where "convertToSubset (Adp C) w = ret s" by blast
  from adapter_contract.convert_set_replicas
      [OF registered_adapter [OF assms(2)] assms(3) [OF u(1)] this, of n]
  obtain w' where w': "SetReplicas (Adp C) w n = ret w'"
    "convertToSubset (Adp C) w' = ret (s\<lparr>SpecReplicas := n, SubsetRef := w'\<rparr>)" by blast
  with u(2) have "u = w'" by simp
  with w' u h' False show ?thesis by fastforce
qed

text \<open>A sample: one ReplicaSet of ten replicas behind a server that finds it.\<close>

definition sample_set :: workload where
  "sample_set = WReplicaSet (zero_native_set\<lparr>Name := ''old'', NReplicas := Some 10, NStatusAvailable := 10\<rparr>)"

definition sample_ctl :: ctl where
  "sample_ctl = \<lparr>Srv = sample_server\<lparr>ansGetSet := \<lambda>_ _. Inr sample_set\<rparr>, Ext = sample_ext,
     Adp = ReplicaSetAdapter sample_ext, DisableInplaceUpdate = False\<rparr>"

lemma sample_ctl_scale:
  "ScaleSubset sample_ctl cd old_ten 7 h =
     (Ok (), h @ [GetSet ([], ''old''), UpdateSet (WReplicaSet (zero_native_set\<lparr>Name := ''old'',
        NReplicas := Some 7, NStatusAvailable := 10\<rparr>)), Event ''ScaleSuccess''])"
  by (simp add: ScaleSubset_def updateRetries_def eval_nat_numeral getSet_def updateSet_def
      sample_ctl_def sample_server_def sample_set_def adapter_defs objectKey_def old_ten_def
      zero_values io_defs)

lemma sample_ctl_valid [simp]: "subSetControls sample_ext ReplicaSetSubsetType = Some (Adp sample_ctl)"
  "valid_ctl sample_ctl"
  by (auto simp: sample_ctl_def subSetControls_def valid_ctl_def intro!: exI [of _ ReplicaSetSubsetType])

theorem ScaleSubset_writes_count_witness:
  "if SpecReplicas old_ten = 7
   then [GetSet ([], ''old''), UpdateSet (WReplicaSet (zero_native_set\<lparr>Name := ''old'',
        NReplicas := Some 7, NStatusAvailable := 10\<rparr>)), Event ''ScaleSuccess''] = []
   else \<exists>g u w' s. [GetSet ([], ''old''), UpdateSet (WReplicaSet (zero_native_set\<lparr>Name := ''old'',
        NReplicas := Some 7, NStatusAvailable := 10\<rparr>)), Event ''ScaleSuccess''] =
          g @ [UpdateSet u, Event ''ScaleSuccess''] \<and>
        ansUpdateSet (Srv sample_ctl) g u = Inr w' \<and>
        convertToSubset (Adp sample_ctl) u = ret s \<and> SpecReplicas s = 7"
proof (rule ScaleSubset_writes_count [of sample_ctl zero_ED])
  show "ScaleSubset sample_ctl zero_ED old_ten 7 [] =
    (Ok (), [GetSet ([], ''old''), UpdateSet (WReplicaSet (zero_native_set\<lparr>Name := ''old'',
        NReplicas := Some 7, NStatusAvailable := 10\<rparr>)), Event ''ScaleSuccess''])"
    by (simp add: sample_ctl_scale)
  show "subSetControls sample_ext ReplicaSetSubsetType = Some (Adp sample_ctl)" by simp
qed (auto simp: sample_ctl_def sample_set_def)

section \<open>Cleaning up unhealthy replicas\<close>

definition healthy_counts :: "subset \<Rightarrow> bool" where
  "healthy_counts ss \<longleftrightarrow> 0 \<le> StatusAvailable ss \<and> StatusAvailable ss \<le> SpecReplicas ss"

abbreviation spec_sum :: "subset list \<Rightarrow> int" where
  "spec_sum xs \<equiv> sum_list (map SpecReplicas xs)"

abbreviation avail_sum :: "subset list \<Rightarrow> int" where
  "avail_sum xs \<equiv> sum_list (map StatusAvailable xs)"

lemma healthy_sum_nonneg: "list_all healthy_counts xs \<Longrightarrow> 0 \<le> spec_sum xs"
  by (induction xs) (auto simp: healthy_counts_def)

text \<open>One step of the loop, with the arithmetic worked out.\<close>

lemma cleanup_arith:
  assumes "healthy_counts ss" and "SpecReplicas ss < 2147483648" and "0 \<le> t" and "t < m"
    and "m < 2147483648" and "SpecReplicas ss \<noteq> StatusAvailable ss"
    and "c = Int32Min (i32 (SpecReplicas ss - StatusAvailable ss)) (i32 (m - t))"
    and "n = i32 (SpecReplicas ss - c)"
  shows "0 < c" and "c \<le> m - t" and "n = SpecReplicas ss - c" and "StatusAvailable ss \<le> n"
proof -
  from assms have "i32 (SpecReplicas ss - StatusAvailable ss) = SpecReplicas ss - StatusAvailable ss"
    "i32 (m - t) = m - t"
    by (auto simp: healthy_counts_def intro!: i32_idI)
  with assms have c: "c = min (SpecReplicas ss - StatusAvailable ss) (m - t)" by simp
  with assms show "0 < c" "c \<le> m - t" by (auto simp: healthy_counts_def)
  with assms c show "n = SpecReplicas ss - c"
    by (auto simp: healthy_counts_def intro!: i32_idI)
  with c show "StatusAvailable ss \<le> n" by linarith
qed

lemma cleanupLoop_act:
  assumes "t < m" and "SpecReplicas ss \<noteq> StatusAvailable ss"
    and "c = Int32Min (i32 (SpecReplicas ss - StatusAvailable ss)) (i32 (m - t))"
    and "r = i32 (SpecReplicas ss - c)" and "r \<le> SpecReplicas ss"
    and "cleanupLoop C cd m (ss # sss) t h = (Ok (Inr n, every, kept), h')"
  obtains h1 h2 ev kp where "cleanupLoop C cd m sss (i32 (t + c)) h1 = (Ok (Inr n, ev, kp), h2)"
    "kept = (if r = 0 then kp else ss\<lparr>SpecReplicas := r\<rparr> # kp)"
proof -
  from assms(1,2,5,6) have
    "bind_io (attempt (if r = 0 then DeleteSubset C cd ss else ScaleSubset C cd ss r)) (\<lambda>d.
       (case d of
          Inl e \<Rightarrow> ret (Inl e, ss # sss, [])
        | Inr _ \<Rightarrow> bind_io (cleanupLoop C cd m sss (i32 (t + c))) (\<lambda>(x, every, kept).
            ret (x, (if r = 0 then ss else ss\<lparr>SpecReplicas := r\<rparr>) # every,
                 if r = 0 then kept else ss\<lparr>SpecReplicas := r\<rparr> # kept)))) h =
       (Ok (Inr n, every, kept), h')"
    unfolding cleanupLoop.simps Let_def assms(3,4) [symmetric] by (cases "r = 0") auto
  then obtain h1 h2 ev kp where
    "cleanupLoop C cd m sss (i32 (t + c)) h1 = (Ok (Inr n, ev, kp), h2)"
    "kept = (if r = 0 then kp else ss\<lparr>SpecReplicas := r\<rparr> # kp)"
    by (auto elim!: bind_OkE split: sum.splits)
  then show thesis by (rule that)
qed

lemma cleanupLoop_counts:
  assumes "cleanupLoop C cd m xs t h = (Ok (Inr n, every, kept), h')"
    and "list_all healthy_counts xs" and "0 \<le> t" and "t + spec_sum xs < 2147483648" and "m < 2147483648"
  shows "t \<le> n \<and> n \<le> max t m \<and> spec_sum kept = spec_sum xs - (n - t) \<and>
     avail_sum kept = avail_sum xs \<and> list_all healthy_counts kept"
  using assms
proof (induction xs arbitrary: t n every kept h h')
  case Nil
  then show ?case by simp
next
  case (Cons ss sss)
  define c where "c = Int32Min (i32 (SpecReplicas ss - StatusAvailable ss)) (i32 (m - t))"
  define r where "r = i32 (SpecReplicas ss - c)"
  have h12: "healthy_counts ss" "list_all healthy_counts sss" using Cons.prems(2) by simp_all
  then have "0 \<le> SpecReplicas ss" "0 \<le> spec_sum sss"
    using healthy_sum_nonneg by (simp_all add: healthy_counts_def)
  note h = h12 this
  have fits: "SpecReplicas ss < 2147483648" using Cons.prems(3,4) h by simp
  consider (stop) "t \<ge> m" | (skip) "t < m" "SpecReplicas ss = StatusAvailable ss"
    | (act) "t < m" "SpecReplicas ss \<noteq> StatusAvailable ss" by linarith
  then show ?case
  proof cases
    case stop
    with Cons.prems show ?thesis by auto
  next
    case skip
    with Cons.prems(1) obtain ev kp h1 where
      "cleanupLoop C cd m sss t h = (Ok (Inr n, ev, kp), h1)" "kept = ss # kp"
      by (auto elim!: bind_OkE)
    with Cons.IH [OF this(1)] skip Cons.prems h show ?thesis by auto
  next
    case act
    note a = cleanup_arith [OF h(1) fits Cons.prems(3) act(1) Cons.prems(5) act(2) c_def r_def]
    have "r \<le> SpecReplicas ss" using a by linarith
    from cleanupLoop_act [OF act c_def r_def this Cons.prems(1)] obtain h1 h2 ev kp where
      rec: "cleanupLoop C cd m sss (i32 (t + c)) h1 = (Ok (Inr n, ev, kp), h2)"
      and kept: "kept = (if r = 0 then kp else ss\<lparr>SpecReplicas := r\<rparr> # kp)" .
    have t': "i32 (t + c) = t + c"
      using a Cons.prems(3,5) act(1) by (intro i32_idI) linarith+
    have sum': "t + c + spec_sum sss < 2147483648"
      using a h(1) Cons.prems(4) by (simp add: healthy_counts_def)
    have ih: "t + c \<le> n \<and> n \<le> max (t + c) m \<and> spec_sum kp = spec_sum sss - (n - (t + c)) \<and>
        avail_sum kp = avail_sum sss \<and> list_all healthy_counts kp"
      using Cons.IH [OF rec] h(2) t' sum' a(1) Cons.prems(3,5) by simp
    show ?thesis
    proof (cases "r = 0")
      case True
      then have "StatusAvailable ss = 0" "SpecReplicas ss = c"
        using a h(1) by (auto simp: healthy_counts_def)
      with True kept ih a show ?thesis by auto
    next
      case False
      have "healthy_counts (ss\<lparr>SpecReplicas := r\<rparr>)"
        using a(4) h(1) by (simp add: healthy_counts_def)
      with False kept ih a(1-3) show ?thesis by auto
    qed
  qed
qed

text \<open>
  Cleaning up takes away at most the allowed number of replicas, the subsets it leaves have
  exactly that many replicas less, and no available replica is among those taken: the available
  replicas of the remaining subsets add up to the same number as before, and each of them still asks
  for at least as many replicas as it has available. A subset is deleted only when it has none.
\<close>

theorem cleanup_takes_only_unavailable:
  assumes "cleanupUnhealthyReplicas C cd m regionName k h = (Ok (Inr n, every, m'), h')"
    and "mget (regionInfoMap m) regionName = Some ri" and "list_all healthy_counts (Olds ri)"
    and "spec_sum (Olds ri) < 2147483648" and "k < 2147483648"
  shows "\<exists>ri'. mget (regionInfoMap m') regionName = Some ri' \<and> 0 \<le> n \<and> n \<le> max 0 k \<and>
     spec_sum (Olds ri') = spec_sum (Olds ri) - n \<and> avail_sum (Olds ri') = avail_sum (Olds ri) \<and>
     list_all healthy_counts (Olds ri')"
proof -
  let ?olds = "sort_by SubSetsByCreationTimestamp_Less (Olds ri)"
  have "mset (map f ?olds) = mset (map f (Olds ri))" for f :: "subset \<Rightarrow> int"
    by (simp only: mset_map mset_sort_by)
  then have sums: "sum_list (map f ?olds) = sum_list (map f (Olds ri))" for f :: "subset \<Rightarrow> int"
    by (metis sum_mset_sum_list)
  have healthy: "list_all healthy_counts ?olds"
    using assms(3) by (simp add: list_all_iff)
  from assms(1,2) obtain kept h1 where
    "cleanupLoop C cd k ?olds 0 h = (Ok (Inr n, every, kept), h1)"
    "m' = put_region regionName (ri\<lparr>Olds := kept\<rparr>) m"
    by (auto simp: cleanupUnhealthyReplicas_def elim!: bind_OkE split: sum.splits)
  with cleanupLoop_counts [OF this(1) healthy] assms(4,5) show ?thesis
    by (simp add: sums put_region_def)
qed

definition old_sick :: subset where
  "old_sick = zero_subset\<lparr>Name := ''old'', SpecReplicas := 10, StatusAvailable := 4\<rparr>"

definition sick_region :: subset_control where
  "sick_region = \<lparr>regionInfoMap = [(''r1'', zero_region_info\<lparr>Olds := [old_sick]\<rparr>)],
     autoScheduleSpec = None, allSubsets = [], unusedSubsets = []\<rparr>"

lemma sample_ctl_scale_sick:
  "ScaleSubset sample_ctl cd old_sick 7 h =
     (Ok (), h @ [GetSet ([], ''old''), UpdateSet (WReplicaSet (zero_native_set\<lparr>Name := ''old'',
        NReplicas := Some 7, NStatusAvailable := 10\<rparr>)), Event ''ScaleSuccess''])"
  by (simp add: ScaleSubset_def updateRetries_def eval_nat_numeral getSet_def updateSet_def
      sample_ctl_def sample_server_def sample_set_def adapter_defs objectKey_def old_sick_def
      zero_values io_defs)

theorem cleanup_takes_only_unavailable_witness:
  "\<exists>m' h' ri'. cleanupUnhealthyReplicas sample_ctl zero_ED sick_region ''r1'' 3 [] =
      (Ok (Inr 3, [old_sick\<lparr>SpecReplicas := 7\<rparr>], m'), h') \<and>
    mget (regionInfoMap m') ''r1'' = Some ri' \<and> 0 \<le> (3 :: int) \<and> (3 :: int) \<le> max 0 3 \<and>
    spec_sum (Olds ri') = spec_sum [old_sick] - 3 \<and> avail_sum (Olds ri') = avail_sum [old_sick] \<and>
    list_all healthy_counts (Olds ri')"
proof -
  have f: "SpecReplicas old_sick = 10" "StatusAvailable old_sick = 4"
    by (simp_all add: old_sick_def zero_values)
  obtain m' h' where run: "cleanupUnhealthyReplicas sample_ctl zero_ED sick_region ''r1'' 3 [] =
      (Ok (Inr 3, [old_sick\<lparr>SpecReplicas := 7\<rparr>], m'), h')"
    by (simp add: cleanupUnhealthyReplicas_def sick_region_def f i32_def sample_ctl_scale_sick
        zero_region_info_def bind_io_def attempt_def ret_def Let_def)
  with cleanup_takes_only_unavailable [OF run, of "zero_region_info\<lparr>Olds := [old_sick]\<rparr>"]
  show ?thesis
    by (simp add: sick_region_def f healthy_counts_def zero_region_info_def)
qed

section \<open>Creating a subset always panics\<close>

text \<open>
  In a region without a new subset \<open>NewSubset\<close> never returns: either it fails before the
  creation, or the creation succeeds and the log line after it dereferences the nil \<open>ri.New\<close>. The
  rollout of the region goes on only in the next reconciliation, which finds the created workload.
\<close>

theorem NewSubset_never_returns:
  assumes "New ri = None"
  shows "\<forall>h r h'. NewSubset C cd ri replicas h \<noteq> (Ok r, h')"
  using assms by (auto simp: NewSubset_def elim!: bind_OkE split: sum.splits)

definition fresh_region :: region_info where
  "fresh_region = zero_region_info\<lparr>Region := Some \<lparr>Name = ''r1'', Namespace = [], UID = [],
     CreationTimestamp = 0, DeletionTimestamp = None, Generation = 0, Labels = [], Annotations = [],
     OwnerReferences = [], RegionMatchLabels = [(''zone'', ''r1'')]\<rparr>, DesiredReplicas := 2\<rparr>"

definition app :: extended_deployment where
  "app = zero_ED\<lparr>Name := ''app'', Spec := zero_ed_spec\<lparr>
     Selector := Some \<lparr>MatchLabels = [(''app'', ''a'')], MatchExpressions = []\<rparr>\<rparr>\<rparr>"

lemma fresh_region_new: "New fresh_region = None"
  by (simp add: fresh_region_def zero_values)

theorem NewSubset_never_returns_witness:
  "(\<forall>h r h'. NewSubset sample_ctl app fresh_region 2 h \<noteq> (Ok r, h')) \<and>
   (\<exists>w e h'. NewSubset sample_ctl app fresh_region 2 [] = (Panic e, h') \<and> CreateSet w \<in> set h')"
proof -
  have "\<exists>w e h'. NewSubset sample_ctl app fresh_region 2 [] = (Panic e, h') \<and> CreateSet w \<in> set h'"
    by (simp add: NewSubset_def CreateSubset_def fresh_region_def app_def maxRevisionForSubsets_def
        sample_ctl_def adapter_defs ReplicaSet_ApplySubsetTemplate_def nextNameHash_def sample_server_def
        CloneSelectorAndAddLabel_def PodTemplateHashLabel_def set_meta_def convertToSubset_def
        ApplyOverridePolicies_def zero_values Let_def io_defs)
  with NewSubset_never_returns [OF fresh_region_new] show ?thesis by blast
qed

section \<open>Scaling down old subsets\<close>

text \<open>
  The scale-down of \<open>regionSyncOnce\<close> skips every old subset it would have to empty: when the
  old subsets together have no more replicas than must go, no request is sent at all.
\<close>

theorem emptied_olds_are_not_scaled:
  assumes "spec_sum olds \<le> need" and "need < 2147483648" and "\<forall>ss \<in> set olds. 0 \<le> SpecReplicas ss"
  shows "scaleDownOlds C cd need olds = ret ()"
  using assms
proof (induction olds arbitrary: need)
  case Nil
  then show ?case by simp
next
  case (Cons ss sss)
  have "0 \<le> spec_sum sss" using Cons.prems(3) by (intro sum_list_nonneg) auto
  moreover from this have "i32 (need - SpecReplicas ss) = need - SpecReplicas ss"
    using Cons.prems by (intro i32_idI) auto
  moreover have "scaleDownOlds C cd (need - SpecReplicas ss) sss = ret ()"
    using Cons.prems by (intro Cons.IH) auto
  ultimately show ?case using Cons.prems by simp
qed

theorem emptied_olds_are_not_scaled_witness:
  "scaleDownOlds sample_ctl zero_ED 10 [old_ten] = ret ()"
  by (rule emptied_olds_are_not_scaled) simp_all

text \<open>
  The rolling update counts the replicas asked for as available ones. Ten replicas are desired,
  none may be unavailable; the old subset has ten available replicas, the new one was scaled to
  three of which one is available.
\<close>

definition new_three :: subset where
  "new_three = zero_subset\<lparr>Name := ''new'', SpecReplicas := 3, StatusAvailable := 1\<rparr>"

definition rolling_region :: region_info where
  "rolling_region = zero_region_info\<lparr>New := Some new_three, Olds := [old_ten], DesiredReplicas := 10\<rparr>"

definition rolling_control :: subset_control where
  "rolling_control = \<lparr>regionInfoMap = [(''r1'', rolling_region)],
     autoScheduleSpec = None, allSubsets = [], unusedSubsets = []\<rparr>"

lemma rolling_fields [simp]:
  "SpecReplicas new_three = 3" "StatusAvailable new_three = 1"
  "Olds rolling_region = [old_ten]" "DesiredReplicas rolling_region = 10"
  by (simp_all add: new_three_def rolling_region_def zero_values)

lemma surge_three_unavailable: "MaxUnavailable surge_three rolling_region = ret 0"
  by (simp add: MaxUnavailable_def rollingParams_def ResolveFenceposts_def
      GetValueFromIntOrPercent_def ValueOrDefault_def getIntOrPercentValue_def Let_def)

text \<open>
  A rolling update can take the region below its minimum of available replicas. With a
  minimum of ten available replicas, ten available old ones and one available new one, the old
  subset is scaled to seven: at most eight replicas stay available.
\<close>

theorem rolling_update_undershoots:
  "\<exists>m' h'. MaxUnavailable surge_three rolling_region = ret 0 \<and>
     reconcileOldSubsets sample_ctl surge_three rolling_control ([old_ten] @ [new_three]) [old_ten]
       new_three rolling_region ''r1'' [] = (Ok (True, m'), h') \<and>
     UpdateSet (WReplicaSet (zero_native_set\<lparr>Name := ''old'', NReplicas := Some 7,
        NStatusAvailable := 10\<rparr>)) \<in> set h' \<and>
     7 + StatusAvailable new_three < DesiredReplicas rolling_region"
proof -
  have cleanup: "cleanupUnhealthyReplicas sample_ctl surge_three rolling_control ''r1'' 1 [] =
      (Ok (Inr 0, [old_ten], rolling_control), [])"
    by (simp add: cleanupUnhealthyReplicas_def rolling_control_def put_region_def mset_key_def
        rolling_region_def zero_values bind_io_def ret_def)
  have down: "scaleDownOldSubsetsForRollingUpdate sample_ctl surge_three ([old_ten] @ [new_three])
      [old_ten] rolling_region [] =
      (Ok 3, [GetSet ([], ''old''), UpdateSet (WReplicaSet (zero_native_set\<lparr>Name := ''old'',
        NReplicas := Some 7, NStatusAvailable := 10\<rparr>)), Event ''ScaleSuccess''])"
    by (simp add: scaleDownOldSubsetsForRollingUpdate_def surge_three_unavailable GetReplicasCount_def
        sum32_eq i32_def Let_def sample_ctl_scale bind_io_def ret_def)
  show ?thesis
    using cleanup down surge_three_unavailable
    by (simp add: reconcileOldSubsets_def GetReplicasCount_def sum32_eq i32_def Let_def
        bind_io_def attempt_def rolling_control_def ret_def deref_def)
qed

section \<open>Deleting everything first\<close>

lemma emits_scaleDownAll:
  assumes "valid_ctl C"
  shows "emits keeps_sets (scaleDownOldReplicaSetsForDeleteAllFirst C cd olds)"
  using assms
  by (induction C cd olds rule: scaleDownOldReplicaSetsForDeleteAllFirst.induct)
    (auto intro!: emits_intros emits_ScaleSubset)

lemma scaleDownAll_True:
  "scaleDownOldReplicaSetsForDeleteAllFirst C cd olds h = (Ok b, h') \<Longrightarrow>
     b = (\<exists>ss \<in> set olds. SpecReplicas ss \<noteq> 0)"
  by (induction C cd olds arbitrary: h b h' rule: scaleDownOldReplicaSetsForDeleteAllFirst.induct)
    (fastforce elim!: bind_OkE split: if_splits)+

lemma emits_oldPodsLoop: "emits keeps_sets (oldPodsLoop C olds errs)"
  by (induction C olds errs rule: oldPodsLoop.induct)
    (auto simp: Let_def intro!: emits_intros split: sum.split)

text \<open>A pod of \<open>old\<close> is listed, whenever its pods are listed.\<close>

definition pods_found :: "ctl \<Rightarrow> subset \<Rightarrow> bool" where
  "pods_found C old \<longleftrightarrow> (\<exists>sel. LabelSelectorAsSelector (Ext C) (SubSelector old) = Inr sel \<and>
     (\<forall>h. \<exists>pods. ansListPods (Srv C) h ([], SelString sel) = Inr pods \<and>
        (\<exists>pod \<in> set pods. IsControlledBy pod old)))"

lemma oldPodsLoop_found:
  assumes "old \<in> set olds" and "pods_found C old" and "oldPodsLoop C olds errs h = (Ok b, h')"
  shows "b"
  using assms
proof (induction C olds errs arbitrary: h h' rule: oldPodsLoop.induct)
  case (1 C errs)
  then show ?case by simp
next
  case (2 C o' olds errs)
  show ?case
  proof (cases "LabelSelectorAsSelector (Ext C) (SubSelector o')")
    case (Inl e)
    with "2.prems" have "old \<in> set olds" by (auto simp: pods_found_def)
    with Inl "2.IH"(1) "2.prems" show ?thesis by auto
  next
    case (Inr sel)
    note sel = Inr
    show ?thesis
    proof (cases "ansListPods (Srv C) h ([], SelString sel)")
      case (Inl e)
      then have "old \<in> set olds"
        using "2.prems"(1,2) sel by (auto simp: pods_found_def) (metis sum.distinct(1))
      moreover have "oldPodsLoop C olds (errs @ [e]) (h @ [ListPods ([], SelString sel)]) = (Ok b, h')"
        using Inl sel "2.prems"(3) by (simp add: Let_def bind_io_def attempt_def call_def)
      ultimately show ?thesis using sel "2.IH"(2) "2.prems"(2) by blast
    next
      case (Inr pods)
      show ?thesis
      proof (cases "list_ex (\<lambda>pod. IsControlledBy pod o') pods")
        case True
        with Inr sel "2.prems"(3) show ?thesis
          by (auto simp: Let_def bind_io_def attempt_def call_def)
      next
        case False
        then have "old \<in> set olds"
          using "2.prems"(1,2) sel Inr by (auto simp: pods_found_def list_ex_iff) (metis sum.inject(2))
        moreover have "oldPodsLoop C olds errs (h @ [ListPods ([], SelString sel)]) = (Ok b, h')"
          using False Inr sel "2.prems"(3) by (simp add: Let_def bind_io_def attempt_def call_def)
        ultimately show ?thesis using False sel "2.IH"(3) "2.prems"(2) by blast
      qed
    qed
  qed
qed

text \<open>
  C11: with the delete-first strategy no new workload is created in a region, and none deleted,
  while an old subset of the region asks for replicas, reports replicas or available replicas, or
  still has a pod of its own.
\<close>

theorem delete_first_waits_for_old_pods:
  assumes "valid_ctl C" and "mget (regionInfoMap m) regionName = Some ri"
    and "(\<exists>ss \<in> set (Olds ri). SpecReplicas ss \<noteq> 0) \<or> getActualReplicaCountForSubets (Olds ri) > 0 \<or>
      getAvailableReplicaCountForSubsets (Olds ri) > 0 \<or> (\<exists>ss \<in> set (Olds ri). pods_found C ss)"
  shows "emits keeps_sets (rolloutDeleteAllFirst C cd m regionName)"
proof -
  have running: "r = True" if "oldPodsRunning C (Olds ri) ri h = (Ok r, h')"
    and "\<not> (\<exists>ss \<in> set (Olds ri). SpecReplicas ss \<noteq> 0)" for r h h'
    using assms(3) that oldPodsLoop_found by (auto simp: oldPodsRunning_def split: if_splits)
  have "emits keeps_sets (oldPodsRunning C (Olds ri) ri)"
    by (auto simp: oldPodsRunning_def intro!: emits_intros emits_oldPodsLoop)
  then show ?thesis
    using assms(1,2) running
    by (auto simp: rolloutDeleteAllFirst_def dest!: scaleDownAll_True
        intro!: emits_bind_ok emits_if emits_ret emits_scaleDownAll)
qed

theorem delete_first_waits_for_old_pods_witness:
  "emits keeps_sets (rolloutDeleteAllFirst sample_ctl zero_ED rolling_control ''r1'')"
  by (rule delete_first_waits_for_old_pods [where ri = rolling_region])
    (simp_all add: rolling_control_def)

end
