(* ===== verification/Conditions.thy ===== *)
theory Conditions
  imports Utils
begin

text \<open>
  Status conditions: \<open>SetDeploymentCondition\<close> of \<open>pkg/utils/deployment_util.go\<close> for
  ExtendedDeployments and \<open>SetCondition\<close> of \<open>inplaceset/controller.go\<close> for InplaceSets, with
  the contract both keep stated as a locale. The clock is read through the API server record.
\<close>

section \<open>Definitions\<close>

text \<open>Points in time are nanoseconds since the epoch, and so are durations.\<close>

definition Second :: int where
  "Second = 1000000000"

definition now :: "server \<Rightarrow> int action" where
  "now S = call Now (\<lambda>h. Inr (ansNow S h))"

text \<open>\<open>time.Now().Unix()\<close>.\<close>

definition nowUnix :: "server \<Rightarrow> int action" where
  "nowUnix S = bind_io (now S) (\<lambda>n. ret (n div Second))"

definition get_cond :: "'a condition_scheme list \<Rightarrow> string \<Rightarrow> 'a condition_scheme option" where
  "get_cond cs typ = find (\<lambda>c. CondType c = typ) cs"

definition filterOutCondition :: "'a condition_scheme list \<Rightarrow> string \<Rightarrow> 'a condition_scheme list" where
  "filterOutCondition cs condType = filter (\<lambda>c. CondType c \<noteq> condType) cs"

definition NewDeploymentCondition ::
    "server \<Rightarrow> string \<Rightarrow> cond_status \<Rightarrow> string \<Rightarrow> string \<Rightarrow> deployment_condition action" where
  "NewDeploymentCondition S condType status reason message =
     bind_io (now S) (\<lambda>t1. bind_io (now S) (\<lambda>t2.
     ret \<lparr>CondType = condType, CondStatus = status, CondReason = reason, CondMessage = message,
       LastTransitionTime = t2, LastUpdateTime = t1\<rparr>))"

definition GetDeploymentCondition :: "ed_status \<Rightarrow> string \<Rightarrow> deployment_condition option" where
  "GetDeploymentCondition status condType = get_cond (Conditions status) condType"

text \<open>The list that \<open>SetDeploymentCondition\<close> leaves.\<close>

definition set_deployment_cond ::
    "deployment_condition list \<Rightarrow> deployment_condition \<Rightarrow> deployment_condition list" where
  "set_deployment_cond cs condition = (case get_cond cs (CondType condition) of
     Some cur \<Rightarrow>
       (if CondStatus cur = CondStatus condition \<and> CondReason cur = CondReason condition then cs
        else
          (let condition = (if CondStatus cur = CondStatus condition
                 then condition\<lparr>LastTransitionTime := LastTransitionTime cur\<rparr> else condition)
           in filterOutCondition cs (CondType condition) @ [condition]))
   | None \<Rightarrow> filterOutCondition cs (CondType condition) @ [condition])"

definition SetDeploymentCondition :: "ed_status \<Rightarrow> deployment_condition \<Rightarrow> ed_status" where
  "SetDeploymentCondition status condition =
     status\<lparr>Conditions := set_deployment_cond (Conditions status) condition\<rparr>"

definition NewReplicaSetCondition ::
    "server \<Rightarrow> string \<Rightarrow> cond_status \<Rightarrow> string \<Rightarrow> string \<Rightarrow> condition action" where
  "NewReplicaSetCondition S condType status reason msg =
     bind_io (now S) (\<lambda>t. ret \<lparr>CondType = condType, CondStatus = status, CondReason = reason,
       CondMessage = msg, LastTransitionTime = t\<rparr>)"

definition GetCondition :: "inplaceset_status \<Rightarrow> string \<Rightarrow> condition option" where
  "GetCondition status condType = get_cond (ISConditions status) condType"

definition set_ips_cond :: "condition list \<Rightarrow> condition \<Rightarrow> condition list" where
  "set_ips_cond cs condition = (case get_cond cs (CondType condition) of
     Some cur \<Rightarrow>
       (if CondStatus cur = CondStatus condition \<and> CondReason cur = CondReason condition then cs
        else filterOutCondition cs (CondType condition) @ [condition])
   | None \<Rightarrow> filterOutCondition cs (CondType condition) @ [condition])"

definition SetCondition :: "inplaceset_status \<Rightarrow> condition \<Rightarrow> inplaceset_status" where
  "SetCondition status condition =
     status\<lparr>ISConditions := set_ips_cond (ISConditions status) condition\<rparr>"

definition RemoveCondition :: "inplaceset_status \<Rightarrow> string \<Rightarrow> inplaceset_status" where
  "RemoveCondition status condType =
     status\<lparr>ISConditions := filterOutCondition (ISConditions status) condType\<rparr>"

lemma emits_now [emits_intros]: "P Now \<Longrightarrow> emits P (now S)"
  unfolding now_def by (intro emits_intros)

lemma succeeds_now [succeeds_intros]: "succeeds (now S)"
  unfolding now_def by (intro succeeds_intros) simp

lemma emits_nowUnix [emits_intros]: "P Now \<Longrightarrow> emits P (nowUnix S)"
  unfolding nowUnix_def by (intro emits_intros)

section \<open>The contract\<close>

lemma find_append: "find P (xs @ ys) = (case find P xs of None \<Rightarrow> find P ys | Some x \<Rightarrow> Some x)"
  by (induction xs) auto

lemma get_cond_filter [simp]:
  "get_cond (filterOutCondition cs t) u = (if u = t then None else get_cond cs u)"
  unfolding get_cond_def filterOutCondition_def by (induction cs) auto

lemma get_cond_append:
  "get_cond (cs @ [c]) t = (case get_cond cs t of None \<Rightarrow> if CondType c = t then Some c else None
     | Some x \<Rightarrow> Some x)"
  by (simp add: get_cond_def find_append split: option.split)

lemma get_cond_type: "get_cond cs t = Some c \<Longrightarrow> CondType c = t"
  by (auto simp: get_cond_def find_Some_iff)

text \<open>
  What a list of conditions with a setter promises: after setting a condition the list holds one of
  its type with its status and reason, the conditions of other types are untouched, no type is
  there twice, and setting what is already there changes nothing.
\<close>

locale condition_list =
  fixes setc :: "'a condition_scheme list \<Rightarrow> 'a condition_scheme \<Rightarrow> 'a condition_scheme list"
  assumes get_set: "\<exists>d. get_cond (setc cs c) (CondType c) = Some d \<and>
           CondStatus d = CondStatus c \<and> CondReason d = CondReason c"
    and get_set_other: "t \<noteq> CondType c \<Longrightarrow> get_cond (setc cs c) t = get_cond cs t"
    and set_types: "distinct (map CondType cs) \<Longrightarrow> distinct (map CondType (setc cs c))"
    and set_same: "get_cond cs (CondType c) = Some d \<Longrightarrow> CondStatus d = CondStatus c \<Longrightarrow>
           CondReason d = CondReason c \<Longrightarrow> setc cs c = cs"
begin

lemma set_idempotent: "setc (setc cs c) c = setc cs c"
  using get_set [of cs c] set_same by blast

lemma set_list_distinct: "distinct (map CondType (fold (\<lambda>c cs. setc cs c) news []))"
proof -
  have "distinct (map CondType cs) \<Longrightarrow> distinct (map CondType (fold (\<lambda>c cs. setc cs c) news cs))" for cs
    by (induction news arbitrary: cs) (auto intro: set_types)
  then show ?thesis by simp
qed

end

lemma distinct_filter_types [simp]:
  "distinct (map CondType cs) \<Longrightarrow> distinct (map CondType (filterOutCondition cs t))"
  by (simp add: filterOutCondition_def distinct_map_filter)

lemma types_filter [simp]: "t \<notin> CondType ` set (filterOutCondition cs t)"
  by (auto simp: filterOutCondition_def)

lemma deploy_get_set:
  "\<exists>d. get_cond (set_deployment_cond cs c) (CondType c) = Some d \<and>
     CondStatus d = CondStatus c \<and> CondReason d = CondReason c"
proof (cases "get_cond cs (CondType c)")
  case None
  then have "get_cond (set_deployment_cond cs c) (CondType c) = Some c"
    by (simp add: set_deployment_cond_def get_cond_append)
  then show ?thesis by blast
next
  case (Some cur)
  show ?thesis
  proof (cases "CondStatus cur = CondStatus c \<and> CondReason cur = CondReason c")
    case True
    with Some have "get_cond (set_deployment_cond cs c) (CondType c) = Some cur"
      by (simp add: set_deployment_cond_def)
    with True show ?thesis by blast
  next
    case False
    define d where "d = (if CondStatus cur = CondStatus c
      then c\<lparr>LastTransitionTime := LastTransitionTime cur\<rparr> else c)"
    have d: "CondType d = CondType c" "CondStatus d = CondStatus c" "CondReason d = CondReason c"
      by (simp_all add: d_def)
    have "set_deployment_cond cs c = filterOutCondition cs (CondType c) @ [d]"
      using Some False d(1) by (auto simp: set_deployment_cond_def d_def Let_def)
    with d show ?thesis by (simp add: get_cond_append)
  qed
qed

lemma deploy_get_set_other:
  "t \<noteq> CondType c \<Longrightarrow> get_cond (set_deployment_cond cs c) t = get_cond cs t"
  by (auto simp: set_deployment_cond_def get_cond_append Let_def split: option.split)

lemma deploy_set_types:
  "distinct (map CondType cs) \<Longrightarrow> distinct (map CondType (set_deployment_cond cs c))"
  by (auto simp: set_deployment_cond_def Let_def split: option.split)

lemma deploy_set_same:
  "get_cond cs (CondType c) = Some d \<Longrightarrow> CondStatus d = CondStatus c \<Longrightarrow>
     CondReason d = CondReason c \<Longrightarrow> set_deployment_cond cs c = cs"
  by (simp add: set_deployment_cond_def)

interpretation deploy_conds: condition_list set_deployment_cond
  by unfold_locales (fact deploy_get_set deploy_get_set_other deploy_set_types deploy_set_same)+

interpretation ips_conds: condition_list set_ips_cond
proof
  fix cs c
  show "\<exists>d. get_cond (set_ips_cond cs c) (CondType c) = Some d \<and>
     CondStatus d = CondStatus c \<and> CondReason d = CondReason c"
    by (auto simp: set_ips_cond_def get_cond_append split: option.splits)
  show "get_cond (set_ips_cond cs c) t = get_cond cs t" if "t \<noteq> CondType c" for t
    using that by (auto simp: set_ips_cond_def get_cond_append split: option.splits)
  show "distinct (map CondType (set_ips_cond cs c))" if "distinct (map CondType cs)"
    unfolding set_ips_cond_def
    using that by (auto split: option.split)
  show "set_ips_cond cs c = cs" if "get_cond cs (CondType c) = Some d"
    "CondStatus d = CondStatus c" "CondReason d = CondReason c" for d
    using that by (simp add: set_ips_cond_def)
qed

text \<open>
  Setting a condition of an ExtendedDeployment: reading it back gives its status and reason,
  every other condition is untouched, no type occurs twice if none did before, and setting it a
  second time changes nothing.
\<close>

theorem SetDeploymentCondition_contract:
  "(\<exists>d. GetDeploymentCondition (SetDeploymentCondition st c) (CondType c) = Some d \<and>
      CondStatus d = CondStatus c \<and> CondReason d = CondReason c) \<and>
   (\<forall>t. t \<noteq> CondType c \<longrightarrow> GetDeploymentCondition (SetDeploymentCondition st c) t = GetDeploymentCondition st t) \<and>
   (distinct (map CondType (Conditions st)) \<longrightarrow>
      distinct (map CondType (Conditions (SetDeploymentCondition st c)))) \<and>
   SetDeploymentCondition (SetDeploymentCondition st c) c = SetDeploymentCondition st c"
  by (simp add: GetDeploymentCondition_def SetDeploymentCondition_def deploy_conds.get_set
      deploy_conds.get_set_other deploy_conds.set_types deploy_conds.set_idempotent)

definition sample_cond :: deployment_condition where
  "sample_cond = \<lparr>CondType = ''Progressing'', CondStatus = ConditionTrue, CondReason = ''NotAllRegionSynced'',
     CondMessage = [], LastTransitionTime = 7, LastUpdateTime = 7\<rparr>"

theorem SetDeploymentCondition_contract_witness:
  "distinct (map CondType (Conditions zero_ed_status)) \<and>
   distinct (map CondType (Conditions (SetDeploymentCondition zero_ed_status sample_cond))) \<and>
   GetDeploymentCondition (SetDeploymentCondition zero_ed_status sample_cond) ''Available'' =
     GetDeploymentCondition zero_ed_status ''Available''"
  using SetDeploymentCondition_contract [of zero_ed_status sample_cond]
  by (simp add: zero_values sample_cond_def)

text \<open>
  The transition time of a condition of an ExtendedDeployment moves only when its status does:
  a new reason with the same status keeps the old transition time.
\<close>

theorem transition_time_kept:
  assumes "GetDeploymentCondition st (CondType c) = Some cur" and "CondStatus cur = CondStatus c"
  shows "\<exists>d. GetDeploymentCondition (SetDeploymentCondition st c) (CondType c) = Some d \<and>
     LastTransitionTime d = LastTransitionTime cur"
  using assms
  by (auto simp: GetDeploymentCondition_def SetDeploymentCondition_def set_deployment_cond_def
      get_cond_append Let_def)

theorem transition_time_kept_witness:
  "\<exists>d. GetDeploymentCondition (SetDeploymentCondition (zero_ed_status\<lparr>Conditions := [sample_cond]\<rparr>)
       (sample_cond\<lparr>CondReason := ''other'', LastTransitionTime := 9\<rparr>)) (CondType sample_cond) = Some d \<and>
     LastTransitionTime d = LastTransitionTime sample_cond"
  using transition_time_kept [of "zero_ed_status\<lparr>Conditions := [sample_cond]\<rparr>"
      "sample_cond\<lparr>CondReason := ''other'', LastTransitionTime := 9\<rparr>" sample_cond]
  by (simp add: GetDeploymentCondition_def get_cond_def sample_cond_def)

end
