(* ===== verification/Status.thy ===== *)
theory Status
  imports Rollout Conditions
begin

text \<open>
  \<open>extendeddeployment/update.go\<close>: writing annotations and status back, the status of an
  ExtendedDeployment, and the clean-up once every region is saturated.
\<close>

section \<open>Reading and writing the ExtendedDeployment\<close>

text \<open>\<open>utils.QueryExtendedDeployment\<close>: an object that does not exist is nil without an error.\<close>

definition QueryExtendedDeployment :: "server \<Rightarrow> nskey \<Rightarrow> extended_deployment option action" where
  "QueryExtendedDeployment S key =
     bind_io (attempt (call (GetED key) (\<lambda>h. ansGetED S h key))) (\<lambda>r. (case r of
        Inl NotFound \<Rightarrow> ret None
      | Inl e \<Rightarrow> fail e
      | Inr cd \<Rightarrow> ret (Some cd)))"

definition updateED :: "server \<Rightarrow> extended_deployment \<Rightarrow> unit action" where
  "updateED S cd = call (UpdateED cd) (\<lambda>h. ansUpdateED S h cd)"

definition updateEDStatus :: "server \<Rightarrow> extended_deployment \<Rightarrow> unit action" where
  "updateEDStatus S cd = call (UpdateEDStatus cd) (\<lambda>h. ansUpdateEDStatus S h cd)"

text \<open>The object is read again for each try and dereferenced without a nil check.\<close>

definition updateAnnotations :: "server \<Rightarrow> extended_deployment \<Rightarrow> unit action" where
  "updateAnnotations S deploy =
     retryOnConflict DefaultBackoffSteps (
       bind_io (QueryExtendedDeployment S (objectKey deploy)) (\<lambda>p.
       bind_io (deref p) (\<lambda>cd.
       updateED S (cd\<lparr>Annotations := Annotations deploy\<rparr>))))"

section \<open>The label selector of the status\<close>

definition newRequirement :: "string \<Rightarrow> sel_operator \<Rightarrow> string list \<Rightarrow> string \<times> sel_operator \<times> string list" where
  "newRequirement key op vals = (key, op, vals)"

fun selectorOperator :: "selector_op \<Rightarrow> err + sel_operator" where
  "selectorOperator OpIn = Inr SelIn"
| "selectorOperator OpNotIn = Inr SelNotIn"
| "selectorOperator OpExists = Inr SelExists"
| "selectorOperator OpDoesNotExist = Inr SelDoesNotExist"
| "selectorOperator (OpOther s) = Inl (Msg ''not a valid pod selector operator'')"

fun addExpressions :: "label_requirement list \<Rightarrow> (string \<times> sel_operator \<times> string list) list \<Rightarrow>
    err + (string \<times> sel_operator \<times> string list) list" where
  "addExpressions [] acc = Inr acc"
| "addExpressions (expr # exprs) acc = (case selectorOperator (ReqOp expr) of
     Inl e \<Rightarrow> Inl e
   | Inr op \<Rightarrow> addExpressions exprs (acc @ [newRequirement (ReqKey expr) op (ReqValues expr)]))"

definition ValidatedLabelSelectorAsSelector :: "label_selector option \<Rightarrow> err + label_sel" where
  "ValidatedLabelSelectorAsSelector ps = (case ps of
     None \<Rightarrow> Inr LabelsNothing
   | Some s \<Rightarrow>
       (if length (MatchLabels s) + length (MatchExpressions s) = 0 then Inr LabelsEverything
        else (case addExpressions (MatchExpressions s)
                (map (\<lambda>(k, v). newRequirement k SelEquals [v]) (MatchLabels s)) of
           Inl e \<Rightarrow> Inl e | Inr rs \<Rightarrow> Inr (LabelsReqs rs))))"

section \<open>The status\<close>

definition statusNormal :: string where "statusNormal = ''[Normal]''"
definition statusRegionFailure :: string where "statusRegionFailure = ''[Failure]''"
definition statusRegionInsufficient :: string where "statusRegionInsufficient = ''[Insufficient]''"
definition syncWaitTimout :: int where "syncWaitTimout = 300"
definition DeploymentProgressing :: string where "DeploymentProgressing = ''Progressing''"

definition newList :: "region_info \<Rightarrow> subset list" where
  "newList info = (case New info of None \<Rightarrow> [] | Some ss \<Rightarrow> [ss])"

definition regionStatus :: "string \<times> region_info \<Rightarrow> region_status" where
  "regionStatus nr = (case nr of (regionName, info) \<Rightarrow>
     let regionAllISs = Olds info @ newList info;
         availableReplicas = getAvailableReplicaCountForSubsets regionAllISs
     in \<lparr>StRegionName = regionName, StReplicas = getActualReplicaCountForSubets regionAllISs,
         StUpdatedReplicas = getActualReplicaCountForSubets (newList info),
         StReadyReplicas = getReadyReplicaCountForSubsets regionAllISs,
         StAvailableReplicas = availableReplicas,
         StUnavailableReplicas = i32 (getReplicaCountForSubsets regionAllISs - availableReplicas)\<rparr>)"

definition regionLine :: "string \<times> region_info \<Rightarrow> string" where
  "regionLine nr = fst nr @ '': '' @ Itoa (StReplicas (regionStatus nr)) @ ''/'' @
     Itoa (ConfiguredReplicas (snd nr))"

definition allRegionSynced :: "region_info gomap \<Rightarrow> bool" where
  "allRegionSynced regionInfos \<longleftrightarrow>
     list_all (\<lambda>nr. ReplicasDesired (snd nr) \<and> AvailableDesired (snd nr)) regionInfos"

definition overviewPrefix :: "ext \<Rightarrow> extended_deployment \<Rightarrow> string" where
  "overviewPrefix X deploy = (case GetAutoScheduleSpec X (Annotations deploy) of
     Inr (Some spec) \<Rightarrow>
       (if FailureRegion spec \<noteq> [] then statusRegionFailure else statusRegionInsufficient)
   | _ \<Rightarrow> statusNormal)"

text \<open>Whether the current term has run out of time; the clock is read only once a term has started.\<close>

definition termTimedOut :: "server \<Rightarrow> extended_deployment \<Rightarrow> string \<Rightarrow> bool action" where
  "termTimedOut S deploy lastTermStartTime =
     (let t = fst (ParseInt lastTermStartTime 64);
          termTimeout = (if SyncWaitTimeout (Strategy (Spec deploy)) = 0 then syncWaitTimout
                         else SyncWaitTimeout (Strategy (Spec deploy)))
      in if t = 0 then ret False
         else bind_io (nowUnix S) (\<lambda>n. ret (i64 (n - t) > termTimeout)))"

definition calculateStatus ::
    "server \<Rightarrow> ext \<Rightarrow> extended_deployment \<Rightarrow> region_info gomap \<Rightarrow> ed_status action" where
  "calculateStatus S X deploy regionInfos =
     (let regions = map regionStatus regionInfos;
          status = \<lparr>TotalReplicas = sum32 StReplicas regions, LabelSelectorStr = [],
            StatusRegions = regions, Conditions = Conditions (Status deploy),
            CollisionCount = CollisionCount (Status deploy),
            Overview = overviewPrefix X deploy @
              Join (sort_by (<) (map regionLine regionInfos)) ''; '',
            LastTermStartTime = LastTermStartTime (Status deploy)\<rparr>
      in bind_io (if allRegionSynced regionInfos
           then NewDeploymentCondition S DeploymentProgressing ConditionFalse
             ''AllRegionSynced'' ''all region is synced''
           else bind_io (termTimedOut S deploy (LastTermStartTime status)) (\<lambda>late.
             if late
             then NewDeploymentCondition S DeploymentProgressing ConditionFalse
               ''SyncWaitTimeout'' ''sync wait timeout''
             else NewDeploymentCondition S DeploymentProgressing ConditionTrue
               ''NotAllRegionSynced'' ''not all region is synced'')) (\<lambda>c.
         let status = SetDeploymentCondition status c
         in ret (case ValidatedLabelSelectorAsSelector (Selector (Spec deploy)) of
              Inl _ \<Rightarrow> status
            | Inr sel \<Rightarrow> status\<lparr>LabelSelectorStr := SelectorString X sel\<rparr>)))"

definition UpdateProgressing :: "server \<Rightarrow> extended_deployment \<Rightarrow> unit action" where
  "UpdateProgressing S deploy =
     retryOnConflict DefaultBackoffSteps (
       bind_io (QueryExtendedDeployment S (objectKey deploy)) (\<lambda>p.
       bind_io (NewDeploymentCondition S DeploymentProgressing ConditionTrue
         ''NotAllRegionSynced'' ''not all region is synced'') (\<lambda>c.
       bind_io (deref p) (\<lambda>cd.
       updateEDStatus S (cd\<lparr>Status := SetDeploymentCondition (Status cd) c\<rparr>)))))"

text \<open>
  \<open>SyncStatusOnly\<close>. The comparison before the write is between a pointer to the new status and
  the old status itself, values of different types, which \<open>reflect.DeepEqual\<close> never finds equal;
  so the write always happens.
\<close>

definition SyncStatusOnly :: "server \<Rightarrow> ext \<Rightarrow> extended_deployment \<Rightarrow> region_info gomap \<Rightarrow> bool \<Rightarrow> bool \<Rightarrow>
    unit action" where
  "SyncStatusOnly S X deploy regionInfos refreshTime saturated =
     bind_io (if saturated then ret []
       else if refreshTime \<or> LastTermStartTime (Status deploy) = []
       then bind_io (nowUnix S) (\<lambda>n. ret (Itoa n))
       else ret (LastTermStartTime (Status deploy))) (\<lambda>start.
     retryOnConflict DefaultBackoffSteps (
       bind_io (QueryExtendedDeployment S (objectKey deploy)) (\<lambda>p.
       bind_io (deref p) (\<lambda>cd.
       let cd = cd\<lparr>Status := (Status cd)\<lparr>LastTermStartTime := start,
             CollisionCount := CollisionCount (Status deploy)\<rparr>\<rparr>
       in bind_io (calculateStatus S X cd regionInfos) (\<lambda>status.
          updateEDStatus S (cd\<lparr>Status := status\<rparr>))))))"

section \<open>Cleaning up\<close>

text \<open>The loop of \<open>cleanOldSubsets\<close>, collecting the errors of the deletions.\<close>

definition cleanOldStep :: "ctl \<Rightarrow> extended_deployment \<Rightarrow> subset \<Rightarrow> err list \<Rightarrow> err list action" where
  "cleanOldStep C cd rs errs =
     (if SpecReplicas rs \<noteq> 0 \<or> StatusAvailable rs \<noteq> 0 \<or> DeletionTimestamp rs \<noteq> None then ret errs
      else bind_io (attempt (DeleteSubset C cd rs)) (\<lambda>r.
        (case r of Inl e \<Rightarrow> ret (errs @ [e]) | Inr _ \<Rightarrow> ret errs)))"

text \<open>With a negative history limit the index runs past the end of the slice.\<close>

definition cleanOldSubsets :: "ctl \<Rightarrow> extended_deployment \<Rightarrow> region_info \<Rightarrow> unit action" where
  "cleanOldSubsets C cd region =
     (let limit = HistoryLimit (Spec cd); diff = int (length (Olds region)) - limit
      in if int (length (Olds region)) \<le> limit then ret ()
         else bind_io (for_io (cleanOldStep C cd)
             (take (nat diff) (sort_by SubSetsByRevision_Less (Olds region))) []) (\<lambda>errs.
           if diff > int (length (Olds region)) then panic (Msg ''index out of range'')
           else if errs \<noteq> [] then fail (Aggregate errs)
           else ret ()))"

definition emptyOlds :: "ctl \<Rightarrow> extended_deployment \<Rightarrow> subset list \<Rightarrow> unit action" where
  "emptyOlds C deploy olds =
     for_io (\<lambda>ss _. if SpecReplicas ss = 0 then ret () else ScaleSubset C deploy ss 0) olds ()"

definition cleanRegion :: "ctl \<Rightarrow> extended_deployment \<Rightarrow> region_info \<Rightarrow> unit action" where
  "cleanRegion C deploy ri =
     bind_io (deref (New ri)) (\<lambda>new.
     bind_io (case DelInplacesetUpdateSpec (Annotations new) of (deleted, anno) \<Rightarrow>
       if deleted then UpdateSubsetAnnotations C (new\<lparr>Annotations := anno\<rparr>) False else ret ()) (\<lambda>_.
     bind_io (emptyOlds C deploy (Olds ri)) (\<lambda>_.
     cleanOldSubsets C deploy ri)))"

definition cleanAfterSaturated ::
    "ctl \<Rightarrow> extended_deployment \<Rightarrow> subset_control \<Rightarrow> unit action" where
  "cleanAfterSaturated C deploy m =
     bind_io (case DelAnnotations [AnnotationUpgradeConfirm] (Annotations deploy) of (deleted, anno) \<Rightarrow>
       if deleted then updateAnnotations (Srv C) (deploy\<lparr>Annotations := anno\<rparr>)
       else SyncStatusOnly (Srv C) (Ext C) deploy (regionInfoMap m) True True) (\<lambda>_.
     bind_io (for_io (\<lambda>(_, ri) _. cleanRegion C deploy ri) (regionInfoMap m) ()) (\<lambda>_.
     ClearUnused C deploy m))"

section \<open>What the status says\<close>

lemma NewDeploymentCondition_eq:
  "\<exists>c h'. NewDeploymentCondition S typ st reason msg h = (Ok c, h') \<and> CondType c = typ \<and>
     CondStatus c = st \<and> CondReason c = reason"
  by (simp add: NewDeploymentCondition_def now_def io_defs)

definition progress_ok :: "region_info gomap \<Rightarrow> deployment_condition \<Rightarrow> bool" where
  "progress_ok regionInfos c =
     (if allRegionSynced regionInfos
      then CondStatus c = ConditionFalse \<and> CondReason c = ''AllRegionSynced''
      else CondStatus c = ConditionFalse \<and> CondReason c = ''SyncWaitTimeout'' \<or>
           CondStatus c = ConditionTrue \<and> CondReason c = ''NotAllRegionSynced'')"

text \<open>
  Computing the status always succeeds, and its \<open>Progressing\<close> condition is true exactly while
  some region is not saturated and the term has not timed out; it is false with the reason
  \<open>AllRegionSynced\<close> when every region is saturated. The regions of the status are those of the
  region map, and the total is the sum of their replicas.
\<close>

theorem calculateStatus_progressing:
  "\<exists>st h' c. calculateStatus S X deploy regionInfos h = (Ok st, h') \<and>
     GetDeploymentCondition st DeploymentProgressing = Some c \<and> progress_ok regionInfos c \<and>
     map StRegionName (StatusRegions st) = map fst regionInfos \<and>
     TotalReplicas st = sum32 StReplicas (StatusRegions st)"
proof -
  let ?pick = "if allRegionSynced regionInfos
     then NewDeploymentCondition S DeploymentProgressing ConditionFalse
       ''AllRegionSynced'' ''all region is synced''
     else bind_io (termTimedOut S deploy (LastTermStartTime (Status deploy))) (\<lambda>late.
       if late
       then NewDeploymentCondition S DeploymentProgressing ConditionFalse
         ''SyncWaitTimeout'' ''sync wait timeout''
       else NewDeploymentCondition S DeploymentProgressing ConditionTrue
         ''NotAllRegionSynced'' ''not all region is synced'')"
  have names: "map StRegionName (map regionStatus regionInfos) = map fst regionInfos"
    by (simp add: regionStatus_def Let_def split: prod.splits)
  obtain late h1 where late: "termTimedOut S deploy (LastTermStartTime (Status deploy)) h = (Ok late, h1)"
    by (cases "fst (ParseInt (LastTermStartTime (Status deploy)) 64) = 0")
      (auto simp: termTimedOut_def nowUnix_def now_def Let_def io_defs)
  have "\<exists>c h'. ?pick h = (Ok c, h') \<and> CondType c = DeploymentProgressing \<and> progress_ok regionInfos c"
    using late NewDeploymentCondition_eq [of S DeploymentProgressing ConditionFalse "''AllRegionSynced''" _ h]
      NewDeploymentCondition_eq [of S DeploymentProgressing ConditionFalse "''SyncWaitTimeout''" _ h1]
      NewDeploymentCondition_eq [of S DeploymentProgressing ConditionTrue "''NotAllRegionSynced''" _ h1]
    by (cases late) (auto simp: progress_ok_def bind_io_def, blast+)
  then obtain c h' where c: "?pick h = (Ok c, h')" "CondType c = DeploymentProgressing"
    "progress_ok regionInfos c" by blast
  obtain d where "\<And>st. Conditions st = Conditions (Status deploy) \<Longrightarrow>
      GetDeploymentCondition (SetDeploymentCondition st c) (CondType c) = Some d"
    and d: "CondStatus d = CondStatus c" "CondReason d = CondReason c"
    using deploy_conds.get_set [of "Conditions (Status deploy)" c]
    by (auto simp: GetDeploymentCondition_def SetDeploymentCondition_def)
  moreover from c(3) d have "progress_ok regionInfos d" by (simp add: progress_ok_def)
  ultimately show ?thesis
    using c(1,2) names
    by (auto simp: calculateStatus_def Let_def bind_io_def ret_def GetDeploymentCondition_def
        SetDeploymentCondition_def split: sum.split)
qed

text \<open>
  Every successful \<open>SyncStatusOnly\<close> ends with a write of the status, also when nothing in it
  has changed: the comparison meant to avoid that never holds.
\<close>

theorem SyncStatusOnly_always_writes:
  assumes "SyncStatusOnly S X deploy regionInfos refreshTime saturated h = (Ok (), h')"
  shows "\<exists>g cd. h' = g @ [UpdateEDStatus cd] \<and> ansUpdateEDStatus S g cd = Inr ()"
proof -
  from assms obtain start h1 where
    "retryOnConflict DefaultBackoffSteps (
       bind_io (QueryExtendedDeployment S (objectKey deploy)) (\<lambda>p.
       bind_io (deref p) (\<lambda>cd.
       let cd = cd\<lparr>Status := (Status cd)\<lparr>LastTermStartTime := start,
             CollisionCount := CollisionCount (Status deploy)\<rparr>\<rparr>
       in bind_io (calculateStatus S X cd regionInfos) (\<lambda>status.
          updateEDStatus S (cd\<lparr>Status := status\<rparr>))))) h1 = (Ok (), h')"
    unfolding SyncStatusOnly_def by (elim bind_OkE)
  then show ?thesis
    by (elim retry_OkE) (auto simp: updateEDStatus_def Let_def elim!: bind_OkE)
qed

definition stored_server :: server where
  "stored_server = sample_server\<lparr>ansGetED := \<lambda>_ _. Inr zero_ED\<rparr>"

theorem SyncStatusOnly_always_writes_witness:
  "\<exists>g cd. snd (SyncStatusOnly stored_server sample_ext zero_ED [] False True []) = g @ [UpdateEDStatus cd] \<and>
     ansUpdateEDStatus stored_server g cd = Inr ()"
proof -
  have "\<exists>h'. SyncStatusOnly stored_server sample_ext zero_ED [] False True [] = (Ok (), h')"
    by (simp add: SyncStatusOnly_def stored_server_def sample_server_def QueryExtendedDeployment_def
        calculateStatus_def NewDeploymentCondition_def nowUnix_def now_def allRegionSynced_def updateEDStatus_def
        DefaultBackoffSteps_def eval_nat_numeral Let_def io_defs split: sum.split)
  then obtain h' where h': "SyncStatusOnly stored_server sample_ext zero_ED [] False True [] = (Ok (), h')" ..
  with SyncStatusOnly_always_writes [OF h'] show ?thesis by simp
qed

section \<open>What the clean-up deletes\<close>

definition history_delete :: "extended_deployment \<Rightarrow> region_info \<Rightarrow> req \<Rightarrow> bool" where
  "history_delete cd ri q = (case q of
     DeleteSet w \<Rightarrow> (\<exists>ss \<in> set (take (nat (int (length (Olds ri)) - HistoryLimit (Spec cd)))
         (sort_by SubSetsByRevision_Less (Olds ri))).
       w = SubsetRef ss \<and> SpecReplicas ss = 0 \<and> StatusAvailable ss = 0 \<and> DeletionTimestamp ss = None)
   | Event _ \<Rightarrow> True
   | _ \<Rightarrow> False)"

lemma emits_cleanOld: "emits (history_delete cd ri) (cleanOldSubsets C cd ri)"
  unfolding cleanOldSubsets_def Let_def cleanOldStep_def
  by (intro emits_intros emits_for emits_DeleteSubset) (auto simp: history_delete_def)

text \<open>
  C40: cleaning up the history of a region deletes only old subsets beyond the history limit, oldest
  revision first, and only ones without replicas: the newest \<open>HistoryLimit\<close> old subsets, and every
  one that still asks for or has replicas, are kept. Nothing but deletions is sent.
\<close>

theorem cleanOldSubsets_keeps_history:
  "emits (history_delete cd ri) (cleanOldSubsets C cd ri)"
  by (rule emits_cleanOld)

end
