(* ===== verification/DeployRegion.thy ===== *)
theory DeployRegion
  imports DeployRes Status
begin

text \<open>
  \<open>pkg/controllers/deployregion\<close>: the cache of regions, nodes and pods (\<open>cache.go\<close>), the
  queries (\<open>controller.go\<close>), the handlers of one event (\<open>syncContext.go\<close>), the failure
  flag of the ExtendedDeployments (\<open>failure.go\<close>) and the event handler (\<open>event.go\<close>).

  The cache is shared and outlives an event, also one that fails: a handler takes the cache and the
  requests sent so far and returns both with its outcome. \<open>stopReconcile\<close> panics with a
  \<open>stopError\<close>; here it is the outcome \<open>Err\<close>, every other panic is \<open>Panic\<close>, and
  \<open>Sync\<close> turns both into its error return.
\<close>

section \<open>Cache\<close>

record node_cache =
  NCName :: string
  IsReady :: bool
  Allocatable :: resource
  Allocated :: resource
  NCPods :: "int gomap"

datatype region_state = regionStatusUnknown | regionStatusOK | regionStatusFailed

record region_cache =
  RCName :: string
  RCMatchLabels :: "string gomap"
  RCNodes :: "node_cache gomap"
  RCStatus :: region_state

record cache =
  Synced :: bool
  CRegions :: "region_cache gomap"
  NodeToRegion :: "string gomap"

definition NewCache :: cache where
  "NewCache = \<lparr>Synced = False, CRegions = [], NodeToRegion = []\<rparr>"

definition isNodeReady :: "node \<Rightarrow> bool" where
  "isNodeReady n = (case find (\<lambda>c. CondType c = ''Ready'') (NodeConditions n) of
     None \<Rightarrow> False | Some c \<Rightarrow> CondStatus c = ConditionTrue)"

definition newNodeCache :: "node \<Rightarrow> node_cache" where
  "newNodeCache n = \<lparr>NCName = Name n, IsReady = isNodeReady n,
     Allocatable = Add EmptyResource (NodeAllocatable n), Allocated = EmptyResource, NCPods = []\<rparr>"

definition AddNode :: "node \<Rightarrow> region_cache \<Rightarrow> region_cache" where
  "AddNode n rc = rc\<lparr>RCNodes := mset_key (Name n) (newNodeCache n) (RCNodes rc)\<rparr>"

definition DelNode :: "node \<Rightarrow> region_cache \<Rightarrow> region_cache" where
  "DelNode n rc = rc\<lparr>RCNodes := mdel (Name n) (RCNodes rc)\<rparr>"

definition OnNodeUpdate :: "node \<Rightarrow> region_cache \<Rightarrow> region_cache" where
  "OnNodeUpdate n rc = (case mget (RCNodes rc) (Name n) of
     None \<Rightarrow> rc
   | Some nc \<Rightarrow> rc\<lparr>RCNodes := mset_key (Name n)
       (nc\<lparr>IsReady := isNodeReady n, Allocatable := Add EmptyResource (NodeAllocatable n)\<rparr>) (RCNodes rc)\<rparr>)"

definition Score :: "node_cache \<Rightarrow> int" where
  "Score nc = (if \<not> IsReady nc then 0
     else i64 (i64 (MilliCPU (Allocatable nc) + Memory (Allocatable nc)) -
               i64 (MilliCPU (Allocated nc) + Memory (Allocated nc))))"

definition cacheKey :: "pod \<Rightarrow> string" where
  "cacheKey p = Namespace p @ ''/'' @ Name p"

definition podEnded :: "pod \<Rightarrow> bool" where
  "podEnded p \<longleftrightarrow> Phase p = PodSucceeded \<or> Phase p = PodFailed \<or> DeletionTimestamp p \<noteq> None"

definition AddPod :: "pod \<Rightarrow> node_cache \<Rightarrow> node_cache" where
  "AddPod p nc = (if podEnded p then nc
     else nc\<lparr>NCPods := mset_key (cacheKey p) 0 (NCPods nc),
       Allocated := fold (\<lambda>c r. Add r (CRequests c)) (Containers (PodSpec p)) (Allocated nc)\<rparr>)"

definition OnPodUpdate :: "pod \<Rightarrow> node_cache \<Rightarrow> node_cache" where
  "OnPodUpdate p nc =
     (if \<not> mhas (NCPods nc) (cacheKey p) then AddPod p nc
      else if podEnded p
      then nc\<lparr>Allocated := fold (\<lambda>c r. fst (Sub r (CRequests c))) (Containers (PodSpec p)) (Allocated nc),
        NCPods := mdel (cacheKey p) (NCPods nc)\<rparr>
      else nc)"

definition AddRegion :: "deploy_region \<Rightarrow> cache \<Rightarrow> cache" where
  "AddRegion dr c = c\<lparr>CRegions := mset_key (Name dr)
     \<lparr>RCName = Name dr, RCMatchLabels = RegionMatchLabels dr, RCNodes = [], RCStatus = regionStatusUnknown\<rparr>
     (CRegions c)\<rparr>"

definition DelRegion :: "deploy_region \<Rightarrow> cache \<Rightarrow> cache" where
  "DelRegion dr c = c\<lparr>CRegions := mdel (Name dr) (CRegions c)\<rparr>"

text \<open>Writing through the pointer to a region, and to a node of a region.\<close>

definition upd_region :: "string \<Rightarrow> (region_cache \<Rightarrow> region_cache) \<Rightarrow> cache \<Rightarrow> cache" where
  "upd_region r f c = (case mget (CRegions c) r of
     None \<Rightarrow> c | Some rc \<Rightarrow> c\<lparr>CRegions := mset_key r (f rc) (CRegions c)\<rparr>)"

definition upd_node :: "string \<Rightarrow> (node_cache \<Rightarrow> node_cache) \<Rightarrow> region_cache \<Rightarrow> region_cache" where
  "upd_node n f rc = (case mget (RCNodes rc) n of
     None \<Rightarrow> rc | Some nc \<Rightarrow> rc\<lparr>RCNodes := mset_key n (f nc) (RCNodes rc)\<rparr>)"

section \<open>Other controllers' view of the cache\<close>

definition IsSynced :: "cache \<Rightarrow> bool" where
  "IsSynced c = Synced c"

definition IsRegionFailed :: "cache \<Rightarrow> string \<Rightarrow> bool action" where
  "IsRegionFailed c regionName = bind_io (deref (mget (CRegions c) regionName)) (\<lambda>rc.
     ret (RCStatus rc = regionStatusFailed))"

definition GetRegionAllocatablePodNum :: "cache \<Rightarrow> string \<Rightarrow> resource \<Rightarrow> int" where
  "GetRegionAllocatablePodNum c region res = (case mget (CRegions c) region of
     None \<Rightarrow> 0
   | Some rc \<Rightarrow>
       (if RCStatus rc = regionStatusFailed then 0
        else fold (\<lambda>(_, nc) podNum.
          i64 (podNum + MaxDivided (SubResource (Allocatable nc) res) (ResourceList res))) (RCNodes rc) 0))"

section \<open>Handlers over the cache\<close>

type_synonym 'a sync = "cache \<times> req list \<Rightarrow> 'a res \<times> cache \<times> req list"

definition sret :: "'a \<Rightarrow> 'a sync" where
  "sret x s = (Ok x, s)"

definition sbind :: "'a sync \<Rightarrow> ('a \<Rightarrow> 'b sync) \<Rightarrow> 'b sync" where
  "sbind m f s = (case m s of
     (Ok x, s') \<Rightarrow> f x s' | (Err e, s') \<Rightarrow> (Err e, s') | (Panic e, s') \<Rightarrow> (Panic e, s'))"

text \<open>An action that leaves the cache alone; its error goes to \<open>stopReconcile\<close>.\<close>

definition slift :: "'a action \<Rightarrow> 'a sync" where
  "slift m = (\<lambda>(c, h). case m h of (r, h') \<Rightarrow> (r, c, h'))"

definition sgets :: "(cache \<Rightarrow> 'a) \<Rightarrow> 'a sync" where
  "sgets f = (\<lambda>(c, h). (Ok (f c), c, h))"

definition smodify :: "(cache \<Rightarrow> cache) \<Rightarrow> unit sync" where
  "smodify f = (\<lambda>(c, h). (Ok (), f c, h))"

primrec sfor :: "('x \<Rightarrow> unit sync) \<Rightarrow> 'x list \<Rightarrow> unit sync" where
  "sfor f [] = sret ()"
| "sfor f (x # xs) = sbind (f x) (\<lambda>_. sfor f xs)"

definition stopReconcile :: "err option \<Rightarrow> unit sync" where
  "stopReconcile err = (case err of None \<Rightarrow> sret () | Some e \<Rightarrow> slift (fail e))"

text \<open>Reading through the pointers \<open>Regions[r]\<close> and \<open>Regions[r].Nodes[n]\<close>.\<close>

definition sregion :: "string \<Rightarrow> region_cache sync" where
  "sregion r = sbind (sgets (\<lambda>c. mget (CRegions c) r)) (\<lambda>p. slift (deref p))"

definition snode :: "string \<Rightarrow> string \<Rightarrow> node_cache sync" where
  "snode r n = sbind (sregion r) (\<lambda>rc. slift (deref (mget (RCNodes rc) n)))"

section \<open>Queries\<close>

record region_ctl =
  DSrv :: server
  DExt :: ext

definition nodeLabels :: "string gomap" where
  "nodeLabels = [(''node-role.kubernetes.io/compute'', ''true'')]"

definition notFound_None :: "'a action \<Rightarrow> 'a option action" where
  "notFound_None m = bind_io (attempt m) (\<lambda>r. (case r of
     Inl NotFound \<Rightarrow> ret None | Inl e \<Rightarrow> fail e | Inr x \<Rightarrow> ret (Some x)))"

definition QueryAllRegions :: "region_ctl \<Rightarrow> deploy_region list action" where
  "QueryAllRegions D = call ListRegions (\<lambda>h. ansListRegions (DSrv D) h)"

definition QueryRegion :: "region_ctl \<Rightarrow> string \<Rightarrow> deploy_region option action" where
  "QueryRegion D name = notFound_None (call (GetRegion name) (\<lambda>h. ansGetRegion (DSrv D) h name))"

definition QueryNode :: "region_ctl \<Rightarrow> string \<Rightarrow> node option action" where
  "QueryNode D name = notFound_None (call (GetNode name) (\<lambda>h. ansGetNode (DSrv D) h name))"

definition label_set_selector :: "region_ctl \<Rightarrow> string gomap \<Rightarrow> err + selector" where
  "label_set_selector D ls = LabelSelectorAsSelector (DExt D) (Some \<lparr>MatchLabels = ls, MatchExpressions = []\<rparr>)"

definition regionLabels :: "string gomap \<Rightarrow> string gomap" where
  "regionLabels matchLabels = fold (\<lambda>(k, v) m. mset_key k v m) nodeLabels matchLabels"

text \<open>The error of an invalid selector is dropped, and the nil selector dereferenced.\<close>

definition IsNodeBelongRegion :: "region_ctl \<Rightarrow> node \<Rightarrow> string gomap \<Rightarrow> bool action" where
  "IsNodeBelongRegion D n matchLabels = (case label_set_selector D (regionLabels matchLabels) of
     Inl e \<Rightarrow> nil_deref | Inr sel \<Rightarrow> ret (SelMatches sel (Labels n)))"

definition listNodes :: "region_ctl \<Rightarrow> selector \<Rightarrow> node list action" where
  "listNodes D sel = call (ListNodes (SelString sel)) (\<lambda>h. ansListNodes (DSrv D) h (SelString sel))"

definition QueryAllNode :: "region_ctl \<Rightarrow> node list action" where
  "QueryAllNode D = bind_io (of_sum (label_set_selector D nodeLabels)) (listNodes D)"

definition QueryNodesInRegion :: "region_ctl \<Rightarrow> deploy_region \<Rightarrow> node list action" where
  "QueryNodesInRegion D dr =
     bind_io (of_sum (label_set_selector D (regionLabels (RegionMatchLabels dr)))) (listNodes D)"

definition QueryAllPod :: "region_ctl \<Rightarrow> pod list action" where
  "QueryAllPod D = call (ListPods ([], [])) (\<lambda>h. ansListPods (DSrv D) h ([], []))"

definition QueryPod :: "region_ctl \<Rightarrow> string \<Rightarrow> string \<Rightarrow> pod option action" where
  "QueryPod D ns name = notFound_None (call (GetPod (ns, name)) (\<lambda>h. ansGetPod (DSrv D) h (ns, name)))"

definition QueryInplaceSetsInRegion :: "region_ctl \<Rightarrow> string \<Rightarrow> inplace_set list action" where
  "QueryInplaceSetsInRegion D region =
     bind_io (of_sum (label_set_selector D [(RegionLabel, region)])) (\<lambda>sel.
     call (SelectIPS (SelString sel)) (\<lambda>h. ansSelectIPS (DSrv D) h (SelString sel)))"

section \<open>Failure of a region\<close>

definition ownerDeployment :: "inplace_set \<Rightarrow> nskey option" where
  "ownerDeployment ips = (case OwnerReferences ips of
     [] \<Rightarrow> None
   | r # _ \<Rightarrow> (if OwnerKind r \<noteq> ''ExtendedDeployment'' then None else Some (Namespace ips, OwnerName r)))"

definition QueryExtendedDeploymentsInRegion :: "region_ctl \<Rightarrow> string \<Rightarrow> nskey gomap action" where
  "QueryExtendedDeploymentsInRegion D regionName =
     bind_io (QueryInplaceSetsInRegion D regionName) (\<lambda>inplacesets.
     ret (fold (\<lambda>ips deployMap. (case ownerDeployment ips of
        None \<Rightarrow> deployMap
      | Some key \<Rightarrow> mset_key (fst key @ ''/'' @ snd key) key deployMap)) inplacesets []))"

text \<open>
  The share of nodes that are not ready, compared with the two rates (1.0 and 0.0). A region
  without nodes has the share 0/0, not a number, which is neither at least 1 nor at most 0.
\<close>

definition failedRate :: "node_cache gomap \<Rightarrow> rat option" where
  "failedRate nodes = (if nodes = [] then None
     else Some (of_nat (length (filter (\<lambda>(_, nc). \<not> IsReady nc) nodes)) / of_nat (length nodes)))"

definition regionStatusOf :: "node_cache gomap \<Rightarrow> region_state" where
  "regionStatusOf nodes = (case failedRate nodes of
     None \<Rightarrow> regionStatusUnknown
   | Some rate \<Rightarrow> (if rate \<ge> 1 then regionStatusFailed
       else if rate \<le> 0 then regionStatusOK else regionStatusUnknown))"

definition setFailureAnnotation :: "region_ctl \<Rightarrow> extended_deployment \<Rightarrow> string list \<Rightarrow> unit action" where
  "setFailureAnnotation D deploy failedRegions =
     (if failedRegions = [] then
        (if \<not> mhas (Annotations deploy) AnnotationFailedFlag then ret ()
         else let deploy = deploy\<lparr>Annotations := mdel AnnotationFailedFlag (Annotations deploy)\<rparr>
              in call (UpdateED deploy) (\<lambda>h. ansUpdateED (DSrv D) h deploy))
      else let v = Join (sort_by (<) failedRegions) '','' in
        (if v = mget_str (Annotations deploy) AnnotationFailedFlag then ret ()
         else let deploy = deploy\<lparr>Annotations := mset_key AnnotationFailedFlag v (Annotations deploy)\<rparr>
              in call (UpdateED deploy) (\<lambda>h. ansUpdateED (DSrv D) h deploy)))"

definition IsExtendedDeploymentProgressFinished :: "extended_deployment \<Rightarrow> bool" where
  "IsExtendedDeploymentProgressFinished deploy =
     list_ex (\<lambda>c. CondType c = DeploymentProgressing \<and> CondStatus c = ConditionFalse)
       (Conditions (Status deploy))"

text \<open>The failed regions of an ExtendedDeployment, when the region at hand takes a new status.\<close>

fun failedRegionsOf :: "string \<Rightarrow> region_state \<Rightarrow> region list \<Rightarrow> string list sync" where
  "failedRegionsOf regionName newStatus [] = sret []"
| "failedRegionsOf regionName newStatus (r # rs) =
     sbind (if RegionName r = regionName then sret newStatus
            else sbind (sregion (RegionName r)) (\<lambda>rc. sret (RCStatus rc))) (\<lambda>tempStatus.
     sbind (failedRegionsOf regionName newStatus rs) (\<lambda>failed.
     sret (if tempStatus = regionStatusFailed then RegionName r # failed else failed)))"

definition notifyDeployment :: "region_ctl \<Rightarrow> string \<Rightarrow> region_state \<Rightarrow> nskey \<Rightarrow> unit sync" where
  "notifyDeployment D regionName newStatus key =
     sbind (slift (QueryExtendedDeployment (DSrv D) key)) (\<lambda>found. (case found of
        None \<Rightarrow> sret ()
      | Some deploy \<Rightarrow>
          sbind (failedRegionsOf regionName newStatus (Regions (Spec deploy))) (\<lambda>failedRegions.
          if IsExtendedDeploymentProgressFinished deploy
          then slift (setFailureAnnotation D deploy failedRegions)
          else sret ())))"

definition CheckRegionStatus :: "region_ctl \<Rightarrow> string \<Rightarrow> unit sync" where
  "CheckRegionStatus D regionName =
     sbind (sregion regionName) (\<lambda>regionInfo.
     let newStatus = regionStatusOf (RCNodes regionInfo) in
     if RCStatus regionInfo = newStatus then sret ()
     else
       sbind (slift (QueryExtendedDeploymentsInRegion D regionName)) (\<lambda>deployMap.
       sbind (sfor (\<lambda>(_, key). notifyDeployment D regionName newStatus key) deployMap) (\<lambda>_.
       smodify (upd_region regionName (\<lambda>rc. rc\<lparr>RCStatus := newStatus\<rparr>)))))"

section \<open>Events\<close>

definition PrefixNodeType :: string where "PrefixNodeType = ''node+''"
definition PrefixPodType :: string where "PrefixPodType = ''pod+''"

text \<open>The key a watched pod or node is queued under.\<close>

definition addToQueue :: "'a object_meta_scheme \<Rightarrow> nskey" where
  "addToQueue obj = (PrefixPodType @ Namespace obj, Name obj)"

definition eventUpdate :: "'a object_meta_scheme \<Rightarrow> 'a object_meta_scheme \<Rightarrow> nskey list" where
  "eventUpdate old new =
     addToQueue new # (if UID new \<noteq> UID old then [addToQueue old] else [])"

text \<open>The other three events queue their object.\<close>

definition eventCreate :: "'a object_meta_scheme \<Rightarrow> nskey list" where
  "eventCreate obj = [addToQueue obj]"

definition eventDelete :: "'a object_meta_scheme \<Rightarrow> nskey list" where
  "eventDelete obj = [addToQueue obj]"

definition eventGeneric :: "'a object_meta_scheme \<Rightarrow> nskey list" where
  "eventGeneric obj = [addToQueue obj]"

definition handlePodEvent :: "region_ctl \<Rightarrow> string \<Rightarrow> string \<Rightarrow> unit sync" where
  "handlePodEvent D ns name =
     sbind (slift (QueryPod D ns name)) (\<lambda>found. (case found of
        None \<Rightarrow> stopReconcile None
      | Some pod \<Rightarrow>
          (let nodeName = NodeName (PodSpec pod) in
           if nodeName = [] then sret ()
           else sbind (sgets (\<lambda>c. mget (NodeToRegion c) nodeName)) (\<lambda>loc. (case loc of
              None \<Rightarrow> sret ()
            | Some regionName \<Rightarrow>
                sbind (snode regionName nodeName) (\<lambda>_.
                smodify (upd_region regionName (upd_node nodeName (OnPodUpdate pod)))))))))"

fun findRegion :: "region_ctl \<Rightarrow> node \<Rightarrow> region_cache gomap \<Rightarrow> string action" where
  "findRegion D n [] = ret []"
| "findRegion D n ((_, region) # rest) = bind_io (IsNodeBelongRegion D n (RCMatchLabels region)) (\<lambda>b.
     if b then ret (RCName region) else findRegion D n rest)"

definition nodeUpdated :: "region_ctl \<Rightarrow> node \<Rightarrow> string \<Rightarrow> unit sync" where
  "nodeUpdated D n regionName =
     sbind (snode regionName (Name n)) (\<lambda>before.
     sbind (smodify (upd_region regionName (OnNodeUpdate n))) (\<lambda>_.
     sbind (snode regionName (Name n)) (\<lambda>after.
     if IsReady before \<noteq> IsReady after then CheckRegionStatus D regionName else sret ())))"

definition registerNode :: "string \<Rightarrow> node \<Rightarrow> unit sync" where
  "registerNode regionName n =
     sbind (smodify (upd_region regionName (AddNode n))) (\<lambda>_.
     smodify (\<lambda>c. c\<lparr>NodeToRegion := mset_key (Name n) regionName (NodeToRegion c)\<rparr>))"

definition nodeAdded :: "region_ctl \<Rightarrow> node \<Rightarrow> string \<Rightarrow> unit sync" where
  "nodeAdded D n regionName =
     sbind (sregion regionName) (\<lambda>_.
     sbind (registerNode regionName n) (\<lambda>_.
     sbind (slift (QueryAllPod D)) (\<lambda>pods.
     sbind (sfor (\<lambda>pod. if NodeName (PodSpec pod) = Name n
       then smodify (upd_region regionName (upd_node (Name n) (AddPod pod))) else sret ()) pods) (\<lambda>_.
     CheckRegionStatus D regionName))))"

definition handleNodeEvent :: "region_ctl \<Rightarrow> string \<Rightarrow> unit sync" where
  "handleNodeEvent D name =
     sbind (slift (QueryNode D name)) (\<lambda>found. (case found of
        None \<Rightarrow> sbind (stopReconcile None) (\<lambda>_. slift nil_deref)
      | Some n \<Rightarrow>
          sbind (sgets (\<lambda>c. mget (NodeToRegion c) (Name n))) (\<lambda>loc. (case loc of
             Some regionName \<Rightarrow> nodeUpdated D n regionName
           | None \<Rightarrow>
               sbind (sgets CRegions) (\<lambda>regions.
               sbind (slift (findRegion D n regions)) (\<lambda>regionName.
               if regionName = [] then sret () else nodeAdded D n regionName))))))"

definition handleRegionCreate :: "region_ctl \<Rightarrow> deploy_region \<Rightarrow> unit sync" where
  "handleRegionCreate D region =
     sbind (smodify (AddRegion region)) (\<lambda>_.
     sbind (slift (QueryNodesInRegion D region)) (\<lambda>nodes.
     sbind (sfor (registerNode (Name region)) nodes) (\<lambda>_.
     sbind (slift (QueryAllPod D)) (\<lambda>pods.
     sbind (sfor (\<lambda>pod. smodify (upd_region (Name region)
       (upd_node (NodeName (PodSpec pod)) (AddPod pod)))) pods) (\<lambda>_.
     CheckRegionStatus D (Name region))))))"

definition handleRegionEvent :: "region_ctl \<Rightarrow> string \<Rightarrow> unit sync" where
  "handleRegionEvent D name =
     sbind (slift (QueryRegion D name)) (\<lambda>found. (case found of
        None \<Rightarrow> stopReconcile None
      | Some region \<Rightarrow>
          (if DeletionTimestamp region \<noteq> None then smodify (DelRegion region)
           else sbind (sgets (\<lambda>c. mhas (CRegions c) name)) (\<lambda>known.
             if known then CheckRegionStatus D (Name region)
             else handleRegionCreate D region))))"

definition claimNode :: "string \<Rightarrow> node \<Rightarrow> unit sync" where
  "claimNode regionName n =
     sbind (sgets (\<lambda>c. mget (NodeToRegion c) (Name n))) (\<lambda>other.
     sbind (case other of
        Some r \<Rightarrow> stopReconcile (Some (Msg (''node '' @ Name n @ '' belong to multi region, ['' @ r @
          '', '' @ regionName @ '']'')))
      | None \<Rightarrow> sret ()) (\<lambda>_.
     registerNode regionName n))"

definition loadRegion :: "region_ctl \<Rightarrow> deploy_region \<Rightarrow> unit sync" where
  "loadRegion D region =
     sbind (smodify (AddRegion region)) (\<lambda>_.
     sbind (slift (QueryNodesInRegion D region)) (\<lambda>nodes.
     sfor (claimNode (Name region)) nodes))"

definition loadPod :: "pod \<Rightarrow> unit sync" where
  "loadPod pod =
     (let nodeName = NodeName (PodSpec pod) in
      sbind (sgets (\<lambda>c. mget (NodeToRegion c) nodeName)) (\<lambda>loc. (case loc of
         Some regionName \<Rightarrow>
           sbind (snode regionName nodeName) (\<lambda>_.
           smodify (upd_region regionName (upd_node nodeName (AddPod pod))))
       | None \<Rightarrow> sret ())))"

definition waitCacheSynced :: "region_ctl \<Rightarrow> unit sync" where
  "waitCacheSynced D =
     sbind (smodify (\<lambda>c. c\<lparr>CRegions := [], NodeToRegion := []\<rparr>)) (\<lambda>_.
     sbind (slift (QueryAllRegions D)) (\<lambda>regions.
     sbind (sfor (loadRegion D) regions) (\<lambda>_.
     sbind (slift (QueryAllPod D)) (\<lambda>pods.
     sbind (sfor loadPod pods) (\<lambda>_.
     sbind (smodify (\<lambda>c. c\<lparr>Synced := True\<rparr>)) (\<lambda>_.
     sbind (sgets (\<lambda>c. map fst (CRegions c))) (\<lambda>names.
     sfor (CheckRegionStatus D) names)))))))"

text \<open>The deferred \<open>recover\<close> of \<open>Sync\<close>; the stack dump in the text of the error is left out.\<close>

definition srecover :: "'a sync \<Rightarrow> 'a sync" where
  "srecover m s = (case m s of
     (Panic e, s') \<Rightarrow> (Err (case e of Msg t \<Rightarrow> Msg (''recovered error: '' @ t) | _ \<Rightarrow> e), s')
   | r \<Rightarrow> r)"

definition Sync :: "region_ctl \<Rightarrow> nskey \<Rightarrow> unit sync" where
  "Sync D rq = srecover (
     sbind (sgets Synced) (\<lambda>synced.
     sbind (if \<not> synced then waitCacheSynced D else sret ()) (\<lambda>_.
     let name = snd rq; ns = fst rq in
     if HasPrefix ns PrefixPodType then handlePodEvent D (drop (length PrefixPodType) ns) name
     else if HasPrefix ns PrefixNodeType then handleNodeEvent D name
     else handleRegionEvent D name)))"

text \<open>
  \<open>Reconcile\<close> synchronises on the global cache; its result never asks for another round, an error
  is retried by the work queue.
\<close>

definition ReconcileRegion :: "region_ctl \<Rightarrow> nskey \<Rightarrow> int sync" where
  "ReconcileRegion D rq = sbind (Sync D rq) (\<lambda>_. sret 0)"

end
