(* ===== verification/Reschedule.thy ===== *)
theory Reschedule
  imports DeployRegion SubsetControl Replicas
begin

text \<open>
  \<open>pkg/controllers/reschedule\<close>: moving replicas out of failed regions and of regions that
  cannot start their pods. \<open>reschedule.go\<close> plans the transfer, \<open>deployment.go\<close> collects
  the subsets of an ExtendedDeployment and its failed regions, \<open>controller.go\<close> reconciles. The
  plan reads the cache of the DeployRegion controller, a parameter of the definitions here.
\<close>

section \<open>Errors and kinds\<close>

definition ErrNotSynced :: err where "ErrNotSynced = Msg ''global cache is not synced''"
definition ErrPendingNotTimeout :: err where
  "ErrPendingNotTimeout = Msg ''waiting pending pod timeout or ready''"
definition ErrWithoutAvailableRegions :: err where
  "ErrWithoutAvailableRegions = Msg ''without available region for reschedule''"

definition DeploymentReschedule :: string where "DeploymentReschedule = ''Reschedule''"

datatype RescheduleType = RescheduleNever | RescheduleUnknown | RescheduleForFailedRegion
  | RescheduleForResourceInsufficient | RescheduleForFailedRegionAndResourceInsufficient

section \<open>The plan\<close>

record scheduleRegionInfo =
  SName :: string
  configReplicas :: int
  scheduleReplicas :: int
  rescheduleReplicas :: int
  AllocatablePod :: int

record ScheduleInfo =
  regionsInfo :: "scheduleRegionInfo gomap"
  failedRegions :: "string list"

definition RequestResourceByRegion :: "ext \<Rightarrow> extended_deployment \<Rightarrow> string \<Rightarrow> resource action" where
  "RequestResourceByRegion X deployment regionName =
     bind_io (deref (ApplyOverridePolicies X regionName deployment)) (\<lambda>template.
     let resource = fold (\<lambda>c r. Add r (CRequests c)) (Containers (TemplateSpec template)) EmptyResource
     in if i64 (Memory resource + MilliCPU resource) = 0 then fail (Msg ''no request found'')
        else ret resource)"

definition scheduleRegion :: "ext \<Rightarrow> cache \<Rightarrow> extended_deployment \<Rightarrow> region \<Rightarrow> scheduleRegionInfo gomap \<Rightarrow>
    scheduleRegionInfo gomap action" where
  "scheduleRegion X cch deployment region regionMap =
     bind_io (deref (Replicas (Spec deployment))) (\<lambda>n.
     bind_io (deref (RegionReplicas region)) (\<lambda>v.
     bind_io (of_sum (ParseRegionReplicas n v)) (\<lambda>replicas.
     bind_io (RequestResourceByRegion X deployment (RegionName region)) (\<lambda>resource.
     if \<not> IsSynced cch then fail ErrNotSynced
     else ret (mset_key (RegionName region) \<lparr>SName = RegionName region, configReplicas = replicas,
       scheduleReplicas = 0, rescheduleReplicas = replicas,
       AllocatablePod = GetRegionAllocatablePodNum cch (RegionName region) resource\<rparr> regionMap)))))"

definition NewScheduleRegionInfo :: "ext \<Rightarrow> cache \<Rightarrow> extended_deployment \<Rightarrow> ScheduleInfo action" where
  "NewScheduleRegionInfo X cch deployment =
     bind_io (for_io (scheduleRegion X cch deployment) (Regions (Spec deployment)) []) (\<lambda>regionMap.
     bind_io (for_io (\<lambda>st regionMap. bind_io (deref (mget regionMap (StRegionName st))) (\<lambda>ri.
         ret (mset_key (StRegionName st) (ri\<lparr>scheduleReplicas := StUpdatedReplicas st\<rparr>) regionMap)))
       (StatusRegions (Status deployment)) regionMap) (\<lambda>regionMap.
     ret \<lparr>regionsInfo = regionMap, failedRegions = []\<rparr>))"

definition makeEmptyAutoScheduleSpec :: "int \<Rightarrow> AutoScheduleSpec" where
  "makeEmptyAutoScheduleSpec generation = \<lparr>SchedGeneration = generation, FailureRegion = [], Infos = []\<rparr>"

definition scheduleSpec :: "ScheduleInfo \<Rightarrow> int \<Rightarrow> AutoScheduleSpec" where
  "scheduleSpec info generation =
     (let spec = makeEmptyAutoScheduleSpec generation;
          infos = fold (\<lambda>(regionName, region) m. mset_key regionName
            \<lparr>Config = configReplicas region,
             Schedule = i32 (rescheduleReplicas region - configReplicas region)\<rparr> m) (regionsInfo info) (Infos spec)
      in spec\<lparr>Infos := infos, FailureRegion := Join (failedRegions info) '',''\<rparr>)"

definition SetRescheduleAnnotation :: "ext \<Rightarrow> ScheduleInfo \<Rightarrow> extended_deployment \<Rightarrow> extended_deployment" where
  "SetRescheduleAnnotation X info deployment = deployment\<lparr>Annotations :=
     SetAutoScheduleSpec X (scheduleSpec info (Generation deployment)) (Annotations deployment)\<rparr>"

text \<open>The region with the most allocatable pods, the first of several.\<close>

fun bestRegion :: "scheduleRegionInfo gomap \<Rightarrow> string list \<Rightarrow> string option \<Rightarrow> string option action" where
  "bestRegion m [] best = ret best"
| "bestRegion m (region # rest) best = (case Option.bind best (mget m) of
     None \<Rightarrow> bestRegion m rest (if mhas m region then Some region else None)
   | Some b \<Rightarrow> bind_io (deref (mget m region)) (\<lambda>r.
       bestRegion m rest (if AllocatablePod r > AllocatablePod b then Some region else best)))"

text \<open>One replica goes to the best region in each round of the loop.\<close>

fun rescheduleLoop :: "string list \<Rightarrow> nat \<Rightarrow> scheduleRegionInfo gomap \<Rightarrow> scheduleRegionInfo gomap action" where
  "rescheduleLoop targetRegions 0 m = ret m"
| "rescheduleLoop targetRegions (Suc n) m =
     bind_io (bestRegion m targetRegions None) (\<lambda>best. (case Option.bind best (mget m) of
        None \<Rightarrow> fail ErrWithoutAvailableRegions
      | Some r \<Rightarrow>
          (if AllocatablePod r \<le> 0 then fail ErrWithoutAvailableRegions
           else rescheduleLoop targetRegions n (mset_key (the best)
             (r\<lparr>rescheduleReplicas := i32 (rescheduleReplicas r + 1),
                AllocatablePod := i64 (AllocatablePod r - 1)\<rparr>) m))))"

definition reschedule :: "string list \<Rightarrow> int \<Rightarrow> scheduleRegionInfo gomap \<Rightarrow> scheduleRegionInfo gomap action" where
  "reschedule targetRegions scheduleNum m = rescheduleLoop targetRegions (nat scheduleNum) m"

text \<open>
  The method has a value receiver: the regions are shared with the caller through their pointers,
  while the names appended to \<open>failedRegions\<close> stay in the copy.
\<close>

definition failRegion :: "bool gomap \<Rightarrow> string \<times> scheduleRegionInfo \<Rightarrow> ScheduleInfo \<times> string list \<times> int \<Rightarrow>
    ScheduleInfo \<times> string list \<times> int" where
  "failRegion regionsMap = (\<lambda>(name, region) (info, targetRegion, schedulePodNum).
     if mget regionsMap name = Some True
     then (info\<lparr>failedRegions := failedRegions info @ [name],
             regionsInfo := mset_key name (region\<lparr>rescheduleReplicas := 0\<rparr>) (regionsInfo info)\<rparr>,
           targetRegion, i32 (schedulePodNum + configReplicas region))
     else (info, targetRegion @ [name], schedulePodNum))"

definition RescheduleFailedRegions :: "bool gomap \<Rightarrow> ScheduleInfo \<Rightarrow> ScheduleInfo action" where
  "RescheduleFailedRegions regionsMap caller =
     (if regionsMap = [] then ret caller
      else case fold (failRegion regionsMap) (regionsInfo caller) (caller, [], 0) of
        (info, targetRegion, schedulePodNum) \<Rightarrow>
          bind_io (reschedule targetRegion schedulePodNum (regionsInfo info)) (\<lambda>m.
          ret (caller\<lparr>regionsInfo := m\<rparr>)))"

text \<open>A region keeps the replicas that have started, the rest goes to the target regions.\<close>

definition handOver :: "string list \<Rightarrow> string \<times> pod list \<Rightarrow> scheduleRegionInfo gomap \<Rightarrow>
    scheduleRegionInfo gomap action" where
  "handOver scheduleInRegions = (\<lambda>(regionName, pods) m.
     bind_io (deref (mget m regionName)) (\<lambda>r.
     let started = i32 (scheduleReplicas r - int (length pods));
         out = i32 (configReplicas r - started)
     in reschedule scheduleInRegions out (mset_key regionName (r\<lparr>rescheduleReplicas := started\<rparr>) m)))"

definition RescheduleInsufficientPods :: "pod list gomap \<Rightarrow> ScheduleInfo \<Rightarrow> ScheduleInfo action" where
  "RescheduleInsufficientPods insufficientPods info =
     (let scheduleInRegions = map fst (filter (\<lambda>(regionName, region).
            \<not> mhas insufficientPods regionName \<and> \<not> rescheduleReplicas region < configReplicas region)
            (regionsInfo info))
      in bind_io (for_io (handOver scheduleInRegions) insufficientPods (regionsInfo info)) (\<lambda>m.
       ret (info\<lparr>regionsInfo := m\<rparr>)))"

text \<open>The kind of the last rescheduling, whether to go on, and the deployment (without an outdated plan).\<close>

definition CheckAnnotation :: "ext \<Rightarrow> extended_deployment \<Rightarrow>
    (RescheduleType \<times> bool \<times> extended_deployment) action" where
  "CheckAnnotation X object =
     bind_io (of_sum (GetAutoScheduleSpec X (Annotations object))) (\<lambda>spec.
     case spec of
       Some sp \<Rightarrow>
         (if SchedGeneration sp \<noteq> Generation object
          then ret (RescheduleUnknown, False,
            object\<lparr>Annotations := snd (DelAutoScheduleSpec (Annotations object))\<rparr>)
          else if \<not> snd (GetFailedFlag (Annotations object)) \<and> FailureRegion sp = []
          then ret (RescheduleForResourceInsufficient, True, object)
          else ret (RescheduleUnknown, True, object))
     | None \<Rightarrow> ret (if \<not> snd (GetFailedFlag (Annotations object)) then RescheduleNever
         else RescheduleUnknown, True, object))"

section \<open>Regions and subsets of a deployment\<close>

definition GetFailedRegions :: "extended_deployment \<Rightarrow> bool gomap \<times> bool" where
  "GetFailedRegions deployment = (case GetFailedFlag (Annotations deployment) of
     (failedRegionString, ok) \<Rightarrow>
       (let hasFailedRegion = (ok \<and> failedRegionString \<noteq> []);
            failed = (if hasFailedRegion
              then fold (\<lambda>regionName m. mset_key regionName True m) (Split failedRegionString (CHR '','')) []
              else [])
        in (fold (\<lambda>region m. if mhas m (RegionName region) then m else mset_key (RegionName region) False m)
              (Regions (Spec deployment)) failed, hasFailedRegion)))"

definition resched_adapter :: "ext \<Rightarrow> subset_type \<Rightarrow> adapter" where
  "resched_adapter X t = (case t of
     DeploymentSubsetType \<Rightarrow> DeploymentAdapter X
   | ReplicaSetSubsetType \<Rightarrow> ReplicaSetAdapter X
   | _ \<Rightarrow> InplaceSetAdapter X)"

definition resched_getAllSubsets :: "server \<Rightarrow> ext \<Rightarrow> adapter \<Rightarrow> extended_deployment \<Rightarrow> subset list action" where
  "resched_getAllSubsets S X ad cd =
     bind_io (of_sum (LabelSelectorAsSelector X (Selector (Spec cd)))) (\<lambda>sel.
     let k = (Namespace cd, SelString sel) in
     bind_io (call (ListSets k) (\<lambda>h. ansListSets S h k)) (\<lambda>selected.
     bind_io (of_sum (New_ref_manager X (Selector (Spec cd)) cd)) (\<lambda>manager.
     bind_io (ClaimOwnedObjects S X manager selected) (\<lambda>claimedSets.
     for_io (\<lambda>w subSets. bind_io (convertToSubset ad w) (\<lambda>subSet.
       ret (if ownedSubset cd subSet then subSets @ [subSet] else subSets))) claimedSets []))))"

definition resched_templateEqual :: "ext \<Rightarrow> subset \<Rightarrow> extended_deployment \<Rightarrow> string gomap \<Rightarrow> bool action" where
  "resched_templateEqual X ss cd matchLabels =
     bind_io (deref (ApplyOverridePolicies X (getSubsetRegionName ss) cd)) (\<lambda>template.
     ret (template_equal
       (unhashed (template\<lparr>TemplateSpec := SetSubsetRegionAffinity (TemplateSpec template) matchLabels\<rparr>))
       (unhashed (SubTemplate ss))))"

definition resched_groupSubset :: "ext \<Rightarrow> subset list \<Rightarrow> extended_deployment \<Rightarrow> string gomap gomap \<Rightarrow>
    subset list gomap action" where
  "resched_groupSubset X subs cd rml =
     for_io (\<lambda>ss res.
       let regionName = getSubsetRegionName ss in
       case mget res regionName of
         None \<Rightarrow> ret res
       | Some members \<Rightarrow>
           bind_io (resched_templateEqual X ss cd (case mget rml regionName of None \<Rightarrow> [] | Some l \<Rightarrow> l)) (\<lambda>eq.
           ret (if eq then mset_key regionName (members @ [ss]) res else res)))
       subs (fold (\<lambda>region res. mset_key (RegionName region) [] res) (Regions (Spec cd)) [])"

definition resched_checkRegions :: "server \<Rightarrow> extended_deployment \<Rightarrow> string gomap gomap action" where
  "resched_checkRegions S deploy =
     bind_io (call ListRegions (\<lambda>h. ansListRegions S h)) (\<lambda>items.
     for_io (\<lambda>region res. (case find (\<lambda>r. Name r = RegionName region) (rev items) of
         None \<Rightarrow> fail (Msg ''region is not exists'')
       | Some r \<Rightarrow> ret (mset_key (RegionName region) (RegionMatchLabels r) res))) (Regions (Spec deploy)) [])"

definition resched_QuerySubsets :: "server \<Rightarrow> ext \<Rightarrow> extended_deployment \<Rightarrow> subset list gomap action" where
  "resched_QuerySubsets S X cd =
     bind_io (resched_checkRegions S cd) (\<lambda>rml.
     bind_io (resched_getAllSubsets S X (resched_adapter X (SubsetType (Spec cd))) cd) (\<lambda>subs.
     resched_groupSubset X subs cd rml))"

section \<open>Conditions\<close>

definition rescheduleReason :: "RescheduleType \<Rightarrow> string \<times> string" where
  "rescheduleReason t = (case t of
     RescheduleForFailedRegion \<Rightarrow> (''FailureSchedule'', ''some region is failure'')
   | RescheduleForResourceInsufficient \<Rightarrow> (''InsufficientSchedule'', ''some region resource is insufficient'')
   | RescheduleForFailedRegionAndResourceInsufficient \<Rightarrow>
       (''FailureSchedule'', ''some region is failure, some region resource is insufficient'')
   | _ \<Rightarrow> (''Reschedule Failed'', ''Reschedule Failed''))"

definition SetRescheduleCondition ::
    "server \<Rightarrow> extended_deployment \<Rightarrow> RescheduleType \<Rightarrow> extended_deployment action" where
  "SetRescheduleCondition S deployment t = (case rescheduleReason t of (reason, message) \<Rightarrow>
     bind_io (NewDeploymentCondition S DeploymentReschedule ConditionTrue reason message) (\<lambda>c.
     ret (deployment\<lparr>Status := SetDeploymentCondition (Status deployment) c\<rparr>)))"

definition DelRescheduleCondition :: "server \<Rightarrow> extended_deployment \<Rightarrow> extended_deployment action" where
  "DelRescheduleCondition S deployment =
     bind_io (NewDeploymentCondition S DeploymentReschedule ConditionFalse
       ''all region works well'' ''all region works well'') (\<lambda>c.
     ret (deployment\<lparr>Status := SetDeploymentCondition (Status deployment) c\<rparr>))"

section \<open>Pods that cannot start\<close>

definition errorMsgMemDetect :: string where "errorMsgMemDetect = ''Insufficient memory''"
definition errorMsgCpuDetect :: string where "errorMsgCpuDetect = ''Insufficient cpu''"

definition insufficient_pod :: "subset \<Rightarrow> pod \<Rightarrow> condition option" where
  "insufficient_pod sub p =
     (if DeletionTimestamp p \<noteq> None \<or>
         (case OwnerReferences p of [] \<Rightarrow> True | r # _ \<Rightarrow> OwnerUID r \<noteq> UID sub) then None
      else (case get_cond (PodConditions p) ''PodScheduled'' of
        None \<Rightarrow> None
      | Some c \<Rightarrow> (if Contains (CondMessage c) errorMsgCpuDetect \<or> Contains (CondMessage c) errorMsgMemDetect
          then Some c else None)))"

definition QueryInsufficientPodsBySubset ::
    "server \<Rightarrow> ext \<Rightarrow> subset \<Rightarrow> (pod list \<times> int) action" where
  "QueryInsufficientPodsBySubset S X sub =
     bind_io (of_sum (LabelSelectorAsSelector X (SubSelector sub))) (\<lambda>sel.
     let k = (Namespace sub, SelString sel) in
     bind_io (call (ListPods k) (\<lambda>h. ansListPods S h k)) (\<lambda>pods.
     for_io (\<lambda>p (found, pendingSec). (case insufficient_pod sub p of
         None \<Rightarrow> ret (found, pendingSec)
       | Some c \<Rightarrow> bind_io (now S) (\<lambda>t.
           let sec = quot (t - LastTransitionTime c) Second
           in ret (found @ [p], if sec > pendingSec then sec else pendingSec)))) pods ([], 0)))"

section \<open>Reconciling\<close>

definition updateDeployment :: "server \<Rightarrow> extended_deployment \<Rightarrow> unit action" where
  "updateDeployment S d = call (UpdateED d) (\<lambda>h. ansUpdateED S h d)"

definition updateDeploymentStatus :: "server \<Rightarrow> extended_deployment \<Rightarrow> unit action" where
  "updateDeploymentStatus S d = call (UpdateEDStatus d) (\<lambda>h. ansUpdateEDStatus S h d)"

text \<open>The pods of one subset; a pod still within its timeout stops the reconciliation.\<close>

definition scanSubset :: "server \<Rightarrow> ext \<Rightarrow> int \<Rightarrow> string \<Rightarrow> subset \<Rightarrow> pod list gomap \<times> RescheduleType \<Rightarrow>
    (pod list gomap \<times> RescheduleType) action" where
  "scanSubset S X timeout regionName sub = (\<lambda>(insufficientPods, t).
     bind_io (QueryInsufficientPodsBySubset S X sub) (\<lambda>(pods, sec).
     if pods = [] then ret (insufficientPods, t)
     else
       let insufficientPods = mset_key regionName
             ((case mget insufficientPods regionName of None \<Rightarrow> [] | Some ps \<Rightarrow> ps) @ pods) insufficientPods
       in if sec > timeout then ret (insufficientPods, RescheduleForResourceInsufficient)
          else fail ErrPendingNotTimeout))"

definition scanRegions :: "server \<Rightarrow> ext \<Rightarrow> int \<Rightarrow> bool gomap \<Rightarrow> subset list gomap \<Rightarrow> RescheduleType \<Rightarrow>
    (pod list gomap \<times> RescheduleType) action" where
  "scanRegions S X timeout regionsMap subsetsMap t =
     for_io (\<lambda>(regionName, subs) st.
       if mget regionsMap regionName = Some True then ret st
       else for_io (scanSubset S X timeout regionName) subs st) subsetsMap ([], t)"

text \<open>A planned transfer that fails is reported as an event.\<close>

definition reportFailure :: "'a action \<Rightarrow> 'a action" where
  "reportFailure m = bind_io (attempt m) (\<lambda>r. (case r of
     Inl e \<Rightarrow> bind_io (emit (Event ''RescheduleFailed'')) (\<lambda>_. fail e)
   | Inr x \<Rightarrow> ret x))"

definition planTransfer :: "ext \<Rightarrow> cache \<Rightarrow> bool gomap \<Rightarrow> pod list gomap \<Rightarrow> extended_deployment \<Rightarrow>
    extended_deployment action" where
  "planTransfer X cch regionsMap insufficientPods d =
     bind_io (NewScheduleRegionInfo X cch d) (\<lambda>info.
     bind_io (reportFailure (RescheduleFailedRegions regionsMap info)) (\<lambda>info.
     bind_io (reportFailure (RescheduleInsufficientPods insufficientPods info)) (\<lambda>info.
     ret (SetRescheduleAnnotation X info d))))"

text \<open>With the feature off, a plan is removed and the condition cleared.\<close>

definition rescheduleOff :: "server \<Rightarrow> extended_deployment \<Rightarrow> unit action" where
  "rescheduleOff S d = (case DelAutoScheduleSpec (Annotations d) of (changed, anno) \<Rightarrow>
     let d = d\<lparr>Annotations := anno\<rparr> in
     bind_io (if changed then updateDeployment S d else ret ()) (\<lambda>_.
     bind_io (DelRescheduleCondition S d) (updateDeploymentStatus S)))"

definition resched_body :: "server \<Rightarrow> ext \<Rightarrow> cache \<Rightarrow> extended_deployment \<Rightarrow> unit action" where
  "resched_body S X cch d =
     (case AutoReschedule (Strategy (Spec d)) of
        Some auto \<Rightarrow>
          (if \<not> Enable auto then rescheduleOff S d
           else if \<not> IsExtendedDeploymentProgressFinished d then ret ()
           else bind_io (CheckAnnotation X d) (\<lambda>(lastType, shouldContinue, d).
             if \<not> shouldContinue then
               bind_io (updateDeployment S d) (\<lambda>_.
               bind_io (DelRescheduleCondition S d) (updateDeploymentStatus S))
             else (case GetFailedRegions d of (regionsMap, shouldReschedule) \<Rightarrow>
               bind_io (resched_QuerySubsets S X d) (\<lambda>subsetsMap.
               bind_io (scanRegions S X (TimeoutSeconds auto) regionsMap subsetsMap
                 (if shouldReschedule then RescheduleForFailedRegion else RescheduleNever)) (\<lambda>(insufficientPods, t).
               if t = RescheduleNever \<and> (lastType = RescheduleForResourceInsufficient \<or> lastType = RescheduleNever)
               then ret ()
               else
                 bind_io (planTransfer X cch regionsMap insufficientPods d) (\<lambda>d.
                 bind_io (updateDeployment S d) (\<lambda>_.
                 bind_io (SetRescheduleCondition S d t) (updateDeploymentStatus S))))))))
      | None \<Rightarrow> rescheduleOff S d)"

definition reconcile_resched :: "server \<Rightarrow> ext \<Rightarrow> cache \<Rightarrow> nskey \<Rightarrow> unit action" where
  "reconcile_resched S X cch key =
     bind_io (QueryExtendedDeployment S key) (\<lambda>found. (case found of
        None \<Rightarrow> ret () | Some d \<Rightarrow> resched_body S X cch d))"

text \<open>
  \<open>Reconcile\<close> looks for a pointer to a \<open>RetryError\<close> in the error, to set the delay of the
  retry; the two retry errors are values, not pointers, so the assertion never succeeds and the
  delay stays 0.
\<close>

definition asRetryPointer :: "err \<Rightarrow> int option" where
  "asRetryPointer e = None"

definition Reconcile_resched :: "server \<Rightarrow> ext \<Rightarrow> cache \<Rightarrow> nskey \<Rightarrow> (int \<times> err option) action" where
  "Reconcile_resched S X cch key =
     bind_io (attempt (reconcile_resched S X cch key)) (\<lambda>r. (case r of
        Inl e \<Rightarrow> ret (case asRetryPointer e of None \<Rightarrow> 0 | Some after \<Rightarrow> after * Second, Some e)
      | Inr _ \<Rightarrow> ret (0, None)))"

end
