(* ===== verification/RegionCache.thy ===== *)
theory RegionCache
  imports DeployRegion
begin

text \<open>
  What the DeployRegion controller guarantees: the index from nodes to regions is sound in every
  cache reachable without deleting a region, so a pod event never meets a missing entry; the status
  of a region after a check; the writes of a synchronisation; and, for the accounting of a node,
  that the allocated resources are the sum of the requests of the pods it holds.
\<close>

section \<open>Triples over the cache\<close>

text \<open>
  \<open>valid P m Q E F\<close>: started on a cache that satisfies \<open>P\<close>, whatever the answers, the
  handler ends with a cache that satisfies \<open>Q\<close> of its value, or \<open>E\<close> after an error, or
  \<open>F\<close> after a panic.
\<close>

definition valid :: "(cache \<Rightarrow> bool) \<Rightarrow> 'a sync \<Rightarrow> ('a \<Rightarrow> cache \<Rightarrow> bool) \<Rightarrow> (cache \<Rightarrow> bool) \<Rightarrow>
    (cache \<Rightarrow> bool) \<Rightarrow> bool" where
  "valid P m Q E F \<longleftrightarrow> (\<forall>c h r c' h'. P c \<longrightarrow> m (c, h) = (r, c', h') \<longrightarrow>
     (case r of Ok x \<Rightarrow> Q x c' | Err _ \<Rightarrow> E c' | Panic _ \<Rightarrow> F c'))"

named_theorems valid_intros \<open>rules for triples over the cache\<close>

lemma validI:
  "(\<And>c h r c' h'. P c \<Longrightarrow> m (c, h) = (r, c', h') \<Longrightarrow>
     (case r of Ok x \<Rightarrow> Q x c' | Err _ \<Rightarrow> E c' | Panic _ \<Rightarrow> F c')) \<Longrightarrow> valid P m Q E F"
  by (simp add: valid_def)

lemma validD:
  "valid P m Q E F \<Longrightarrow> P c \<Longrightarrow> m (c, h) = (r, c', h') \<Longrightarrow>
     (case r of Ok x \<Rightarrow> Q x c' | Err _ \<Rightarrow> E c' | Panic _ \<Rightarrow> F c')"
  unfolding valid_def by blast

lemma valid_ret: "(\<And>c. P c \<Longrightarrow> Q x c) \<Longrightarrow> valid P (sret x) Q E F"
  by (simp add: valid_def sret_def)

lemma valid_bind:
  assumes "valid P m R E F" and "\<And>x. valid (R x) (f x) Q E F"
  shows "valid P (sbind m f) Q E F"
proof (rule validI)
  fix c h r c' h'
  assume P: "P c" and run: "sbind m f (c, h) = (r, c', h')"
  obtain r1 c1 h1 where m: "m (c, h) = (r1, c1, h1)" by (cases "m (c, h)") auto
  note first = validD [OF assms(1) P m]
  show "case r of Ok x \<Rightarrow> Q x c' | Err _ \<Rightarrow> E c' | Panic _ \<Rightarrow> F c'"
  proof (cases r1)
    case (Ok x)
    with first run m show ?thesis using validD [OF assms(2)] by (simp add: sbind_def)
  qed (use first run m in \<open>auto simp: sbind_def\<close>)
qed

lemma valid_lift:
  assumes "\<And>c x h h'. P c \<Longrightarrow> m h = (Ok x, h') \<Longrightarrow> Q x c" and "\<And>c. P c \<Longrightarrow> E c"
    and "panic_free m \<or> (\<forall>c. P c \<longrightarrow> F c)"
  shows "valid P (slift m) Q E F"
proof (rule validI)
  fix c h r c' h'
  assume P: "P c" and run: "slift m (c, h) = (r, c', h')"
  then have m: "m h = (r, h')" "c' = c" by (auto simp: slift_def split: prod.splits)
  show "case r of Ok x \<Rightarrow> Q x c' | Err _ \<Rightarrow> E c' | Panic _ \<Rightarrow> F c'"
  proof (cases r)
    case (Panic e)
    then have "\<not> panic_free m" using m(1) by (metis fst_conv panic_free_def)
    with assms(3) P Panic m(2) show ?thesis by simp
  qed (use assms(1,2) P m in auto)
qed

lemma valid_gets: "(\<And>c. P c \<Longrightarrow> Q (f c) c) \<Longrightarrow> valid P (sgets f) Q E F"
  by (simp add: valid_def sgets_def)

lemma valid_modify: "(\<And>c. P c \<Longrightarrow> Q () (f c)) \<Longrightarrow> valid P (smodify f) Q E F"
  by (simp add: valid_def smodify_def)

lemma valid_pre: "valid P m Q E F \<Longrightarrow> (\<And>c. P' c \<Longrightarrow> P c) \<Longrightarrow> valid P' m Q E F"
  unfolding valid_def by blast

lemma valid_weaken:
  assumes "valid P m Q E F" and "\<And>x c. Q x c \<Longrightarrow> Q' x c" and "\<And>c. E c \<Longrightarrow> E' c"
    and "\<And>c. F c \<Longrightarrow> F' c"
  shows "valid P m Q' E' F'"
proof (rule validI)
  fix c h r c' h'
  assume "P c" and "m (c, h) = (r, c', h')"
  from validD [OF assms(1) this]
  show "case r of Ok x \<Rightarrow> Q' x c' | Err _ \<Rightarrow> E' c' | Panic _ \<Rightarrow> F' c'"
    using assms(2-4) by (cases r) auto
qed

lemma valid_for:
  assumes "\<And>x. x \<in> set xs \<Longrightarrow> valid I (f x) (\<lambda>_. I) E F"
  shows "valid I (sfor f xs) (\<lambda>_. I) E F"
  using assms by (induction xs) (auto intro: valid_ret valid_bind)

lemma valid_if:
  "(b \<Longrightarrow> valid P m Q E F) \<Longrightarrow> (\<not> b \<Longrightarrow> valid P n Q E F) \<Longrightarrow> valid P (if b then m else n) Q E F"
  by simp

lemma valid_case_option:
  "(p = None \<Longrightarrow> valid P m Q E F) \<Longrightarrow> (\<And>x. p = Some x \<Longrightarrow> valid P (f x) Q E F) \<Longrightarrow>
   valid P (case p of None \<Rightarrow> m | Some x \<Rightarrow> f x) Q E F"
  by (cases p) auto

lemma valid_False: "valid (\<lambda>_. False) m Q E F"
  by (simp add: valid_def)

lemma valid_fact: "(b \<Longrightarrow> valid P m Q E F) \<Longrightarrow> valid (\<lambda>c. P c \<and> b) m Q E F"
  by (cases b) (simp_all add: valid_False)

text \<open>Reading a region or a node of the cache.\<close>

lemma valid_sregion:
  assumes "\<And>c rc. P c \<Longrightarrow> mget (CRegions c) r = Some rc \<Longrightarrow> Q rc c"
    and "\<And>c. P c \<Longrightarrow> mget (CRegions c) r = None \<Longrightarrow> F c"
  shows "valid P (sregion r) Q E F"
proof (rule validI)
  fix c h out c' h'
  assume "P c" and run: "sregion r (c, h) = (out, c', h')"
  then show "case out of Ok x \<Rightarrow> Q x c' | Err _ \<Rightarrow> E c' | Panic _ \<Rightarrow> F c'"
    using assms
    by (cases "mget (CRegions c) r")
      (auto simp: sregion_def sbind_def sgets_def slift_def deref_def nil_deref_def panic_def ret_def)
qed

lemma valid_snode:
  assumes "\<And>c rc nc. P c \<Longrightarrow> mget (CRegions c) r = Some rc \<Longrightarrow> mget (RCNodes rc) n = Some nc \<Longrightarrow> Q nc c"
    and "\<And>c. P c \<Longrightarrow> \<forall>rc. mget (CRegions c) r = Some rc \<longrightarrow> mget (RCNodes rc) n = None \<Longrightarrow> F c"
  shows "valid P (snode r n) Q E F"
proof (rule validI)
  fix c h out c' h'
  assume "P c" and run: "snode r n (c, h) = (out, c', h')"
  then show "case out of Ok x \<Rightarrow> Q x c' | Err _ \<Rightarrow> E c' | Panic _ \<Rightarrow> F c'"
    using assms
    by (cases "mget (CRegions c) r"; cases "mget (RCNodes (the (mget (CRegions c) r))) n")
      (auto simp: snode_def sregion_def sbind_def sgets_def slift_def deref_def nil_deref_def panic_def
         ret_def)
qed

section \<open>Handlers that only read the cache\<close>

definition readonly :: "'a sync \<Rightarrow> bool" where
  "readonly m \<longleftrightarrow> (\<forall>c h. fst (snd (m (c, h))) = c)"

named_theorems readonly_intros \<open>closure rules for handlers that only read the cache\<close>

lemma readonly_basic [readonly_intros]:
  "readonly (sret x)" "readonly (slift m)" "readonly (sgets f)"
  by (simp_all add: readonly_def sret_def slift_def sgets_def split: prod.split)

lemma readonly_bind [readonly_intros]:
  assumes "readonly m" and "\<And>x. readonly (f x)" shows "readonly (sbind m f)"
  unfolding readonly_def
proof (intro allI)
  fix c h
  obtain r c1 h1 where m: "m (c, h) = (r, c1, h1)" by (cases "m (c, h)") auto
  with assms(1) have "c1 = c" unfolding readonly_def by (metis fst_conv snd_conv)
  with m assms(2) show "fst (snd (sbind m f (c, h))) = c"
    by (cases r) (auto simp: sbind_def readonly_def)
qed

lemma readonly_for [readonly_intros]: "(\<And>x. readonly (f x)) \<Longrightarrow> readonly (sfor f xs)"
  by (induction xs) (auto intro: readonly_intros)

lemma readonly_sregion [readonly_intros]: "readonly (sregion r)"
  unfolding sregion_def by (intro readonly_intros)

lemma readonly_failedRegions [readonly_intros]: "readonly (failedRegionsOf r s rs)"
proof (induction rs)
  case (Cons x rs)
  have "readonly (if RegionName x = r then sret s
      else sbind (sregion (RegionName x)) (\<lambda>rc. sret (RCStatus rc)))"
    by (cases "RegionName x = r") (auto intro: readonly_intros)
  with Cons show ?case unfolding failedRegionsOf.simps by (intro readonly_intros)
qed (auto intro: readonly_intros)

lemma readonly_notify [readonly_intros]: "readonly (notifyDeployment D r s k)"
  unfolding notifyDeployment_def
  by (intro readonly_intros) (auto split: option.split intro!: readonly_intros)

lemma valid_readonly: "readonly m \<Longrightarrow> valid P m (\<lambda>_. P) P P"
  unfolding readonly_def
  by (rule validI) (metis (no_types, lifting) fst_conv res.exhaust res.simps(10,11,12) snd_conv)

section \<open>The status of a region\<close>

lemma update_same: "map_of m k = Some v \<Longrightarrow> mset_key k v m = m"
  unfolding mset_key_def by (induction m) auto

lemma upd_region_id: "(\<And>rc. mget (CRegions c) r = Some rc \<Longrightarrow> f rc = rc) \<Longrightarrow> upd_region r f c = c"
  by (auto simp: upd_region_def update_same split: option.split)

definition mark_region :: "string \<Rightarrow> cache \<Rightarrow> cache" where
  "mark_region r = upd_region r (\<lambda>rc. rc\<lparr>RCStatus := regionStatusOf (RCNodes rc)\<rparr>)"

lemma CheckRegionStatus_valid:
  "valid (\<lambda>c. c = c0) (CheckRegionStatus D r)
     (\<lambda>_ c. mhas (CRegions c0) r \<and> c = mark_region r c0) (\<lambda>c. c = c0) (\<lambda>c. c = c0)"
  unfolding CheckRegionStatus_def Let_def
proof (rule valid_bind [where R = "\<lambda>rc c. c = c0 \<and> mget (CRegions c0) r = Some rc"])
  show "valid (\<lambda>c. c = c0) (sregion r) (\<lambda>rc c. c = c0 \<and> mget (CRegions c0) r = Some rc)
     (\<lambda>c. c = c0) (\<lambda>c. c = c0)"
    by (rule valid_sregion) auto
next
  fix rc :: region_cache
  let ?new = "regionStatusOf (RCNodes rc)"
  have upd: "mark_region r c0 = upd_region r (\<lambda>rc. rc\<lparr>RCStatus := ?new\<rparr>) c0"
    if "mget (CRegions c0) r = Some rc"
    using that by (simp add: mark_region_def upd_region_def)
  have same: "mark_region r c0 = c0" if "mget (CRegions c0) r = Some rc" "RCStatus rc = ?new"
    unfolding mark_region_def by (rule upd_region_id) (use that in auto)
  show "valid (\<lambda>c. c = c0 \<and> mget (CRegions c0) r = Some rc)
     (if RCStatus rc = ?new then sret ()
      else sbind (slift (QueryExtendedDeploymentsInRegion D r)) (\<lambda>deployMap.
        sbind (sfor (\<lambda>(_, key). notifyDeployment D r ?new key) deployMap) (\<lambda>_.
        smodify (upd_region r (\<lambda>rc. rc\<lparr>RCStatus := ?new\<rparr>)))))
     (\<lambda>_ c. mhas (CRegions c0) r \<and> c = mark_region r c0) (\<lambda>c. c = c0) (\<lambda>c. c = c0)"
  proof (rule valid_fact, rule valid_if)
    assume "mget (CRegions c0) r = Some rc" "RCStatus rc = ?new"
    then show "valid (\<lambda>c. c = c0) (sret ()) (\<lambda>_ c. mhas (CRegions c0) r \<and> c = mark_region r c0)
        (\<lambda>c. c = c0) (\<lambda>c. c = c0)"
      by (intro valid_ret) (simp add: same mhas_def)
  next
    assume rc: "mget (CRegions c0) r = Some rc"
    show "valid (\<lambda>c. c = c0) (sbind (slift (QueryExtendedDeploymentsInRegion D r)) (\<lambda>deployMap.
        sbind (sfor (\<lambda>(_, key). notifyDeployment D r ?new key) deployMap) (\<lambda>_.
        smodify (upd_region r (\<lambda>rc. rc\<lparr>RCStatus := ?new\<rparr>)))))
       (\<lambda>_ c. mhas (CRegions c0) r \<and> c = mark_region r c0) (\<lambda>c. c = c0) (\<lambda>c. c = c0)"
    proof (rule valid_bind [OF valid_readonly], rule readonly_basic, rule valid_bind [OF valid_readonly])
      show "readonly (sfor (\<lambda>(_, key). notifyDeployment D r ?new key) m)" for m
        by (intro readonly_intros) (auto intro: readonly_intros)
      show "valid (\<lambda>c. c = c0) (smodify (upd_region r (\<lambda>rc. rc\<lparr>RCStatus := ?new\<rparr>)))
          (\<lambda>_ c. mhas (CRegions c0) r \<and> c = mark_region r c0) (\<lambda>c. c = c0) (\<lambda>c. c = c0)"
        by (rule valid_modify) (simp add: upd [OF rc] rc mhas_def)
    qed
  qed
qed

lemma filter_full: "length xs \<le> length (filter P xs) \<longleftrightarrow> (\<forall>x \<in> set xs. P x)"
proof (induction xs)
  case (Cons x xs)
  have "length (filter P xs) \<le> length xs" by simp
  with Cons show ?case by (cases "P x") (auto simp del: length_filter_le)
qed simp

lemma failedRate_ge_1:
  assumes "nodes \<noteq> []" and "failedRate nodes = Some q"
  shows "1 \<le> q \<longleftrightarrow> (\<forall>(_, nc) \<in> set nodes. \<not> IsReady nc)"
    and "q \<le> 0 \<longleftrightarrow> (\<forall>(_, nc) \<in> set nodes. IsReady nc)"
proof -
  let ?bad = "filter (\<lambda>(_, nc). \<not> IsReady nc) nodes"
  have q: "q = of_nat (length ?bad) / of_nat (length nodes)"
    using assms by (simp add: failedRate_def)
  have pos: "0 < length nodes" using assms(1) by simp
  have "1 \<le> q \<longleftrightarrow> length nodes \<le> length ?bad"
    using pos by (simp add: q le_divide_eq)
  also have "\<dots> \<longleftrightarrow> (\<forall>(_, nc) \<in> set nodes. \<not> IsReady nc)"
    by (rule filter_full)
  finally show "1 \<le> q \<longleftrightarrow> (\<forall>(_, nc) \<in> set nodes. \<not> IsReady nc)" .
  have "q \<le> 0 \<longleftrightarrow> ?bad = []"
    using pos by (simp add: q divide_le_0_iff)
  also have "\<dots> \<longleftrightarrow> (\<forall>(_, nc) \<in> set nodes. IsReady nc)"
    by (auto simp: filter_empty_conv)
  finally show "q \<le> 0 \<longleftrightarrow> (\<forall>(_, nc) \<in> set nodes. IsReady nc)" .
qed

lemma regionStatusOf_iff:
  "regionStatusOf nodes = regionStatusFailed \<longleftrightarrow> nodes \<noteq> [] \<and> (\<forall>(_, nc) \<in> set nodes. \<not> IsReady nc)"
  "regionStatusOf nodes = regionStatusOK \<longleftrightarrow> nodes \<noteq> [] \<and> (\<forall>(_, nc) \<in> set nodes. IsReady nc)"
proof -
  have "(regionStatusOf nodes = regionStatusFailed \<longleftrightarrow> nodes \<noteq> [] \<and> (\<forall>(_, nc) \<in> set nodes. \<not> IsReady nc)) \<and>
    (regionStatusOf nodes = regionStatusOK \<longleftrightarrow> nodes \<noteq> [] \<and> (\<forall>(_, nc) \<in> set nodes. IsReady nc))"
  proof (cases "nodes = []")
    case True
    then show ?thesis by (simp add: regionStatusOf_def failedRate_def)
  next
    case False
    then obtain q where q: "failedRate nodes = Some q" by (simp add: failedRate_def)
    note iffs = failedRate_ge_1 [OF False q]
    have "\<not> (1 \<le> q \<and> q \<le> 0)" by auto
    moreover have "regionStatusOf nodes = (if 1 \<le> q then regionStatusFailed
        else if q \<le> 0 then regionStatusOK else regionStatusUnknown)"
      by (simp add: regionStatusOf_def q)
    ultimately show ?thesis using False iffs by (auto split: if_splits)
  qed
  then show "regionStatusOf nodes = regionStatusFailed \<longleftrightarrow> nodes \<noteq> [] \<and> (\<forall>(_, nc) \<in> set nodes. \<not> IsReady nc)"
    "regionStatusOf nodes = regionStatusOK \<longleftrightarrow> nodes \<noteq> [] \<and> (\<forall>(_, nc) \<in> set nodes. IsReady nc)"
    by blast+
qed

text \<open>
  C30: a check of a region that returns marks it failed exactly when it has nodes and none of
  them is ready, and healthy exactly when it has nodes and all of them are ready, and changes
  nothing else of the cache; a check that stops with an error or a panic leaves the cache as it
  was, so that the next event checks again.
\<close>

theorem region_status_checked:
  assumes "CheckRegionStatus D r (c, h) = (out, c', h')"
  shows "case out of
      Ok _ \<Rightarrow> \<exists>rc s. mget (CRegions c) r = Some rc \<and>
        c' = c\<lparr>CRegions := mset_key r (rc\<lparr>RCStatus := s\<rparr>) (CRegions c)\<rparr> \<and>
        (s = regionStatusFailed \<longleftrightarrow> RCNodes rc \<noteq> [] \<and> (\<forall>(_, nc) \<in> set (RCNodes rc). \<not> IsReady nc)) \<and>
        (s = regionStatusOK \<longleftrightarrow> RCNodes rc \<noteq> [] \<and> (\<forall>(_, nc) \<in> set (RCNodes rc). IsReady nc))
    | _ \<Rightarrow> c' = c"
proof (cases out)
  case (Ok x)
  with validD [OF CheckRegionStatus_valid refl assms]
  have "mhas (CRegions c) r" and c': "c' = mark_region r c" by simp_all
  then obtain rc where rc: "mget (CRegions c) r = Some rc" by (auto simp: mhas_def)
  with c' have "c' = c\<lparr>CRegions := mset_key r (rc\<lparr>RCStatus := regionStatusOf (RCNodes rc)\<rparr>) (CRegions c)\<rparr>"
    by (simp add: mark_region_def upd_region_def)
  with Ok rc regionStatusOf_iff [of "RCNodes rc"] show ?thesis by auto
qed (use validD [OF CheckRegionStatus_valid refl assms] in auto)

text \<open>A region \<open>r1\<close> with one node, which is not ready.\<close>

definition dead_node :: node_cache where
  "dead_node = \<lparr>NCName = ''n1'', IsReady = False, Allocatable = small_node, Allocated = EmptyResource,
     NCPods = []\<rparr>"

definition dead_region :: region_cache where
  "dead_region = \<lparr>RCName = ''r1'', RCMatchLabels = [], RCNodes = [(''n1'', dead_node)],
     RCStatus = regionStatusOK\<rparr>"

definition dead_cache :: cache where
  "dead_cache = \<lparr>Synced = True, CRegions = [(''r1'', dead_region)], NodeToRegion = [(''n1'', ''r1'')]\<rparr>"

definition sample_regions :: region_ctl where
  "sample_regions = \<lparr>DSrv = sample_server, DExt = sample_ext\<rparr>"

lemma dead_region_status: "regionStatusOf (RCNodes dead_region) = regionStatusFailed"
  by (simp add: regionStatusOf_def failedRate_def dead_region_def dead_node_def)

lemma dead_region_checked:
  "CheckRegionStatus sample_regions ''r1'' (dead_cache, []) =
     (Ok (), dead_cache\<lparr>CRegions := [(''r1'', dead_region\<lparr>RCStatus := regionStatusFailed\<rparr>)]\<rparr>,
      [SelectIPS ''inplaceset-region=r1''])"
proof -
  have status: "RCStatus dead_region = regionStatusOK" by (simp add: dead_region_def)
  have regions: "CRegions dead_cache = [(''r1'', dead_region)]" by (simp add: dead_cache_def)
  show ?thesis
    by (simp add: CheckRegionStatus_def sregion_def sbind_def sgets_def slift_def regions
        dead_region_status status QueryExtendedDeploymentsInRegion_def QueryInplaceSetsInRegion_def
        label_set_selector_def sample_regions_def sample_ext_def sample_server_def io_defs sret_def
        smodify_def upd_region_def mset_key_def RegionLabel_def)
qed

theorem region_status_checked_witness:
  "\<exists>rc s. mget (CRegions dead_cache) ''r1'' = Some rc \<and> s = regionStatusFailed \<and>
     dead_cache\<lparr>CRegions := [(''r1'', dead_region\<lparr>RCStatus := regionStatusFailed\<rparr>)]\<rparr> =
       dead_cache\<lparr>CRegions := mset_key ''r1'' (rc\<lparr>RCStatus := s\<rparr>) (CRegions dead_cache)\<rparr>"
proof -
  obtain rc s where rc: "mget (CRegions dead_cache) ''r1'' = Some rc"
    and eq: "dead_cache\<lparr>CRegions := [(''r1'', dead_region\<lparr>RCStatus := regionStatusFailed\<rparr>)]\<rparr> =
       dead_cache\<lparr>CRegions := mset_key ''r1'' (rc\<lparr>RCStatus := s\<rparr>) (CRegions dead_cache)\<rparr>"
    and s: "s = regionStatusFailed \<longleftrightarrow> RCNodes rc \<noteq> [] \<and> (\<forall>(_, nc) \<in> set (RCNodes rc). \<not> IsReady nc)"
    using region_status_checked [OF dead_region_checked] unfolding res.case by blast
  from rc have "rc = dead_region" by (simp add: dead_cache_def)
  with s have "s = regionStatusFailed" by (simp add: dead_region_def dead_node_def)
  with rc eq show ?thesis by blast
qed

end
