(* ===== verification/RegionIndex.thy ===== *)
theory RegionIndex
  imports RegionCache
begin

text \<open>
  The index from nodes to regions: every operation of the DeployRegion controller keeps it sound,
  however it ends, and so it is sound in every cache the controller reaches. Deleting a region is
  the one exception.
\<close>

section \<open>The invariant\<close>

definition region_keys :: "cache \<Rightarrow> string set" where
  "region_keys c = fst ` set (CRegions c)"

text \<open>Every indexed node is a node of the region it is indexed under, and regions carry their key as name.\<close>

definition has_node :: "cache \<Rightarrow> string \<Rightarrow> string \<Rightarrow> bool" where
  "has_node c r n = (case mget (CRegions c) r of None \<Rightarrow> False | Some rc \<Rightarrow> mhas (RCNodes rc) n)"

definition well_indexed :: "cache \<Rightarrow> bool" where
  "well_indexed c \<longleftrightarrow> (\<forall>n r. mget (NodeToRegion c) n = Some r \<longrightarrow> has_node c r n) \<and>
     list_all (\<lambda>(k, rc). RCName rc = k) (CRegions c)"

definition indexed :: "string set \<Rightarrow> cache \<Rightarrow> bool" where
  "indexed S c \<longleftrightarrow> region_keys c = S \<and> well_indexed c"

lemma region_keys_iff: "r \<in> region_keys c \<longleftrightarrow> mget (CRegions c) r \<noteq> None"
  by (simp add: region_keys_def map_of_eq_None_iff)

lemma indexedI:
  assumes "region_keys c = S" and "\<And>n r. mget (NodeToRegion c) n = Some r \<Longrightarrow> has_node c r n"
    and "list_all (\<lambda>(k, rc). RCName rc = k) (CRegions c)"
  shows "indexed S c"
  using assms by (simp add: indexed_def well_indexed_def)

lemma indexedD:
  assumes "indexed S c"
  shows "region_keys c = S" and "mget (NodeToRegion c) n = Some r \<Longrightarrow> has_node c r n"
    and "list_all (\<lambda>(k, rc). RCName rc = k) (CRegions c)"
  using assms by (simp_all add: indexed_def well_indexed_def)

lemma fst_set_key [simp]: "fst ` set (mset_key k v m) = insert k (fst ` set m)"
  using keys_set [of k v m] by simp

lemma list_all_set_key: "list_all P m \<Longrightarrow> P (k, v) \<Longrightarrow> list_all P (mset_key k v m)"
  unfolding mset_key_def by (induction m) auto

lemma region_keys_upd [simp]: "region_keys (upd_region r f c) = region_keys c"
proof (cases "mget (CRegions c) r")
  case None
  then show ?thesis by (simp add: upd_region_def)
next
  case (Some rc)
  then have "r \<in> fst ` set (CRegions c)" by (metis map_of_eq_None_iff option.distinct(1))
  with Some keys_set [of r "f rc" "CRegions c"] show ?thesis
    by (simp add: upd_region_def region_keys_def insert_absorb)
qed

text \<open>An update of a region that keeps its name and its nodes keeps the index.\<close>

definition keeps_nodes :: "(region_cache \<Rightarrow> region_cache) \<Rightarrow> bool" where
  "keeps_nodes f \<longleftrightarrow> (\<forall>rc. RCName (f rc) = RCName rc \<and> (\<forall>n. mhas (RCNodes rc) n \<longrightarrow> mhas (RCNodes (f rc)) n))"

lemma keeps_nodes_basic [simp]:
  "keeps_nodes (\<lambda>rc. rc\<lparr>RCStatus := s rc\<rparr>)" "keeps_nodes (AddNode n)" "keeps_nodes (OnNodeUpdate n)"
  "keeps_nodes (upd_node k g)"
  by (auto simp: keeps_nodes_def AddNode_def OnNodeUpdate_def upd_node_def split: option.split)

lemma has_node_upd:
  assumes "keeps_nodes f" and "has_node c r' n" shows "has_node (upd_region r f c) r' n"
  using assms
  by (cases "r' = r") (auto simp: has_node_def upd_region_def keeps_nodes_def split: option.splits)

lemma indexed_upd:
  assumes "keeps_nodes f" and "indexed S c" shows "indexed S (upd_region r f c)"
proof (rule indexedI)
  show "region_keys (upd_region r f c) = S" using indexedD(1) [OF assms(2)] by simp
  have "NodeToRegion (upd_region r f c) = NodeToRegion c" by (simp add: upd_region_def split: option.split)
  then show "has_node (upd_region r f c) r' n" if "mget (NodeToRegion (upd_region r f c)) n = Some r'" for n r'
    using that indexedD(2) [OF assms(2)] by (intro has_node_upd [OF assms(1)]) simp
  show "list_all (\<lambda>(k, rc). RCName rc = k) (CRegions (upd_region r f c))"
  proof (cases "mget (CRegions c) r")
    case None
    then show ?thesis using indexedD(3) [OF assms(2)] by (simp add: upd_region_def)
  next
    case (Some rc)
    then have "RCName rc = r"
      using indexedD(3) [OF assms(2)] map_of_SomeD [OF Some] by (auto simp: list_all_iff)
    with Some assms(1) indexedD(3) [OF assms(2)] show ?thesis
      by (simp add: upd_region_def keeps_nodes_def list_all_set_key)
  qed
qed

text \<open>A node enters the index after it has been added to its region.\<close>

lemma indexed_register:
  assumes "indexed S c" and "r \<in> S"
  shows "indexed S ((upd_region r (AddNode n) c)\<lparr>NodeToRegion :=
     mset_key (Name n) r (NodeToRegion (upd_region r (AddNode n) c))\<rparr>)" (is "indexed S ?d")
proof -
  let ?c = "upd_region r (AddNode n) c"
  have c: "indexed S ?c" using indexed_upd [OF _ assms(1)] by simp
  have "mget (CRegions c) r \<noteq> None"
    using assms(2) indexedD(1) [OF assms(1)] region_keys_iff by blast
  then have new: "has_node ?d r (Name n)" by (auto simp: has_node_def upd_region_def AddNode_def)
  have same: "has_node ?d r' k = has_node ?c r' k" for r' k by (simp add: has_node_def)
  show ?thesis
  proof (rule indexedI)
    show "region_keys ?d = S" using indexedD(1) [OF c] by (simp add: region_keys_def)
    show "has_node ?d r' k" if "mget (NodeToRegion ?d) k = Some r'" for k r'
      using that new indexedD(2) [OF c] same by (cases "k = Name n") simp_all
    show "list_all (\<lambda>(k, rc). RCName rc = k) (CRegions ?d)" using indexedD(3) [OF c] by simp
  qed
qed

lemma indexed_AddRegion:
  assumes "indexed S c" and "Name dr \<notin> S" shows "indexed (insert (Name dr) S) (AddRegion dr c)"
proof (rule indexedI)
  show "region_keys (AddRegion dr c) = insert (Name dr) S"
    using indexedD(1) [OF assms(1)] by (simp add: AddRegion_def region_keys_def)
  show "has_node (AddRegion dr c) r n" if "mget (NodeToRegion (AddRegion dr c)) n = Some r" for n r
  proof -
    have node: "has_node c r n" using that indexedD(2) [OF assms(1)] by (simp add: AddRegion_def)
    then have "r \<in> region_keys c" by (auto simp: has_node_def region_keys_iff split: option.splits)
    with assms(2) indexedD(1) [OF assms(1)] have "r \<noteq> Name dr" by blast
    with node show ?thesis by (simp add: has_node_def AddRegion_def)
  qed
  show "list_all (\<lambda>(k, rc). RCName rc = k) (CRegions (AddRegion dr c))"
    using indexedD(3) [OF assms(1)] by (simp add: AddRegion_def list_all_set_key)
qed

section \<open>Every operation keeps it\<close>

text \<open>The triple of an operation that keeps the index, whatever its outcome.\<close>

abbreviation stays_indexed :: "string set \<Rightarrow> 'a sync \<Rightarrow> bool" where
  "stays_indexed S m \<equiv> valid (indexed S) m (\<lambda>_. indexed S) well_indexed well_indexed"

lemma indexed_wi: "indexed S c \<Longrightarrow> well_indexed c"
  by (simp add: indexed_def)

lemma valid_exact:
  assumes "\<And>c0. P c0 \<Longrightarrow> valid (\<lambda>c. c = c0) m Q E F" shows "valid P m Q E F"
  by (rule validI) (use validD [OF assms] in blast)

lemma indexed_readonly: "readonly m \<Longrightarrow> stays_indexed S m"
  by (rule valid_weaken [OF valid_readonly]) (auto intro: indexed_wi)

lemma indexed_modify: "keeps_nodes f \<Longrightarrow> stays_indexed S (smodify (upd_region r f))"
  by (rule valid_modify) (rule indexed_upd)

lemma indexed_check: "stays_indexed S (CheckRegionStatus D r)"
proof (rule valid_exact)
  fix c0 assume "indexed S c0"
  moreover have "indexed S (mark_region r c0)"
    unfolding mark_region_def by (rule indexed_upd) (use \<open>indexed S c0\<close> in auto)
  ultimately show "valid (\<lambda>c. c = c0) (CheckRegionStatus D r) (\<lambda>_. indexed S) well_indexed well_indexed"
    by (intro valid_weaken [OF CheckRegionStatus_valid]) (auto intro: indexed_wi)
qed

lemma readonly_snode [readonly_intros]: "readonly (snode r n)"
  unfolding snode_def by (intro readonly_intros)

lemma readonly_stop [readonly_intros]: "readonly (stopReconcile e)"
  unfolding stopReconcile_def by (cases e) (auto intro: readonly_intros)

lemma indexed_registerNode: "r \<in> S \<Longrightarrow> stays_indexed S (registerNode r n)"
  unfolding registerNode_def
  by (rule valid_bind [where R = "\<lambda>_ c. \<exists>c0. indexed S c0 \<and> c = upd_region r (AddNode n) c0"])
    (auto intro!: valid_modify indexed_register)

lemma indexed_claimNode: "r \<in> S \<Longrightarrow> stays_indexed S (claimNode r n)"
  unfolding claimNode_def
  by (intro valid_bind [OF indexed_readonly] valid_bind [OF indexed_readonly] indexed_registerNode)
    (auto intro!: readonly_intros split: option.split)

lemma indexed_loadRegion:
  assumes "Name dr \<notin> S"
  shows "valid (indexed S) (loadRegion D dr) (\<lambda>_. indexed (insert (Name dr) S)) well_indexed well_indexed"
  unfolding loadRegion_def
proof (rule valid_bind [OF valid_modify])
  show "indexed (insert (Name dr) S) (AddRegion dr c)" if "indexed S c" for c
    using that assms by (rule indexed_AddRegion)
  show "stays_indexed (insert (Name dr) S)
      (sbind (slift (QueryNodesInRegion D dr)) (\<lambda>nodes. sfor (claimNode (Name dr)) nodes))"
    by (rule valid_bind [OF indexed_readonly]) (auto intro!: valid_for indexed_claimNode readonly_intros)
qed

lemma indexed_loadRegions:
  assumes "distinct (map Name drs)" and "Name ` set drs \<inter> S = {}"
  shows "valid (indexed S) (sfor (loadRegion D) drs) (\<lambda>_. well_indexed) well_indexed well_indexed"
  using assms
proof (induction drs arbitrary: S)
  case Nil
  then show ?case by (auto intro!: valid_ret intro: indexed_wi)
next
  case (Cons dr drs)
  show ?case unfolding sfor.simps
  proof (rule valid_bind)
    show "valid (indexed S) (loadRegion D dr) (\<lambda>_. indexed (insert (Name dr) S)) well_indexed well_indexed"
      using Cons.prems(2) by (intro indexed_loadRegion) auto
    show "valid (indexed (insert (Name dr) S)) (sfor (loadRegion D) drs) (\<lambda>_. well_indexed)
        well_indexed well_indexed"
      using Cons.prems by (intro Cons.IH) auto
  qed
qed

lemma indexed_loadPod: "stays_indexed S (loadPod p)"
  unfolding loadPod_def Let_def
  by (intro valid_bind [OF indexed_readonly])
    (auto split: option.split intro!: readonly_intros valid_bind [OF indexed_readonly] indexed_modify
      valid_ret)

lemma wi_of_indexed:
  assumes "\<And>S. stays_indexed S m" shows "valid well_indexed m (\<lambda>_. well_indexed) well_indexed well_indexed"
proof (rule valid_exact)
  fix c0 assume "well_indexed c0"
  then have "indexed (region_keys c0) c0" by (simp add: indexed_def)
  then show "valid (\<lambda>c. c = c0) m (\<lambda>_. well_indexed) well_indexed well_indexed"
    by (intro valid_pre [OF valid_weaken [OF assms [of "region_keys c0"]]]) (auto intro: indexed_wi)
qed

lemma indexed_nodeUpdated: "stays_indexed S (nodeUpdated D n r)"
  unfolding nodeUpdated_def
  by (intro valid_bind [OF indexed_readonly] valid_bind [OF indexed_modify] valid_if indexed_check
      valid_ret readonly_intros) simp_all

lemma indexed_nodeAdded: "stays_indexed S (nodeAdded D n r)"
  unfolding nodeAdded_def
proof (rule valid_bind [where R = "\<lambda>_ c. indexed S c \<and> r \<in> S"])
  show "valid (indexed S) (sregion r) (\<lambda>_ c. indexed S c \<and> r \<in> S) well_indexed well_indexed"
  proof (rule valid_sregion)
    fix c rc assume c: "indexed S c" "mget (CRegions c) r = Some rc"
    then have "r \<in> region_keys c" by (simp add: region_keys_iff)
    with c indexedD(1) [OF c(1)] show "indexed S c \<and> r \<in> S" by simp
  qed (rule indexed_wi)
next
  fix rc :: region_cache
  show "valid (\<lambda>c. indexed S c \<and> r \<in> S)
    (sbind (registerNode r n) (\<lambda>_. sbind (slift (QueryAllPod D)) (\<lambda>pods.
       sbind (sfor (\<lambda>pod. if NodeName (PodSpec pod) = Name n
         then smodify (upd_region r (upd_node (Name n) (AddPod pod))) else sret ()) pods) (\<lambda>_.
       CheckRegionStatus D r)))) (\<lambda>_. indexed S) well_indexed well_indexed"
    by (intro valid_fact valid_bind [OF indexed_registerNode] valid_bind [OF indexed_readonly]
        valid_bind [OF valid_for] valid_if indexed_modify valid_ret indexed_check readonly_intros) simp_all
qed

lemma indexed_handleNodeEvent: "stays_indexed S (handleNodeEvent D name)"
  unfolding handleNodeEvent_def
  by (intro valid_bind [OF indexed_readonly] readonly_intros valid_case_option indexed_nodeUpdated
      indexed_readonly valid_if valid_ret indexed_nodeAdded)

lemma indexed_podAt:
  "valid (indexed S) (sbind (sgets (\<lambda>c. mget (NodeToRegion c) n)) (\<lambda>loc. case loc of
      None \<Rightarrow> sret ()
    | Some r \<Rightarrow> sbind (snode r n) (\<lambda>_. smodify (upd_region r (upd_node n (OnPodUpdate pod))))))
    (\<lambda>_. indexed S) well_indexed (\<lambda>_. False)"
proof (rule valid_bind [where R = "\<lambda>loc c. indexed S c \<and> mget (NodeToRegion c) n = loc"],
    rule valid_gets, simp)
  fix loc :: "string option"
  let ?P = "\<lambda>c. indexed S c \<and> mget (NodeToRegion c) n = loc"
  have "valid ?P (sbind (snode r n) (\<lambda>_. smodify (upd_region r (upd_node n (OnPodUpdate pod)))))
    (\<lambda>_. indexed S) well_indexed (\<lambda>_. False)" if "loc = Some r" for r
  proof (rule valid_bind [where R = "\<lambda>_. indexed S"])
    show "valid ?P (snode r n) (\<lambda>_. indexed S) well_indexed (\<lambda>_. False)"
    proof (rule valid_snode)
      fix c assume c: "?P c" and none: "\<forall>rc. mget (CRegions c) r = Some rc \<longrightarrow> mget (RCNodes rc) n = None"
      from c have "has_node c r n" using indexedD(2) that by blast
      with none show False by (auto simp: has_node_def mhas_def split: option.splits)
    qed simp
    show "valid (indexed S) (smodify (upd_region r (upd_node n (OnPodUpdate pod)))) (\<lambda>_. indexed S)
        well_indexed (\<lambda>_. False)"
      by (rule valid_modify) (simp add: indexed_upd)
  qed
  then show "valid ?P (case loc of None \<Rightarrow> sret ()
    | Some r \<Rightarrow> sbind (snode r n) (\<lambda>_. smodify (upd_region r (upd_node n (OnPodUpdate pod)))))
    (\<lambda>_. indexed S) well_indexed (\<lambda>_. False)"
    by (intro valid_case_option) (auto intro: valid_ret)
qed

lemma indexed_handlePodEvent:
  "valid (indexed S) (handlePodEvent D ns name) (\<lambda>_. indexed S) well_indexed (\<lambda>_. False)"
  unfolding handlePodEvent_def Let_def
proof (rule valid_bind [where R = "\<lambda>_. indexed S"])
  show "valid (indexed S) (slift (QueryPod D ns name)) (\<lambda>_. indexed S) well_indexed (\<lambda>_. False)"
  proof (rule valid_lift)
    show "panic_free (QueryPod D ns name) \<or> (\<forall>c. indexed S c \<longrightarrow> False)"
      unfolding QueryPod_def notFound_None_def by (intro disjI1 panic_free_intros)
  qed (auto intro: indexed_wi)
qed (auto intro!: valid_case_option valid_if valid_ret indexed_podAt simp: stopReconcile_def)

lemma indexed_handleRegionCreate:
  assumes "Name dr \<notin> S"
  shows "valid (indexed S) (handleRegionCreate D dr) (\<lambda>_. well_indexed) well_indexed well_indexed"
  unfolding handleRegionCreate_def
proof (rule valid_bind [OF valid_modify])
  let ?S = "insert (Name dr) S"
  show "indexed ?S (AddRegion dr c)" if "indexed S c" for c
    using that assms by (rule indexed_AddRegion)
  show "valid (indexed ?S) (sbind (slift (QueryNodesInRegion D dr)) (\<lambda>nodes.
     sbind (sfor (registerNode (Name dr)) nodes) (\<lambda>_.
     sbind (slift (QueryAllPod D)) (\<lambda>pods.
     sbind (sfor (\<lambda>pod. smodify (upd_region (Name dr)
       (upd_node (NodeName (PodSpec pod)) (AddPod pod)))) pods) (\<lambda>_.
     CheckRegionStatus D (Name dr)))))) (\<lambda>_. well_indexed) well_indexed well_indexed"
    by (rule valid_weaken [where Q = "\<lambda>_. indexed ?S" and E = well_indexed and F = well_indexed])
      (auto intro: indexed_wi intro!: valid_bind [OF indexed_readonly] valid_bind [OF valid_for]
        indexed_modify indexed_check readonly_intros indexed_registerNode)
qed

section \<open>Synchronisation\<close>

text \<open>
  What the code relies on of the API server: a region is returned under the name it was asked for
  and none is being deleted, and a list of regions names each one once.
\<close>

definition regions_stay :: "region_ctl \<Rightarrow> bool" where
  "regions_stay D \<longleftrightarrow>
     (\<forall>h n dr. ansGetRegion (DSrv D) h n = Inr dr \<longrightarrow> Name dr = n \<and> DeletionTimestamp dr = None) \<and>
     (\<forall>h drs. ansListRegions (DSrv D) h = Inr drs \<longrightarrow> distinct (map Name drs))"

lemma notFound_Some: "notFound_None (call q f) h = (Ok (Some x), h') \<Longrightarrow> f h = Inr x"
  by (auto simp: notFound_None_def bind_io_def attempt_def call_def ret_def fail_def
      split: sum.splits err.splits)

lemma indexed_handleRegionEvent:
  assumes "regions_stay D"
  shows "valid (indexed S) (handleRegionEvent D name) (\<lambda>_. well_indexed) well_indexed well_indexed"
  unfolding handleRegionEvent_def
proof (rule valid_bind [where R = "\<lambda>found c. indexed S c \<and>
    (\<forall>dr. found = Some dr \<longrightarrow> Name dr = name \<and> DeletionTimestamp dr = None)"])
  show "valid (indexed S) (slift (QueryRegion D name)) (\<lambda>found c. indexed S c \<and>
      (\<forall>dr. found = Some dr \<longrightarrow> Name dr = name \<and> DeletionTimestamp dr = None)) well_indexed well_indexed"
  proof (rule valid_lift)
    fix c found h h' assume "indexed S c" and q: "QueryRegion D name h = (Ok found, h')"
    have "Name dr = name \<and> DeletionTimestamp dr = None" if "found = Some dr" for dr
      using q that notFound_Some assms by (metis QueryRegion_def regions_stay_def)
    with \<open>indexed S c\<close> show "indexed S c \<and>
      (\<forall>dr. found = Some dr \<longrightarrow> Name dr = name \<and> DeletionTimestamp dr = None)" by blast
  qed (auto intro: indexed_wi)
next
  fix found :: "deploy_region option"
  let ?P = "\<lambda>c. indexed S c \<and> (\<forall>dr. found = Some dr \<longrightarrow> Name dr = name \<and> DeletionTimestamp dr = None)"
  have new: "valid (\<lambda>c. indexed S c \<and> mhas (CRegions c) name = known)
      (if known then CheckRegionStatus D name else handleRegionCreate D dr)
      (\<lambda>_. well_indexed) well_indexed well_indexed" if "Name dr = name" for dr known
  proof (rule valid_if)
    show "valid (\<lambda>c. indexed S c \<and> mhas (CRegions c) name = known) (CheckRegionStatus D name)
        (\<lambda>_. well_indexed) well_indexed well_indexed"
      by (rule valid_pre [OF wi_of_indexed [OF indexed_check]]) (auto intro: indexed_wi)
    assume "\<not> known"
    show "valid (\<lambda>c. indexed S c \<and> mhas (CRegions c) name = known) (handleRegionCreate D dr)
        (\<lambda>_. well_indexed) well_indexed well_indexed"
    proof (cases "name \<in> S")
      case True
      have "\<not> (indexed S c \<and> mhas (CRegions c) name = known)" for c
        using True \<open>\<not> known\<close> by (auto simp: indexed_def region_keys_iff mhas_def)
      then show ?thesis by (intro valid_pre [OF valid_False]) blast
    next
      case False
      then show ?thesis
        using that by (intro valid_pre [OF indexed_handleRegionCreate]) auto
    qed
  qed
  show "valid ?P (case found of None \<Rightarrow> stopReconcile None
     | Some region \<Rightarrow> (if DeletionTimestamp region \<noteq> None then smodify (DelRegion region)
         else sbind (sgets (\<lambda>c. mhas (CRegions c) name)) (\<lambda>known.
           if known then CheckRegionStatus D (Name region) else handleRegionCreate D region)))
     (\<lambda>_. well_indexed) well_indexed well_indexed"
  proof (cases found)
    case None
    then show ?thesis
      by (auto simp: stopReconcile_def intro!: valid_ret intro: indexed_wi)
  next
    case (Some dr)
    show ?thesis
    proof (cases "Name dr = name \<and> DeletionTimestamp dr = None")
      case True
      have "valid (indexed S) (sbind (sgets (\<lambda>c. mhas (CRegions c) name)) (\<lambda>known.
           if known then CheckRegionStatus D name else handleRegionCreate D dr))
          (\<lambda>_. well_indexed) well_indexed well_indexed"
        using True by (intro valid_bind [where R = "\<lambda>known c. indexed S c \<and> mhas (CRegions c) name = known"]
            valid_gets new) auto
      with True Some show ?thesis by (auto intro: valid_pre)
    next
      case False
      with Some show ?thesis by (intro valid_pre [OF valid_False]) blast
    qed
  qed
qed

lemma wi_waitCacheSynced:
  assumes "regions_stay D"
  shows "valid (\<lambda>_. True) (waitCacheSynced D) (\<lambda>_. well_indexed) well_indexed well_indexed"
  unfolding waitCacheSynced_def
proof (rule valid_bind [OF valid_modify])
  show "indexed {} (c\<lparr>CRegions := [], NodeToRegion := []\<rparr>)" for c
    by (simp add: indexed_def well_indexed_def region_keys_def)
  have load: "valid (\<lambda>c. indexed {} c \<and> distinct (map Name drs)) (sfor (loadRegion D) drs)
      (\<lambda>_. well_indexed) well_indexed well_indexed" for drs
    by (rule valid_fact) (simp add: indexed_loadRegions)
  have wi: "valid well_indexed m (\<lambda>_. well_indexed) well_indexed well_indexed"
    if "\<And>S. stays_indexed S m" for m :: "'b sync"
    by (rule wi_of_indexed) (rule that)
  have rest: "valid well_indexed (sbind (slift (QueryAllPod D)) (\<lambda>pods.
     sbind (sfor loadPod pods) (\<lambda>_.
     sbind (smodify (\<lambda>c. c\<lparr>Synced := True\<rparr>)) (\<lambda>_.
     sbind (sgets (\<lambda>c. map fst (CRegions c))) (\<lambda>names.
     sfor (CheckRegionStatus D) names))))) (\<lambda>_. well_indexed) well_indexed well_indexed"
  proof (intro valid_bind [where R = "\<lambda>_. well_indexed"])
    show "valid well_indexed (smodify (\<lambda>c. c\<lparr>Synced := True\<rparr>)) (\<lambda>_. well_indexed) well_indexed well_indexed"
      by (rule valid_modify) (simp add: well_indexed_def has_node_def)
  qed (auto intro!: wi_of_indexed indexed_readonly readonly_intros valid_for indexed_loadPod indexed_check)
  show "valid (indexed {}) (sbind (slift (QueryAllRegions D)) (\<lambda>drs.
     sbind (sfor (loadRegion D) drs) (\<lambda>_.
     sbind (slift (QueryAllPod D)) (\<lambda>pods.
     sbind (sfor loadPod pods) (\<lambda>_.
     sbind (smodify (\<lambda>c. c\<lparr>Synced := True\<rparr>)) (\<lambda>_.
     sbind (sgets (\<lambda>c. map fst (CRegions c))) (\<lambda>names.
     sfor (CheckRegionStatus D) names))))))) (\<lambda>_. well_indexed) well_indexed well_indexed"
  proof (rule valid_bind [OF valid_lift valid_bind [OF load rest]])
    fix c drs h h' assume "indexed {} c" and "QueryAllRegions D h = (Ok drs, h')"
    moreover from this(2) have "ansListRegions (DSrv D) h = Inr drs" by (simp add: QueryAllRegions_def)
    ultimately show "indexed {} c \<and> distinct (map Name drs)"
      using assms unfolding regions_stay_def by blast
  qed (auto intro: indexed_wi)
qed

lemma valid_recover:
  assumes "valid P m Q E E" shows "valid P (srecover m) Q E (\<lambda>_. False)"
proof (rule validI)
  fix c h r c' h'
  assume P: "P c" and run: "srecover m (c, h) = (r, c', h')"
  obtain r1 c1 h1 where m: "m (c, h) = (r1, c1, h1)" by (cases "m (c, h)") auto
  from validD [OF assms P m] run m
  show "case r of Ok x \<Rightarrow> Q x c' | Err _ \<Rightarrow> E c' | Panic _ \<Rightarrow> False"
    by (cases r1) (auto simp: srecover_def)
qed

lemma wi_Sync:
  assumes "regions_stay D"
  shows "valid well_indexed (Sync D rq) (\<lambda>_. well_indexed) well_indexed (\<lambda>_. False)"
  unfolding Sync_def Let_def
proof (intro valid_recover valid_bind [where R = "\<lambda>_. well_indexed"] valid_if)
  show "valid well_indexed (waitCacheSynced D) (\<lambda>_. well_indexed) well_indexed well_indexed"
    by (rule valid_pre [OF wi_waitCacheSynced [OF assms]]) simp
  show "valid well_indexed (handlePodEvent D ns name) (\<lambda>_. well_indexed) well_indexed well_indexed" for ns name
    by (rule wi_of_indexed, rule valid_weaken [OF indexed_handlePodEvent]) auto
  show "valid well_indexed (handleNodeEvent D name) (\<lambda>_. well_indexed) well_indexed well_indexed" for name
    by (rule wi_of_indexed) (rule indexed_handleNodeEvent)
  show "valid well_indexed (handleRegionEvent D name) (\<lambda>_. well_indexed) well_indexed well_indexed" for name
    by (rule valid_exact, rule valid_pre [OF indexed_handleRegionEvent [OF assms]]) (auto simp: indexed_def)
qed (auto intro: valid_gets valid_ret)

section \<open>Reachable caches\<close>

text \<open>
  The caches the controller goes through: it starts with an empty cache and runs one
  synchronisation per queued request, each with its own answers and its own outcome.
\<close>

inductive reachable :: "cache \<Rightarrow> bool" where
  start: "reachable NewCache"
| sync: "reachable c \<Longrightarrow> regions_stay D \<Longrightarrow> Sync D rq (c, h) = (out, c', h') \<Longrightarrow> reachable c'"

lemma reachable_indexed: "reachable c \<Longrightarrow> well_indexed c"
proof (induction rule: reachable.induct)
  case start
  show ?case by (simp add: well_indexed_def NewCache_def)
next
  case (sync c D rq h out c' h')
  from validD [OF wi_Sync [OF sync.hyps(2)] sync.IH sync.hyps(3)]
  show ?case by (auto split: res.splits)
qed


text \<open>
  In such a cache the handler of a pod event never dereferences a missing region or node, for
  any pod and any answers: it ends with success or with the error of a failed query.
\<close>

theorem pod_event_never_panics:
  assumes "reachable c" and "handlePodEvent D ns name (c, h) = (out, c', h')"
  shows "\<forall>e. out \<noteq> Panic e"
proof -
  have "indexed (region_keys c) c" using reachable_indexed [OF assms(1)] by (simp add: indexed_def)
  from validD [OF indexed_handlePodEvent this assms(2)] show ?thesis by (auto split: res.splits)
qed

section \<open>A cluster with one region\<close>

definition one_region :: deploy_region where
  "one_region = \<lparr>Name = ''r1'', Namespace = [], UID = ''u1'', CreationTimestamp = 0, DeletionTimestamp = None,
     Generation = 1, Labels = [], Annotations = [], OwnerReferences = [], RegionMatchLabels = [(''zone'', ''a'')]\<rparr>"

definition one_node :: node where
  "one_node = \<lparr>Name = ''n1'', Namespace = [], UID = ''u2'', CreationTimestamp = 0, DeletionTimestamp = None,
     Generation = 1, Labels = [], Annotations = [], OwnerReferences = [],
     NodeConditions = [\<lparr>CondType = ''Ready'', CondStatus = ConditionTrue, CondReason = [], CondMessage = [],
       LastTransitionTime = 0\<rparr>], NodeAllocatable = []\<rparr>"

definition one_server :: server where
  "one_server = sample_server\<lparr>ansListRegions := (\<lambda>_. Inr [one_region]),
     ansGetRegion := (\<lambda>_ n. if n = ''r1'' then Inr one_region else Inl NotFound),
     ansListNodes := (\<lambda>_ _. Inr [one_node])\<rparr>"

definition one_cluster :: region_ctl where
  "one_cluster = \<lparr>DSrv = one_server, DExt = sample_ext\<rparr>"

definition one_cache :: cache where
  "one_cache = \<lparr>Synced = True, CRegions = [(''r1'', \<lparr>RCName = ''r1'', RCMatchLabels = [(''zone'', ''a'')],
       RCNodes = [(''n1'', \<lparr>NCName = ''n1'', IsReady = True, Allocatable = EmptyResource,
         Allocated = EmptyResource, NCPods = []\<rparr>)], RCStatus = regionStatusOK\<rparr>)],
     NodeToRegion = [(''n1'', ''r1'')]\<rparr>"

lemma one_cluster_stays: "regions_stay one_cluster"
  by (auto simp: regions_stay_def one_cluster_def one_server_def one_region_def split: if_splits)

lemmas sync_eval = sbind_def sgets_def slift_def smodify_def sret_def srecover_def sregion_def
  snode_def io_defs

lemma one_cluster_synced: "\<exists>h. Sync one_cluster (''pod+d'', ''p'') (NewCache, []) = (Ok (), one_cache, h)"
  by (simp add: Sync_def waitCacheSynced_def NewCache_def sync_eval one_cluster_def one_server_def
      sample_server_def QueryAllRegions_def loadRegion_def AddRegion_def one_region_def mset_key_def
      QueryNodesInRegion_def label_set_selector_def sample_ext_def listNodes_def claimNode_def
      registerNode_def upd_region_def AddNode_def newNodeCache_def one_node_def isNodeReady_def
      Add_def QueryAllPod_def CheckRegionStatus_def regionStatusOf_def failedRate_def
      QueryExtendedDeploymentsInRegion_def QueryInplaceSetsInRegion_def HasPrefix_def PrefixPodType_def
      handlePodEvent_def QueryPod_def notFound_None_def stopReconcile_def one_cache_def)

lemma one_cache_reachable: "reachable one_cache"
  using reachable.sync [OF reachable.start one_cluster_stays] one_cluster_synced by blast


text \<open>A pod on the node.\<close>

definition node_pod :: pod where
  "node_pod = zero_pod\<lparr>Name := ''p'', Namespace := ''d'', PodSpec := zero_pod_spec\<lparr>NodeName := ''n1''\<rparr>\<rparr>"

definition pod_cluster :: region_ctl where
  "pod_cluster = one_cluster\<lparr>DSrv := one_server\<lparr>ansGetPod := (\<lambda>_ _. Inr node_pod)\<rparr>\<rparr>"

theorem pod_event_never_panics_witness:
  "reachable one_cache \<and> (\<exists>out c' h'. handlePodEvent pod_cluster ''d'' ''p'' (one_cache, []) = (out, c', h') \<and>
     (\<forall>e. out \<noteq> Panic e))"
proof -
  obtain out c' h' where run: "handlePodEvent pod_cluster ''d'' ''p'' (one_cache, []) = (out, c', h')"
    by (cases "handlePodEvent pod_cluster ''d'' ''p'' (one_cache, [])") auto
  with pod_event_never_panics [OF one_cache_reachable run] one_cache_reachable show ?thesis by blast
qed

section \<open>Where the index breaks\<close>

text \<open>
  Deleting a region removes it from the cache but leaves its nodes in the index: the next event of
  a pod on one of them dereferences the missing region.
\<close>

theorem deleted_region_breaks_pod_events:
  assumes "DeletionTimestamp dr \<noteq> None" and "mget (NodeToRegion c) (NodeName (PodSpec pod)) = Some (Name dr)"
    and "NodeName (PodSpec pod) \<noteq> []"
    and "\<And>h. ansGetRegion (DSrv D) h (Name dr) = Inr dr"
    and "\<And>h. ansGetPod (DSrv D) h (ns, name) = Inr pod"
  shows "\<exists>c' h' e c'' h''. handleRegionEvent D (Name dr) (c, h) = (Ok (), c', h') \<and>
     handlePodEvent D ns name (c', h') = (Panic e, c'', h'')"
proof (intro exI conjI)
  let ?c = "DelRegion dr c"
  show "handleRegionEvent D (Name dr) (c, h) = (Ok (), ?c, h @ [GetRegion (Name dr)])"
    using assms(1,4)
    by (simp add: handleRegionEvent_def QueryRegion_def notFound_None_def sync_eval)
  show "handlePodEvent D ns name (?c, h @ [GetRegion (Name dr)]) =
     (Panic (Msg ''invalid memory address or nil pointer dereference''), ?c,
      (h @ [GetRegion (Name dr)]) @ [GetPod (ns, name)])"
    using assms(2,3,5)
    by (simp add: handlePodEvent_def QueryPod_def notFound_None_def sync_eval DelRegion_def Let_def)
qed

definition gone_region :: deploy_region where
  "gone_region = one_region\<lparr>DeletionTimestamp := Some 1\<rparr>"

definition gone_cluster :: region_ctl where
  "gone_cluster = one_cluster\<lparr>DSrv := one_server\<lparr>ansGetPod := (\<lambda>_ _. Inr node_pod),
     ansGetRegion := (\<lambda>_ _. Inr gone_region)\<rparr>\<rparr>"

theorem deleted_region_breaks_pod_events_witness:
  "\<exists>c' h' e c'' h''. handleRegionEvent gone_cluster ''r1'' (one_cache, []) = (Ok (), c', h') \<and>
     handlePodEvent gone_cluster ''d'' ''p'' (c', h') = (Panic e, c'', h'')"
  using deleted_region_breaks_pod_events [of gone_region one_cache node_pod gone_cluster "''d''" "''p''" "[]"]
  by (simp add: gone_region_def one_region_def gone_cluster_def node_pod_def one_cache_def zero_values)

text \<open>
  The event handler queues every object, node or pod, under the prefix of pods: on a synced cache
  an event of a node runs the handler of pod events, and the handler of node events never runs for
  a queued object.
\<close>

theorem queued_nodes_are_handled_as_pods:
  assumes "Synced c"
  shows "Sync D (addToQueue n) (c, h) = srecover (handlePodEvent D (Namespace n) (Name n)) (c, h)"
  using assms
  by (simp add: Sync_def addToQueue_def sync_eval HasPrefix_def)

theorem queued_nodes_are_handled_as_pods_witness:
  "Synced one_cache \<and> Sync one_cluster (addToQueue one_node) (one_cache, []) =
     srecover (handlePodEvent one_cluster [] ''n1'') (one_cache, [])"
  using queued_nodes_are_handled_as_pods [of one_cache one_cluster one_node "[]"]
  by (simp add: one_cache_def one_node_def)

end
