(* ===== verification/RegionEffects.thy ===== *)
theory RegionEffects
  imports RegionIndex
begin

text \<open>
  The accounting of a node's resources over any sequence of pod events, the number of pods the
  scheduler is told a region can take, and what a synchronisation writes to the API server.
\<close>

section \<open>Requests per dimension\<close>

datatype dimension = DimCPU | DimMemory | DimStorage | DimPods

fun field :: "dimension \<Rightarrow> resource \<Rightarrow> int" where
  "field DimCPU r = MilliCPU r"
| "field DimMemory r = Memory r"
| "field DimStorage r = EphemeralStorage r"
| "field DimPods r = AllowedPodNumber r"

fun quantity_in :: "dimension \<Rightarrow> string \<times> quantity \<Rightarrow> int" where
  "quantity_in DimCPU (n, q) = (if n = ResourceCPU then MilliValue q else 0)"
| "quantity_in DimMemory (n, q) = (if n = ResourceMemory then Value q else 0)"
| "quantity_in DimStorage (n, q) = (if n = ResourceEphemeralStorage then Value q else 0)"
| "quantity_in DimPods (n, q) = (if n = ResourcePods then Value q else 0)"

definition amount :: "dimension \<Rightarrow> resource_list \<Rightarrow> int" where
  "amount d rl = sum_list (map (quantity_in d) rl)"

definition requested :: "dimension \<Rightarrow> container list \<Rightarrow> int" where
  "requested d cs = sum_list (map (\<lambda>c. amount d (CRequests c)) cs)"

definition nonneg_list :: "resource_list \<Rightarrow> bool" where
  "nonneg_list rl \<longleftrightarrow> list_all (\<lambda>(_, q). 0 \<le> MilliValue q \<and> 0 \<le> Value q) rl"

definition nonneg_requests :: "container list \<Rightarrow> bool" where
  "nonneg_requests cs \<longleftrightarrow> list_all (\<lambda>c. nonneg_list (CRequests c)) cs"

lemma quantity_nonneg: "0 \<le> MilliValue (snd p) \<Longrightarrow> 0 \<le> Value (snd p) \<Longrightarrow> 0 \<le> quantity_in d p"
  by (cases p; cases d) auto

lemma amount_simps [simp]:
  "amount d [] = 0" "amount d (p # rl) = quantity_in d p + amount d rl"
  by (simp_all add: amount_def)

lemma requested_simps [simp]:
  "requested d [] = 0" "requested d (c # cs) = amount d (CRequests c) + requested d cs"
  by (simp_all add: requested_def)

lemma nonneg_simps [simp]:
  "nonneg_list []" "nonneg_list (p # rl) \<longleftrightarrow> 0 \<le> MilliValue (snd p) \<and> 0 \<le> Value (snd p) \<and> nonneg_list rl"
  "nonneg_requests []" "nonneg_requests (c # cs) \<longleftrightarrow> nonneg_list (CRequests c) \<and> nonneg_requests cs"
  by (auto simp: nonneg_list_def nonneg_requests_def split: prod.splits)

lemma amount_nonneg: "nonneg_list rl \<Longrightarrow> 0 \<le> amount d rl"
  by (induction rl) (simp_all add: quantity_nonneg)

lemma requested_nonneg: "nonneg_requests cs \<Longrightarrow> 0 \<le> requested d cs"
  by (induction cs) (simp_all add: amount_nonneg)

lemma i64_pos: "0 \<le> x \<Longrightarrow> x \<le> MaxInt64 \<Longrightarrow> i64 x = x"
  by (simp add: i64_def MaxInt64_def)

section \<open>Adding and subtracting requests\<close>

lemma field_addQuantity_exact:
  assumes "0 \<le> field d r" and "0 \<le> quantity_in d p" and "field d r + quantity_in d p \<le> MaxInt64"
  shows "field d (addQuantity p r) = field d r + quantity_in d p"
  using assms by (cases p; cases d) (auto simp: i64_pos)

lemma field_Add:
  assumes "nonneg_list rl" and "0 \<le> field d r" and "field d r + amount d rl \<le> MaxInt64"
  shows "field d (Add r rl) = field d r + amount d rl"
  using assms unfolding Add_def
proof (induction rl arbitrary: r)
  case (Cons p rl)
  have q: "0 \<le> quantity_in d p" using Cons.prems(1) by (simp add: quantity_nonneg)
  have a: "0 \<le> amount d rl" using Cons.prems(1) by (simp add: amount_nonneg)
  have step: "field d (addQuantity p r) = field d r + quantity_in d p"
    using Cons.prems(2,3) q a by (intro field_addQuantity_exact) auto
  show ?case using Cons.IH [of "addQuantity p r"] Cons.prems step q by (simp add: add.assoc)
qed simp

lemma field_Add_all:
  assumes "nonneg_requests cs" and "0 \<le> field d r" and "field d r + requested d cs \<le> MaxInt64"
  shows "field d (fold (\<lambda>c r. Add r (CRequests c)) cs r) = field d r + requested d cs"
  using assms
proof (induction cs arbitrary: r)
  case (Cons c cs)
  have a: "0 \<le> amount d (CRequests c)" using Cons.prems(1) by (simp add: amount_nonneg)
  have b: "0 \<le> requested d cs" using Cons.prems(1) by (simp add: requested_nonneg)
  have step: "field d (Add r (CRequests c)) = field d r + amount d (CRequests c)"
    using Cons.prems a b by (intro field_Add) auto
  show ?case using Cons.IH [of "Add r (CRequests c)"] Cons.prems step a by (simp add: add.assoc)
qed simp

text \<open>A request that is covered in every dimension is subtracted without an error.\<close>

lemma sub_step:
  assumes "\<And>d. quantity_in d (n, q) \<le> field d r" and "\<And>d. 0 \<le> quantity_in d (n, q)"
    and "\<And>d. field d r \<le> MaxInt64"
  obtains r' where "\<And>rl. Sub r ((n, q) # rl) = Sub r' rl" and "\<And>d. field d r' = field d r - quantity_in d (n, q)"
proof -
  note le = assms(1) [of DimCPU] assms(1) [of DimMemory] assms(1) [of DimStorage] assms(1) [of DimPods]
  note pos = assms(2) [of DimCPU] assms(2) [of DimMemory] assms(2) [of DimStorage] assms(2) [of DimPods]
  note max = assms(3) [of DimCPU] assms(3) [of DimMemory] assms(3) [of DimStorage] assms(3) [of DimPods]
  define r' where "r' = (if n = ResourceCPU then r\<lparr>MilliCPU := MilliCPU r - MilliValue q\<rparr>
    else if n = ResourceMemory then r\<lparr>Memory := Memory r - Value q\<rparr>
    else if n = ResourcePods then r\<lparr>AllowedPodNumber := AllowedPodNumber r - Value q\<rparr>
    else if n = ResourceEphemeralStorage then r\<lparr>EphemeralStorage := EphemeralStorage r - Value q\<rparr> else r)"
  have "Sub r ((n, q) # rl) = Sub r' rl" for rl
    using le pos max by (auto simp: r'_def i64_pos)
  moreover have "field d r' = field d r - quantity_in d (n, q)" for d
    by (cases d) (auto simp: r'_def)
  ultimately show thesis by (rule that)
qed

lemma field_Sub:
  assumes "nonneg_list rl" and "\<And>d. amount d rl \<le> field d r" and "\<And>d. field d r \<le> MaxInt64"
  shows "field d (fst (Sub r rl)) = field d r - amount d rl"
  using assms
proof (induction rl arbitrary: r)
  case (Cons p rl)
  obtain n q where p: "p = (n, q)" by (cases p)
  have pos: "0 \<le> quantity_in d (n, q)" for d
    using Cons.prems(1) p quantity_nonneg [of "(n, q)"] by simp
  have rest: "0 \<le> amount d rl" for d using Cons.prems(1) by (simp add: amount_nonneg)
  have le: "quantity_in d (n, q) \<le> field d r" for d
    using Cons.prems(2) [of d] rest [of d] p by simp
  obtain r' where r': "\<And>rl. Sub r ((n, q) # rl) = Sub r' rl"
    "\<And>d. field d r' = field d r - quantity_in d (n, q)"
    by (rule sub_step [OF le pos Cons.prems(3)]) auto
  have "field d (fst (Sub r' rl)) = field d r' - amount d rl"
  proof (rule Cons.IH)
    show "amount d rl \<le> field d r'" for d using Cons.prems(2) [of d] p r'(2) by simp
    show "field d r' \<le> MaxInt64" for d using Cons.prems(3) [of d] pos [of d] r'(2) [of d] by simp
  qed (use Cons.prems in auto)
  with r' p show ?case by simp
qed simp

lemma field_Sub_all:
  assumes "nonneg_requests cs" and "\<And>d. requested d cs \<le> field d r" and "\<And>d. field d r \<le> MaxInt64"
  shows "field d (fold (\<lambda>c r. fst (Sub r (CRequests c))) cs r) = field d r - requested d cs"
  using assms
proof (induction cs arbitrary: r)
  case (Cons c cs)
  have a: "0 \<le> amount d (CRequests c)" for d using Cons.prems(1) by (simp add: amount_nonneg)
  have b: "0 \<le> requested d cs" for d using Cons.prems(1) by (simp add: requested_nonneg)
  have le: "amount d (CRequests c) \<le> field d r" for d using Cons.prems(2) [of d] b [of d] by simp
  have step: "field d (fst (Sub r (CRequests c))) = field d r - amount d (CRequests c)" for d
    using Cons.prems(1,3) le by (intro field_Sub) auto
  have "field d (fold (\<lambda>c r. fst (Sub r (CRequests c))) cs (fst (Sub r (CRequests c)))) =
      field d (fst (Sub r (CRequests c))) - requested d cs"
  proof (rule Cons.IH)
    show "requested d cs \<le> field d (fst (Sub r (CRequests c)))" for d
      using Cons.prems(2) [of d] by (simp add: step)
    show "field d (fst (Sub r (CRequests c))) \<le> MaxInt64" for d
      using Cons.prems(3) [of d] a [of d] by (simp add: step)
  qed (use Cons.prems in auto)
  then show ?case by (simp add: step)
qed simp

section \<open>The accounting of a node\<close>

definition pod_keys :: "node_cache \<Rightarrow> string set" where
  "pod_keys nc = fst ` set (NCPods nc)"

text \<open>
  \<open>R\<close> gives the containers of the pod with a key; they do not change during the life of a pod.
  The node's allocated resources are the sum of what its pods request.
\<close>

definition accounted :: "(string \<Rightarrow> container list) \<Rightarrow> node_cache \<Rightarrow> bool" where
  "accounted R nc \<longleftrightarrow> distinct (map fst (NCPods nc)) \<and>
     (\<forall>d. field d (Allocated nc) = (\<Sum>k \<in> pod_keys nc. requested d (R k)))"

lemma pod_keys_iff: "k \<in> pod_keys nc \<longleftrightarrow> mhas (NCPods nc) k"
  by (simp add: pod_keys_def mhas_def map_of_eq_None_iff)

lemma finite_pod_keys [simp]: "finite (pod_keys nc)"
  by (simp add: pod_keys_def)

lemma pod_keys_OnPodUpdate:
  "pod_keys (OnPodUpdate p nc) = (if podEnded p then pod_keys nc - {cacheKey p}
     else insert (cacheKey p) (pod_keys nc))"
proof -
  have "k \<in> pod_keys (OnPodUpdate p nc) \<longleftrightarrow> k \<in> (if podEnded p then pod_keys nc - {cacheKey p}
     else insert (cacheKey p) (pod_keys nc))" for k
    by (auto simp: pod_keys_iff OnPodUpdate_def AddPod_def)
  then show ?thesis by blast
qed

lemma accounted_update:
  assumes "accounted R nc" and "Containers (PodSpec p) = R (cacheKey p)"
    and "\<And>k. k \<in> insert (cacheKey p) (pod_keys nc) \<Longrightarrow> nonneg_requests (R k)"
    and "\<And>d. (\<Sum>k \<in> insert (cacheKey p) (pod_keys nc). requested d (R k)) \<le> MaxInt64"
  shows "accounted R (OnPodUpdate p nc)"
proof -
  let ?k = "cacheKey p" and ?K = "pod_keys nc" and ?cs = "Containers (PodSpec p)"
  have alloc: "field d (Allocated nc) = (\<Sum>k \<in> ?K. requested d (R k))" for d
    using assms(1) by (simp add: accounted_def)
  have dist: "distinct (map fst (NCPods nc))" using assms(1) by (simp add: accounted_def)
  have pos: "0 \<le> field d (Allocated nc)" for d
    unfolding alloc using assms(3) by (intro sum_nonneg requested_nonneg) auto
  have nn: "nonneg_requests ?cs" using assms(2,3) by simp
  have rp: "0 \<le> requested d (R ?k)" for d using nn assms(2) by (simp add: requested_nonneg)
  consider (new) "?k \<notin> ?K" "\<not> podEnded p" | (ended) "?k \<in> ?K" "podEnded p"
    | (same) "OnPodUpdate p nc = nc"
    by (cases "podEnded p"; cases "?k \<in> ?K") (simp_all add: pod_keys_iff OnPodUpdate_def AddPod_def)
  then show ?thesis
  proof cases
    case new
    then have nc: "OnPodUpdate p nc = nc\<lparr>NCPods := mset_key ?k 0 (NCPods nc),
        Allocated := fold (\<lambda>c r. Add r (CRequests c)) ?cs (Allocated nc)\<rparr>"
      by (simp add: pod_keys_iff OnPodUpdate_def AddPod_def)
    have total: "(\<Sum>k \<in> insert ?k ?K. requested d (R k)) = field d (Allocated nc) + requested d ?cs" for d
      using new by (simp add: alloc assms(2))
    have "field d (Allocated (OnPodUpdate p nc)) = field d (Allocated nc) + requested d ?cs" for d
      using assms(4) [of d] total [of d] nn pos [of d] by (simp add: nc field_Add_all)
    moreover have "pod_keys (OnPodUpdate p nc) = insert ?k ?K"
      using new by (simp add: pod_keys_OnPodUpdate)
    ultimately show ?thesis using total dist by (simp add: accounted_def nc)
  next
    case ended
    then have nc: "OnPodUpdate p nc = nc\<lparr>Allocated := fold (\<lambda>c r. fst (Sub r (CRequests c))) ?cs (Allocated nc),
        NCPods := mdel ?k (NCPods nc)\<rparr>"
      by (simp add: pod_keys_iff OnPodUpdate_def)
    have total: "field d (Allocated nc) = requested d ?cs + (\<Sum>k \<in> ?K - {?k}. requested d (R k))" for d
      using ended by (simp add: alloc assms(2) sum.remove)
    have rest: "0 \<le> (\<Sum>k \<in> ?K - {?k}. requested d (R k))" for d
      using assms(3) by (intro sum_nonneg requested_nonneg) auto
    have max: "field d (Allocated nc) \<le> MaxInt64" for d
      using assms(4) [of d] ended alloc [of d] by (simp add: insert_absorb)
    have le: "requested d ?cs \<le> field d (Allocated nc)" for d using total [of d] rest [of d] by simp
    have "field d (Allocated (OnPodUpdate p nc)) = field d (Allocated nc) - requested d ?cs" for d
      using nn le max by (simp add: nc field_Sub_all)
    moreover have "pod_keys (OnPodUpdate p nc) = ?K - {?k}"
      using ended by (simp add: pod_keys_OnPodUpdate)
    ultimately show ?thesis using total dist by (simp add: accounted_def nc)
  qed (use assms(1) in simp)
qed

text \<open>The live pods after a sequence of events: the last event of the pod does not end it.\<close>

definition live_keys :: "pod list \<Rightarrow> string set" where
  "live_keys ps = foldl (\<lambda>K p. if podEnded p then K - {cacheKey p} else insert (cacheKey p) K) {} ps"

lemma live_keys_snoc [simp]:
  "live_keys (ps @ [p]) = (if podEnded p then live_keys ps - {cacheKey p} else insert (cacheKey p) (live_keys ps))"
  by (simp add: live_keys_def)

lemma live_keys_subset: "live_keys ps \<subseteq> cacheKey ` set ps"
  by (induction ps rule: rev_induct) (auto simp: live_keys_def)


definition busy_pod :: pod where
  "busy_pod = node_pod\<lparr>PodSpec := zero_pod_spec\<lparr>NodeName := ''n1'',
     Containers := [\<lparr>CName = ''c'', CImage = [], CRequests = small_request, CLimits = [], CRest = []\<rparr>]\<rparr>\<rparr>"


section \<open>What the scheduler is told\<close>

text \<open>The number a node contributes is at most the number of replicas its allocatable resources hold.\<close>

lemma quot_sub_le: "0 \<le> a \<Longrightarrow> 0 < r \<Longrightarrow> quot (a - r) r \<le> quot a r"
proof -
  assume ar: "0 \<le> a" "0 < r"
  show ?thesis
  proof (cases "r \<le> a")
    case True
    then show ?thesis using ar by (simp add: quot_nonneg zdiv_mono1)
  next
    case False
    then have "quot (a - r) r \<le> 0" using ar by (intro quot_nonpos) auto
    also have "0 \<le> quot a r" using ar by (simp add: quot_nonneg pos_imp_zdiv_nonneg_iff)
    finally show ?thesis .
  qed
qed

lemma quot_sub_ge: "0 \<le> a \<Longrightarrow> 0 < r \<Longrightarrow> - 1 \<le> quot (a - r) r"
proof -
  assume ar: "0 \<le> a" "0 < r"
  show ?thesis
  proof (cases "r \<le> a")
    case True
    then have "0 \<le> quot (a - r) r" using ar by (simp add: quot_nonneg pos_imp_zdiv_nonneg_iff)
    then show ?thesis by simp
  next
    case False
    have "(r - a) div r \<le> 1" using ar zdiv_mono1 [of "r - a" r r] by simp
    with False ar show ?thesis by (simp add: quot_def)
  qed
qed

text \<open>One dimension of \<open>MaxDivided\<close>.\<close>

definition shares :: "int \<Rightarrow> int \<Rightarrow> int \<Rightarrow> int" where
  "shares a r n = (if r > 0 then min n (quot a r) else n)"

lemma MaxDivided_ResourceList:
  "MaxDivided r (ResourceList res) = min (shares (EphemeralStorage r) (EphemeralStorage res)
     (shares (Memory r) (Memory res) (shares (MilliCPU r) (MilliCPU res) MaxInt64))) (AllowedPodNumber r)"
  by (simp add: MaxDivided_def ResourceList_def NewMilliQuantity_def NewQuantity_def shares_def)

lemma shares_sub:
  assumes "0 \<le> a" and "a \<le> MaxInt64" and "0 \<le> r" and "r \<le> MaxInt64"
  shows "- 1 \<le> n \<Longrightarrow> - 1 \<le> shares (i64 (a - r)) r n"
    and "n \<le> m \<Longrightarrow> shares (i64 (a - r)) r n \<le> shares a r m"
proof -
  have "is_i64 (a - r)" using assms by (simp add: is_i64_def MaxInt64_def)
  then have "i64 (a - r) = a - r" by (rule i64_id)
  with assms show "- 1 \<le> n \<Longrightarrow> - 1 \<le> shares (i64 (a - r)) r n"
    "n \<le> m \<Longrightarrow> shares (i64 (a - r)) r n \<le> shares a r m"
    by (auto simp: shares_def quot_sub_ge quot_sub_le min.coboundedI1 min.coboundedI2)
qed

definition in_range :: "resource \<Rightarrow> bool" where
  "in_range r \<longleftrightarrow> (\<forall>d \<in> {DimCPU, DimMemory, DimStorage, DimPods}. 0 \<le> field d r \<and> field d r \<le> MaxInt64)"

lemma node_share_bounds:
  assumes "in_range a" and "in_range res" and "AllowedPodNumber res = 0"
  shows "- 1 \<le> MaxDivided (SubResource a res) (ResourceList res)"
    and "MaxDivided (SubResource a res) (ResourceList res) \<le> MaxDivided a (ResourceList res)"
proof -
  have pods: "i64 (AllowedPodNumber a) = AllowedPodNumber a" "0 \<le> AllowedPodNumber a"
    using assms(1) by (simp_all add: in_range_def i64_pos)
  have rng: "0 \<le> field d a" "field d a \<le> MaxInt64" "0 \<le> field d res" "field d res \<le> MaxInt64" for d
    using assms(1,2) by (cases d; simp add: in_range_def)+
  note dims = rng [of DimCPU] rng [of DimMemory] rng [of DimStorage]
  note b = shares_sub [of "MilliCPU a" "MilliCPU res"] shares_sub [of "Memory a" "Memory res"]
    shares_sub [of "EphemeralStorage a" "EphemeralStorage res"]
  have low: "- 1 \<le> MaxInt64" by (simp add: MaxInt64_def)
  show "- 1 \<le> MaxDivided (SubResource a res) (ResourceList res)"
    using dims b(1,3,5) pods low assms(3) by (simp add: MaxDivided_ResourceList SubResource_def)
  show "MaxDivided (SubResource a res) (ResourceList res) \<le> MaxDivided a (ResourceList res)"
    using dims b(2,4,6) pods assms(3) by (simp add: MaxDivided_ResourceList SubResource_def min.coboundedI1)
qed

lemma MaxDivided_le_pods: "MaxDivided r rl \<le> AllowedPodNumber r"
  by (simp add: MaxDivided_def)

lemma share_sum_bounds:
  assumes "in_range res" and "AllowedPodNumber res = 0" and "\<forall>(_, nc) \<in> set nodes. in_range (Allocatable nc)"
    and "- MaxInt64 - 1 \<le> acc - int (length nodes)"
    and "acc + (\<Sum>(_, nc) \<leftarrow> nodes. AllowedPodNumber (Allocatable nc)) \<le> MaxInt64"
  shows "fold (\<lambda>(_, nc) podNum.
      i64 (podNum + MaxDivided (SubResource (Allocatable nc) res) (ResourceList res))) nodes acc \<le>
    acc + (\<Sum>(_, nc) \<leftarrow> nodes. MaxDivided (Allocatable nc) (ResourceList res))"
  using assms(3-)
proof (induction nodes arbitrary: acc)
  case (Cons p nodes)
  obtain k nc where p: "p = (k, nc)" by (cases p)
  let ?m = "MaxDivided (SubResource (Allocatable nc) res) (ResourceList res)"
  have ok: "in_range (Allocatable nc)" using Cons.prems(1) p by simp
  note b = node_share_bounds [OF ok assms(1,2)]
  have top: "?m \<le> AllowedPodNumber (Allocatable nc)"
    using b(2) MaxDivided_le_pods order_trans by blast
  have "0 \<le> (\<Sum>(_, nc) \<leftarrow> nodes. AllowedPodNumber (Allocatable nc))"
    using Cons.prems(1) by (intro sum_list_nonneg) (auto simp: in_range_def)
  then have acc: "is_i64 (acc + ?m)"
    using Cons.prems(2,3) b(1) top p by (simp add: is_i64_def MaxInt64_def)
  have "fold (\<lambda>(_, nc) podNum.
      i64 (podNum + MaxDivided (SubResource (Allocatable nc) res) (ResourceList res))) nodes (acc + ?m) \<le>
    acc + ?m + (\<Sum>(_, nc) \<leftarrow> nodes. MaxDivided (Allocatable nc) (ResourceList res))"
    using Cons.prems b top p by (intro Cons.IH) auto
  with b(2) p acc show ?case by (simp add: i64_id)
qed simp

text \<open>
  The number of pods reported for a region is at most what the allocatable resources of its
  nodes hold together, and 0 for a region that is failed or not cached: the scheduler is never
  told of capacity the nodes do not have when empty.
\<close>

theorem reported_capacity_bounded:
  assumes "in_range res" and "AllowedPodNumber res = 0"
    and "\<forall>rc. mget (CRegions c) r = Some rc \<longrightarrow>
      (\<forall>(_, nc) \<in> set (RCNodes rc). in_range (Allocatable nc)) \<and> int (length (RCNodes rc)) \<le> MaxInt64 \<and>
      (\<Sum>(_, nc) \<leftarrow> RCNodes rc. AllowedPodNumber (Allocatable nc)) \<le> MaxInt64"
  shows "GetRegionAllocatablePodNum c r res \<le> (case mget (CRegions c) r of
      None \<Rightarrow> 0
    | Some rc \<Rightarrow> if RCStatus rc = regionStatusFailed then 0
        else (\<Sum>(_, nc) \<leftarrow> RCNodes rc. MaxDivided (Allocatable nc) (ResourceList res)))"
proof (cases "mget (CRegions c) r")
  case (Some rc)
  with assms(3) have rc: "\<forall>(_, nc) \<in> set (RCNodes rc). in_range (Allocatable nc)"
    "int (length (RCNodes rc)) \<le> MaxInt64"
    "(\<Sum>(_, nc) \<leftarrow> RCNodes rc. AllowedPodNumber (Allocatable nc)) \<le> MaxInt64" by blast+
  have "fold (\<lambda>(_, nc) podNum.
      i64 (podNum + MaxDivided (SubResource (Allocatable nc) res) (ResourceList res))) (RCNodes rc) 0 \<le>
    0 + (\<Sum>(_, nc) \<leftarrow> RCNodes rc. MaxDivided (Allocatable nc) (ResourceList res))"
    using rc by (intro share_sum_bounds assms(1,2)) auto
  with Some show ?thesis by (simp add: GetRegionAllocatablePodNum_def)
qed (simp add: GetRegionAllocatablePodNum_def)

theorem reported_capacity_bounded_witness:
  "in_range EmptyResource \<and> GetRegionAllocatablePodNum (dead_cache\<lparr>CRegions := [(''r1'', dead_region)]\<rparr>) ''r1''
     EmptyResource \<le> 110"
proof -
  let ?c = "dead_cache\<lparr>CRegions := [(''r1'', dead_region)]\<rparr>"
  have r: "in_range EmptyResource" by (simp add: in_range_def EmptyResource_def MaxInt64_def)
  have n: "in_range small_node" by (simp add: in_range_def small_node_def MaxInt64_def)
  have "GetRegionAllocatablePodNum ?c ''r1'' EmptyResource \<le> (case mget (CRegions ?c) ''r1'' of
      None \<Rightarrow> 0
    | Some rc \<Rightarrow> if RCStatus rc = regionStatusFailed then 0
        else (\<Sum>(_, nc) \<leftarrow> RCNodes rc. MaxDivided (Allocatable nc) (ResourceList EmptyResource)))"
    by (rule reported_capacity_bounded [OF r])
      (use n in \<open>simp_all add: EmptyResource_def dead_region_def dead_node_def\<close>,
       simp add: small_node_def MaxInt64_def)
  moreover have "\<dots> \<le> 110"
    by (simp add: dead_region_def dead_node_def)
      (simp add: MaxDivided_ResourceList small_node_def EmptyResource_def shares_def MaxInt64_def)
  ultimately show ?thesis using r by linarith
qed

text \<open>
  The number does not take the pods that are already running into account: whatever is allocated on
  the nodes, the number is the same.
\<close>

theorem allocated_pods_are_ignored:
  "GetRegionAllocatablePodNum (upd_region r (\<lambda>rc. rc\<lparr>RCNodes := map (\<lambda>(k, nc). (k, nc\<lparr>Allocated := g nc\<rparr>)) (RCNodes rc)\<rparr>) c) r res =
     GetRegionAllocatablePodNum c r res"
  by (simp add: GetRegionAllocatablePodNum_def upd_region_def fold_map comp_def case_prod_unfold
      split: option.split)

section \<open>What a synchronisation sends\<close>

definition semits :: "(req \<Rightarrow> bool) \<Rightarrow> 'a sync \<Rightarrow> bool" where
  "semits P m \<longleftrightarrow> (\<forall>c h. \<exists>l. snd (snd (m (c, h))) = h @ l \<and> list_all P l)"

named_theorems semits_intros \<open>closure rules for the requests of a handler\<close>

lemma semits_basic [semits_intros]: "semits P (sret x)" "semits P (sgets f)" "semits P (smodify g)"
  by (simp_all add: semits_def sret_def sgets_def smodify_def)

lemma semits_lift [semits_intros]: "emits P m \<Longrightarrow> semits P (slift m)"
  by (simp add: semits_def emits_def slift_def split: prod.split) (metis snd_conv)

lemma semits_bind [semits_intros]:
  assumes "semits P m" and "\<And>x. semits P (f x)" shows "semits P (sbind m f)"
  unfolding semits_def
proof (intro allI)
  fix c h
  obtain r c1 h1 where m: "m (c, h) = (r, c1, h1)" by (cases "m (c, h)") auto
  obtain l where l: "h1 = h @ l" "list_all P l"
    using assms(1) m unfolding semits_def by (metis snd_conv)
  show "\<exists>l. snd (snd (sbind m f (c, h))) = h @ l \<and> list_all P l"
  proof (cases r)
    case (Ok x)
    obtain l' where "snd (snd (f x (c1, h1))) = h1 @ l'" "list_all P l'"
      using assms(2) [of x] unfolding semits_def by blast
    with Ok m l show ?thesis by (intro exI [of _ "l @ l'"]) (simp add: sbind_def)
  qed (use m l in \<open>auto simp: sbind_def\<close>)
qed

lemma semits_for [semits_intros]: "(\<And>x. semits P (f x)) \<Longrightarrow> semits P (sfor f xs)"
  by (induction xs) (auto intro: semits_intros)

lemma semits_if [semits_intros]:
  "(b \<Longrightarrow> semits P m) \<Longrightarrow> (\<not> b \<Longrightarrow> semits P n) \<Longrightarrow> semits P (if b then m else n)"
  by simp

lemma semits_case_option [semits_intros]:
  "(p = None \<Longrightarrow> semits P m) \<Longrightarrow> (\<And>x. p = Some x \<Longrightarrow> semits P (f x)) \<Longrightarrow>
   semits P (case p of None \<Rightarrow> m | Some x \<Rightarrow> f x)"
  by (cases p) auto

lemma semits_case_prod [semits_intros]:
  "(\<And>x y. p = (x, y) \<Longrightarrow> semits P (f x y)) \<Longrightarrow> semits P (case p of (x, y) \<Rightarrow> f x y)"
  by (cases p) auto

lemma semits_Let [semits_intros]: "(\<And>x. x = t \<Longrightarrow> semits P (f x)) \<Longrightarrow> semits P (let x = t in f x)"
  by simp

lemma semits_recover [semits_intros]:
  assumes "semits P m" shows "semits P (srecover m)"
proof -
  have "snd (snd (srecover m s)) = snd (snd (m s))" for s
    by (simp add: srecover_def split: prod.splits res.splits)
  with assms show ?thesis by (simp add: semits_def)
qed

lemma semits_stop [semits_intros]: "semits P (stopReconcile e)"
  unfolding stopReconcile_def by (intro semits_intros emits_intros)

lemma semits_read [semits_intros]: "semits P (sregion r)" "semits P (snode r n)"
  unfolding snode_def sregion_def by (intro semits_intros emits_intros)+

text \<open>Reads, and writes of ExtendedDeployments whose roll-out has finished.\<close>

definition region_request :: "req \<Rightarrow> bool" where
  "region_request q = (case q of
     UpdateED d \<Rightarrow> IsExtendedDeploymentProgressFinished d
   | GetED _ \<Rightarrow> True | ListRegions \<Rightarrow> True | GetRegion _ \<Rightarrow> True | ListPods _ \<Rightarrow> True
   | GetPod _ \<Rightarrow> True | GetNode _ \<Rightarrow> True | ListNodes _ \<Rightarrow> True | SelectIPS _ \<Rightarrow> True
   | _ \<Rightarrow> False)"

lemma region_request_simps [simp]:
  "region_request (UpdateED d) = IsExtendedDeploymentProgressFinished d"
  "region_request (GetED k)" "region_request ListRegions" "region_request (GetRegion n)"
  "region_request (ListPods k)" "region_request (GetPod k)" "region_request (GetNode n)"
  "region_request (ListNodes n)" "region_request (SelectIPS n)"
  by (simp_all add: region_request_def)

lemma emits_notFound [emits_intros]: "emits P m \<Longrightarrow> emits P (notFound_None m)"
  unfolding notFound_None_def by (intro emits_intros)

lemma emits_queries [emits_intros]:
  "emits region_request (QueryAllRegions D)" "emits region_request (QueryRegion D n)"
  "emits region_request (QueryNode D n)" "emits region_request (QueryNodesInRegion D dr)"
  "emits region_request (QueryAllPod D)" "emits region_request (QueryPod D ns n)"
  "emits region_request (QueryExtendedDeploymentsInRegion D n)"
  "emits region_request (QueryExtendedDeployment S k)"
  unfolding QueryAllRegions_def QueryRegion_def QueryNode_def QueryNodesInRegion_def listNodes_def
    QueryAllPod_def QueryPod_def QueryExtendedDeploymentsInRegion_def QueryInplaceSetsInRegion_def
    QueryExtendedDeployment_def
  by (intro emits_intros; simp)+

lemma emits_findRegion [emits_intros]: "emits P (findRegion D n rs)"
  by (induction D n rs rule: findRegion.induct)
    (auto simp: IsNodeBelongRegion_def intro!: emits_intros split: sum.split)

lemma emits_setFailure:
  "IsExtendedDeploymentProgressFinished d \<Longrightarrow> emits region_request (setFailureAnnotation D d rs)"
  unfolding setFailureAnnotation_def
  by (intro emits_intros) (simp_all add: IsExtendedDeploymentProgressFinished_def)

lemma semits_failedRegions [semits_intros]: "semits P (failedRegionsOf r s rs)"
  by (induction rs) (auto intro!: semits_intros)

lemma semits_check [semits_intros]: "semits region_request (CheckRegionStatus D r)"
  unfolding CheckRegionStatus_def notifyDeployment_def
  by (intro semits_intros emits_intros emits_setFailure)

lemma semits_handlers [semits_intros]:
  "semits region_request (handlePodEvent D ns n)" "semits region_request (handleNodeEvent D n)"
  "semits region_request (handleRegionEvent D n)" "semits region_request (waitCacheSynced D)"
  unfolding handlePodEvent_def handleNodeEvent_def handleRegionEvent_def waitCacheSynced_def
    nodeUpdated_def nodeAdded_def registerNode_def handleRegionCreate_def loadRegion_def claimNode_def
    loadPod_def
  by (intro semits_intros emits_intros)+

text \<open>
  C31: a synchronisation of the DeployRegion controller reads, and writes nothing but
  ExtendedDeployments whose roll-out has finished: a failing region never touches a deployment
  while it is being rolled out.
\<close>

theorem region_sync_writes:
  "\<exists>l. snd (snd (Sync D rq (c, h))) = h @ l \<and> list_all region_request l"
proof -
  have "semits region_request (Sync D rq)"
    unfolding Sync_def by (intro semits_intros)
  then show ?thesis unfolding semits_def by blast
qed

end
