(* ===== verification/Failover.thy ===== *)
theory Failover
  imports Reschedule RegionEffects
begin

text \<open>
  What the reschedule controller guarantees: the greedy loop places all replicas exactly when the
  target regions have room for them, a transfer out of failed regions neither loses nor adds a
  replica, the failure flag written by the DeployRegion controller is read back as the same set of
  regions, and nothing is written while a roll-out is in progress.
\<close>

section \<open>The loop\<close>

definition MaxInt32 :: int where "MaxInt32 = 2147483647"

definition alloc :: "scheduleRegionInfo gomap \<Rightarrow> string \<Rightarrow> int" where
  "alloc m k = (case mget m k of None \<Rightarrow> 0 | Some r \<Rightarrow> AllocatablePod r)"

lemma bestRegion_spec:
  assumes "\<forall>t \<in> set ts. mhas m t" and "\<forall>k. best = Some k \<longrightarrow> mhas m k"
  shows "\<exists>b. bestRegion m ts best h = (Ok b, h) \<and> (b = None \<longleftrightarrow> best = None \<and> ts = []) \<and>
    (\<forall>k. b = Some k \<longrightarrow> (k \<in> set ts \<or> best = Some k) \<and> (\<forall>t \<in> set ts. alloc m t \<le> alloc m k) \<and>
      (\<forall>k0. best = Some k0 \<longrightarrow> alloc m k0 \<le> alloc m k))"
  using assms
proof (induction ts arbitrary: best)
  case Nil
  then show ?case by (auto simp: ret_def)
next
  case (Cons t ts)
  obtain r where r: "mget m t = Some r" using Cons.prems(1) by (auto simp: mhas_def)
  show ?case
  proof (cases best)
    case None
    have "\<exists>b. bestRegion m ts (Some t) h = (Ok b, h) \<and> (b = None \<longleftrightarrow> Some t = None \<and> ts = []) \<and>
      (\<forall>k. b = Some k \<longrightarrow> (k \<in> set ts \<or> Some t = Some k) \<and> (\<forall>t \<in> set ts. alloc m t \<le> alloc m k) \<and>
        (\<forall>k0. Some t = Some k0 \<longrightarrow> alloc m k0 \<le> alloc m k))"
      using Cons.prems(1) by (intro Cons.IH) auto
    with None r show ?thesis by (auto simp: mhas_def)
  next
    case (Some k0)
    then obtain b where b: "mget m k0 = Some b" using Cons.prems(2) by (auto simp: mhas_def)
    define best' where "best' = (if AllocatablePod r > AllocatablePod b then Some t else best)"
    have step: "bestRegion m (t # ts) best h = bestRegion m ts best' h"
      using Some b r by (simp add: best'_def)
    have pick: "best' = (if alloc m t > alloc m k0 then Some t else Some k0)"
      using Some b r by (simp add: best'_def alloc_def)
    have "\<exists>c. bestRegion m ts best' h = (Ok c, h) \<and> (c = None \<longleftrightarrow> best' = None \<and> ts = []) \<and>
      (\<forall>k. c = Some k \<longrightarrow> (k \<in> set ts \<or> best' = Some k) \<and> (\<forall>t \<in> set ts. alloc m t \<le> alloc m k) \<and>
        (\<forall>k0. best' = Some k0 \<longrightarrow> alloc m k0 \<le> alloc m k))"
      using Cons.prems pick Some by (intro Cons.IH) auto
    then obtain c where c: "bestRegion m ts best' h = (Ok c, h)" "c \<noteq> None"
      "\<And>k. c = Some k \<Longrightarrow> (k \<in> set ts \<or> best' = Some k) \<and> (\<forall>t \<in> set ts. alloc m t \<le> alloc m k) \<and>
        (\<forall>k0. best' = Some k0 \<longrightarrow> alloc m k0 \<le> alloc m k)"
      using pick by (auto split: if_splits)
    obtain k where k: "c = Some k" using c(2) by auto
    have "k \<in> set (t # ts) \<or> best = Some k" "alloc m t \<le> alloc m k" "alloc m k0 \<le> alloc m k"
      using c(3) [OF k] pick Some by (auto split: if_splits)
    with step c(1) c(3) [OF k] k Some show ?thesis by (intro exI [of _ c]) auto
  qed
qed

text \<open>\<open>give x\<close> moves \<open>x k\<close> replicas into each region \<open>k\<close>.\<close>

definition give :: "(string \<Rightarrow> int) \<Rightarrow> string \<times> scheduleRegionInfo \<Rightarrow> string \<times> scheduleRegionInfo" where
  "give x = (\<lambda>(k, r). (k, r\<lparr>rescheduleReplicas := rescheduleReplicas r + x k,
     AllocatablePod := AllocatablePod r - x k\<rparr>))"

definition room :: "scheduleRegionInfo gomap \<Rightarrow> string list \<Rightarrow> int" where
  "room m ts = (\<Sum>k \<in> set ts. max 0 (alloc m k))"

text \<open>The replica counts leave room for \<open>n\<close> more replicas in an \<open>int32\<close>.\<close>

definition countable_regions :: "scheduleRegionInfo gomap \<Rightarrow> nat \<Rightarrow> bool" where
  "countable_regions m n \<longleftrightarrow> distinct (map fst m) \<and>
     (\<forall>(_, r) \<in> set m. 0 \<le> rescheduleReplicas r \<and> rescheduleReplicas r + int n \<le> MaxInt32 \<and>
        AllocatablePod r \<le> MaxInt64)"

lemma fst_give [simp]: "map fst (map (give x) m) = map fst m" "fst (give x p) = fst p"
  by (auto simp: give_def split: prod.splits)

definition raise :: "int \<Rightarrow> scheduleRegionInfo \<Rightarrow> scheduleRegionInfo" where
  "raise n r = r\<lparr>rescheduleReplicas := rescheduleReplicas r + n, AllocatablePod := AllocatablePod r - n\<rparr>"

lemma raise_simps [simp]:
  "rescheduleReplicas (raise n r) = rescheduleReplicas r + n" "AllocatablePod (raise n r) = AllocatablePod r - n"
  "configReplicas (raise n r) = configReplicas r"
  by (simp_all add: raise_def)

lemma mget_give: "mget (map (give x) m) k = map_option (raise (x k)) (mget m k)"
  by (induction m) (auto simp: give_def raise_def)

lemma alloc_give: "mhas m k \<Longrightarrow> alloc (map (give x) m) k = alloc m k - x k"
  by (auto simp: alloc_def mget_give mhas_def)

lemma mhas_give [simp]: "mhas (map (give x) m) k = mhas m k"
  by (simp add: mhas_def mget_give)

lemma give_give: "map (give y) (map (give x) m) = map (give (\<lambda>k. x k + y k)) m"
  by (auto simp: give_def split: prod.splits)

lemma give_0 [simp]: "map (give (\<lambda>_. 0)) m = m"
  by (induction m) (auto simp: give_def)

text \<open>One round of the loop.\<close>

definition one_at :: "string \<Rightarrow> string \<Rightarrow> int" where
  "one_at k k' = (if k' = k then 1 else 0)"

lemma set_key_give:
  assumes "distinct (map fst m)" and "mget m k = Some r"
  shows "mset_key k (r\<lparr>rescheduleReplicas := rescheduleReplicas r + 1, AllocatablePod := AllocatablePod r - 1\<rparr>) m =
    map (give (one_at k)) m"
  using assms
proof (induction m)
  case (Cons p m)
  obtain k' r' where p: "p = (k', r')" by (cases p)
  show ?case
  proof (cases "k' = k")
    case True
    have "map (give (one_at k)) m = m"
      using Cons.prems(1) p True by (intro map_idI) (force simp: give_def one_at_def)
    with True Cons.prems p show ?thesis by (simp add: mset_key_def give_def one_at_def)
  next
    case False
    with Cons p show ?thesis by (simp add: mset_key_def give_def one_at_def)
  qed
qed simp

lemma loop_round:
  assumes "countable_regions m (Suc n)" and "mget m k = Some r" and "0 < AllocatablePod r"
  shows "mset_key k (r\<lparr>rescheduleReplicas := i32 (rescheduleReplicas r + 1),
      AllocatablePod := i64 (AllocatablePod r - 1)\<rparr>) m = map (give (one_at k)) m"
    and "countable_regions (map (give (one_at k)) m) n"
proof -
  have r: "0 \<le> rescheduleReplicas r" "rescheduleReplicas r + int (Suc n) \<le> MaxInt32" "AllocatablePod r \<le> MaxInt64"
    using assms(1) map_of_SomeD [OF assms(2)] by (auto simp: countable_regions_def)
  have "i32 (rescheduleReplicas r + 1) = rescheduleReplicas r + 1"
    using r(1,2) by (intro i32_idI) (auto simp: MaxInt32_def)
  moreover have "i64 (AllocatablePod r - 1) = AllocatablePod r - 1"
    using r(3) assms(3) by (intro i64_pos) auto
  ultimately show "mset_key k (r\<lparr>rescheduleReplicas := i32 (rescheduleReplicas r + 1),
      AllocatablePod := i64 (AllocatablePod r - 1)\<rparr>) m = map (give (one_at k)) m"
    using set_key_give [OF _ assms(2)] assms(1) by (simp add: countable_regions_def)
  show "countable_regions (map (give (one_at k)) m) n"
    unfolding countable_regions_def
  proof
    show "distinct (map fst (map (give (one_at k)) m))" using assms(1) by (simp only: fst_give countable_regions_def)
    show "\<forall>(_, r) \<in> set (map (give (one_at k)) m). 0 \<le> rescheduleReplicas r \<and>
        rescheduleReplicas r + int n \<le> MaxInt32 \<and> AllocatablePod r \<le> MaxInt64"
      using assms(1) by (fastforce simp: countable_regions_def give_def one_at_def)
  qed
qed

lemma room_round:
  assumes "k \<in> set ts" and "\<forall>t \<in> set ts. mhas m t" and "0 < alloc m k"
  shows "room (map (give (one_at k)) m) ts = room m ts - 1"
proof -
  have "room (map (give (one_at k)) m) ts = (\<Sum>t \<in> set ts. max 0 (alloc m t) - one_at k t)"
    unfolding room_def
    by (rule sum.cong) (use assms in \<open>auto simp: alloc_give one_at_def\<close>)
  also have "\<dots> = room m ts - (\<Sum>t \<in> set ts. one_at k t)" by (simp add: room_def sum_subtractf)
  also have "(\<Sum>t \<in> set ts. one_at k t) = 1" using assms(1) by (simp add: one_at_def)
  finally show ?thesis .
qed

text \<open>How \<open>n\<close> replicas may be spread over the target regions.\<close>

definition spread :: "scheduleRegionInfo gomap \<Rightarrow> string list \<Rightarrow> int \<Rightarrow> (string \<Rightarrow> int) \<Rightarrow> bool" where
  "spread m ts n x \<longleftrightarrow> (\<forall>k. 0 \<le> x k \<and> (k \<notin> set ts \<longrightarrow> x k = 0) \<and> x k \<le> max 0 (alloc m k)) \<and>
     (\<Sum>k \<in> set ts. x k) = n"

lemma room_nonneg: "0 \<le> room m ts"
  by (simp add: room_def sum_nonneg)

lemma spread_round:
  assumes "spread (map (give (one_at k)) m) ts n y" and "k \<in> set ts" and "\<forall>t \<in> set ts. mhas m t"
    and "0 < alloc m k"
  shows "spread m ts (n + 1) (\<lambda>t. one_at k t + y t)"
proof -
  have y: "0 \<le> y t" "t \<notin> set ts \<Longrightarrow> y t = 0" "y t \<le> max 0 (alloc (map (give (one_at k)) m) t)" for t
    using assms(1) by (auto simp: spread_def)
  have bound: "one_at k t + y t \<le> max 0 (alloc m t)" for t
  proof (cases "t \<in> set ts")
    case True
    then have "alloc (map (give (one_at k)) m) t = alloc m t - one_at k t" using assms(3) by (simp add: alloc_give)
    with y(3) [of t] assms(4) show ?thesis by (cases "t = k") (auto simp: one_at_def)
  next
    case False
    with assms(2) y(2) show ?thesis by (auto simp: one_at_def)
  qed
  have "(\<Sum>t \<in> set ts. one_at k t + y t) = n + 1"
    using assms(1,2) by (simp add: spread_def sum.distrib one_at_def)
  moreover have "one_at k t + y t = 0" if "t \<notin> set ts" for t
    using that assms(2) y(2) by (auto simp: one_at_def)
  moreover have "0 \<le> one_at k t + y t" for t using y(1) [of t] by (simp add: one_at_def)
  ultimately show ?thesis using bound by (simp add: spread_def)
qed

lemma rescheduleLoop_spec:
  assumes "countable_regions m n" and "\<forall>t \<in> set ts. mhas m t"
  shows "if int n \<le> room m ts
    then \<exists>x. rescheduleLoop ts n m h = (Ok (map (give x) m), h) \<and> spread m ts (int n) x
    else rescheduleLoop ts n m h = (Err ErrWithoutAvailableRegions, h)"
  using assms
proof (induction n arbitrary: m)
  case 0
  have "rescheduleLoop ts 0 m h = (Ok (map (give (\<lambda>_. 0)) m), h)" by (simp add: ret_def)
  moreover have "spread m ts (int 0) (\<lambda>_. 0)" by (simp add: spread_def)
  ultimately have "\<exists>x. rescheduleLoop ts 0 m h = (Ok (map (give x) m), h) \<and> spread m ts (int 0) x" by blast
  moreover have "int 0 \<le> room m ts" using room_nonneg [of m ts] by simp
  ultimately show ?case by (simp only: if_True)
next
  case (Suc n)
  obtain b where b: "bestRegion m ts None h = (Ok b, h)" "b = None \<longleftrightarrow> ts = []"
    and max: "\<And>k. b = Some k \<Longrightarrow> k \<in> set ts \<and> (\<forall>t \<in> set ts. alloc m t \<le> alloc m k)"
    using bestRegion_spec [of ts m None h] Suc.prems(2) by auto
  show ?case
  proof (cases b)
    case None
    then have "ts = []" using b(2) by simp
    then have "room m ts = 0" by (simp add: room_def)
    with None b(1) show ?thesis by (simp add: bind_io_def fail_def)
  next
    case (Some k)
    note k = max [OF Some]
    obtain r where r: "mget m k = Some r" using k Suc.prems(2) by (auto simp: mhas_def)
    then have a: "alloc m k = AllocatablePod r" by (simp add: alloc_def)
    show ?thesis
    proof (cases "AllocatablePod r \<le> 0")
      case True
      have "max 0 (alloc m t) = 0" if "t \<in> set ts" for t
        using k that a True by (metis max.absorb1 order_trans)
      then have "room m ts = 0" by (simp add: room_def)
      with True Some r b(1) show ?thesis by (simp add: bind_io_def fail_def)
    next
      case False
      let ?m = "map (give (one_at k)) m"
      have round: "rescheduleLoop ts (Suc n) m h = rescheduleLoop ts n ?m h"
        using b(1) Some r False loop_round(1) [OF Suc.prems(1) r] by (simp add: bind_io_def)
      have room: "room ?m ts = room m ts - 1"
        using room_round k Suc.prems(2) a False by simp
      have IH: "if int n \<le> room ?m ts
        then \<exists>x. rescheduleLoop ts n ?m h = (Ok (map (give x) ?m), h) \<and> spread ?m ts (int n) x
        else rescheduleLoop ts n ?m h = (Err ErrWithoutAvailableRegions, h)"
        using Suc.prems loop_round(2) [OF Suc.prems(1) r] False by (intro Suc.IH) auto
      show ?thesis
      proof (cases "int (Suc n) \<le> room m ts")
        case True
        then obtain y where y: "rescheduleLoop ts n ?m h = (Ok (map (give y) ?m), h)" "spread ?m ts (int n) y"
          using IH room by auto
        have "spread m ts (int (Suc n)) (\<lambda>t. one_at k t + y t)"
          using spread_round [OF y(2)] k Suc.prems(2) a False by (simp add: add.commute)
        with True round y(1) show ?thesis by (simp only: give_give if_True) blast
      next
        case False
        with IH room round show ?thesis by simp
      qed
    qed
  qed
qed

text \<open>
  C15: the greedy loop is complete. For target regions that are part of the plan, it places all
  replicas exactly when the free capacity of the targets, counted together, suffices, and reports
  that no region is available otherwise. When it succeeds each target region receives at most its
  capacity, the other regions receive nothing, and together they receive the number asked for.
\<close>

theorem reschedule_places_all:
  assumes "countable_regions m (nat n)" and "\<forall>t \<in> set ts. mhas m t"
  shows "if max 0 n \<le> room m ts
    then \<exists>x. reschedule ts n m h = (Ok (map (give x) m), h) \<and> spread m ts (max 0 n) x
    else reschedule ts n m h = (Err ErrWithoutAvailableRegions, h)"
proof -
  have "max 0 n = int (nat n)" by simp
  with rescheduleLoop_spec [OF assms] show ?thesis unfolding reschedule_def by (simp only:)
qed

definition two_regions :: "scheduleRegionInfo gomap" where
  "two_regions = [(''a'', \<lparr>SName = ''a'', configReplicas = 3, scheduleReplicas = 0, rescheduleReplicas = 3, AllocatablePod = 2\<rparr>),
     (''b'', \<lparr>SName = ''b'', configReplicas = 1, scheduleReplicas = 0, rescheduleReplicas = 1, AllocatablePod = 4\<rparr>)]"

theorem reschedule_places_all_witness:
  "(\<exists>x. reschedule [''b''] 3 two_regions [] = (Ok (map (give x) two_regions), []) \<and> spread two_regions [''b''] 3 x) \<and>
   reschedule [''b''] 5 two_regions [] = (Err ErrWithoutAvailableRegions, [])"
proof -
  have c: "countable_regions two_regions (nat 3)" "countable_regions two_regions (nat 5)"
    by (simp_all add: countable_regions_def two_regions_def MaxInt32_def MaxInt64_def)
  have k: "\<forall>t \<in> set [''b'']. mhas two_regions t" by (simp add: two_regions_def mhas_def)
  have r: "room two_regions [''b''] = 4" by (simp add: room_def alloc_def two_regions_def)
  from reschedule_places_all [OF c(1) k, of "[]"] reschedule_places_all [OF c(2) k, of "[]"] r
  show ?thesis by simp
qed

section \<open>Failed regions\<close>

abbreviation failed_in :: "bool gomap \<Rightarrow> string \<Rightarrow> bool" where
  "failed_in rm k \<equiv> mget rm k = Some True"

definition cleared :: "bool gomap \<Rightarrow> string \<times> scheduleRegionInfo \<Rightarrow> string \<times> scheduleRegionInfo" where
  "cleared rm = (\<lambda>(k, r). (k, if failed_in rm k then r\<lparr>rescheduleReplicas := 0\<rparr> else r))"

definition failed_total :: "bool gomap \<Rightarrow> scheduleRegionInfo gomap \<Rightarrow> int" where
  "failed_total rm m = (\<Sum>(k, r) \<leftarrow> m. if failed_in rm k then configReplicas r else 0)"

definition healthy :: "bool gomap \<Rightarrow> scheduleRegionInfo gomap \<Rightarrow> string list" where
  "healthy rm m = map fst (filter (\<lambda>(k, _). \<not> failed_in rm k) m)"

text \<open>A plan before any transfer: every region keeps its configured replicas.\<close>

definition fresh_plan :: "ScheduleInfo \<Rightarrow> bool" where
  "fresh_plan info \<longleftrightarrow> distinct (map fst (regionsInfo info)) \<and>
     (\<forall>(_, r) \<in> set (regionsInfo info). 0 \<le> configReplicas r \<and> rescheduleReplicas r = configReplicas r \<and>
        AllocatablePod r \<le> MaxInt64) \<and>
     (\<Sum>(_, r) \<leftarrow> regionsInfo info. configReplicas r) \<le> MaxInt32"

lemma cleared_simps [simp]: "fst (cleared rm p) = fst p" "map fst (map (cleared rm) m) = map fst m"
  by (auto simp: cleared_def split: prod.splits)

lemma mget_cleared: "mget (map (cleared rm) m) k =
    map_option (\<lambda>r. if failed_in rm k then r\<lparr>rescheduleReplicas := 0\<rparr> else r) (mget m k)"
  by (induction m) (auto simp: cleared_def)

lemma mhas_cleared [simp]: "mhas (map (cleared rm) m) k = mhas m k"
  by (simp add: mhas_def mget_cleared)

lemma alloc_cleared [simp]: "alloc (map (cleared rm) m) k = alloc m k"
  by (simp add: alloc_def mget_cleared split: option.split)

lemma healthy_not_failed: "k \<in> set (healthy rm m) \<Longrightarrow> \<not> failed_in rm k"
  by (auto simp: healthy_def)

lemma failed_total_simps [simp]:
  "failed_total rm [] = 0"
  "failed_total rm ((k, r) # m) = (if failed_in rm k then configReplicas r else 0) + failed_total rm m"
  by (simp_all add: failed_total_def)

lemma failed_total_nonneg: "\<forall>(_, r) \<in> set m. 0 \<le> configReplicas r \<Longrightarrow> 0 \<le> failed_total rm m"
  unfolding failed_total_def by (intro sum_list_nonneg) auto

lemma set_key_middle: "k \<notin> fst ` set xs \<Longrightarrow> mset_key k v (xs @ (k, r) # ys) = xs @ (k, v) # ys"
  unfolding mset_key_def by (induction xs) auto

lemma failRegion_fold:
  assumes "distinct (map fst (xs @ ys))" and "\<forall>(_, r) \<in> set ys. 0 \<le> configReplicas r"
    and "0 \<le> num" and "num + failed_total rm ys \<le> MaxInt32"
  shows "\<exists>fl. fold (failRegion rm) ys (\<lparr>regionsInfo = map (cleared rm) xs @ ys, failedRegions = fl0\<rparr>, ts, num) =
    (\<lparr>regionsInfo = map (cleared rm) (xs @ ys), failedRegions = fl\<rparr>, ts @ healthy rm ys, num + failed_total rm ys)"
  using assms
proof (induction ys arbitrary: xs fl0 ts num)
  case Nil
  then show ?case by (simp add: healthy_def)
next
  case (Cons p ys)
  obtain k r where p: "p = (k, r)" by (cases p)
  have new: "k \<notin> fst ` set (map (cleared rm) xs)"
    unfolding set_map [symmetric] cleared_simps using Cons.prems(1) p by simp
  have rest: "0 \<le> failed_total rm ys" using Cons.prems(2) by (intro failed_total_nonneg) auto
  have dist: "distinct (map fst ((xs @ [p]) @ ys))" using Cons.prems(1) by simp
  have pos: "0 \<le> configReplicas r" and poss: "\<forall>(_, r) \<in> set ys. 0 \<le> configReplicas r"
    using Cons.prems(2) p by auto
  have max: "num + (if failed_in rm k then configReplicas r else 0) + failed_total rm ys \<le> MaxInt32"
    using Cons.prems(4) p by (simp add: add.assoc)
  have all: "map (cleared rm) ((xs @ [p]) @ ys) = map (cleared rm) (xs @ p # ys)" by simp
  show ?case
  proof (cases "failed_in rm k")
    case True
    have num: "i32 (num + configReplicas r) = num + configReplicas r"
      using Cons.prems(3) pos max rest True by (intro i32_idI) (simp_all add: MaxInt32_def)
    have step: "failRegion rm p (\<lparr>regionsInfo = map (cleared rm) xs @ p # ys, failedRegions = fl0\<rparr>, ts, num) =
        (\<lparr>regionsInfo = map (cleared rm) (xs @ [p]) @ ys, failedRegions = fl0 @ [k]\<rparr>, ts, num + configReplicas r)"
      using True p set_key_middle [OF new] by (simp add: failRegion_def num) (simp add: cleared_def)
    have "\<exists>fl. fold (failRegion rm) ys (\<lparr>regionsInfo = map (cleared rm) (xs @ [p]) @ ys, failedRegions = fl0 @ [k]\<rparr>,
        ts, num + configReplicas r) = (\<lparr>regionsInfo = map (cleared rm) ((xs @ [p]) @ ys), failedRegions = fl\<rparr>,
        ts @ healthy rm ys, num + configReplicas r + failed_total rm ys)"
      using Cons.prems(3) pos max True by (intro Cons.IH dist poss) simp_all
    moreover have "healthy rm (p # ys) = healthy rm ys"
      "num + failed_total rm (p # ys) = num + configReplicas r + failed_total rm ys"
      using True p by (simp_all add: healthy_def)
    ultimately show ?thesis unfolding fold_simps step all by (simp only:)
  next
    case False
    have step: "failRegion rm p (\<lparr>regionsInfo = map (cleared rm) xs @ p # ys, failedRegions = fl0\<rparr>, ts, num) =
        (\<lparr>regionsInfo = map (cleared rm) (xs @ [p]) @ ys, failedRegions = fl0\<rparr>, ts @ [k], num)"
      using False p by (simp add: failRegion_def) (simp add: cleared_def)
    have "\<exists>fl. fold (failRegion rm) ys (\<lparr>regionsInfo = map (cleared rm) (xs @ [p]) @ ys, failedRegions = fl0\<rparr>,
        ts @ [k], num) = (\<lparr>regionsInfo = map (cleared rm) ((xs @ [p]) @ ys), failedRegions = fl\<rparr>,
        (ts @ [k]) @ healthy rm ys, num + failed_total rm ys)"
      using Cons.prems(3) max False by (intro Cons.IH dist poss) simp_all
    moreover have "ts @ healthy rm (p # ys) = (ts @ [k]) @ healthy rm ys"
      "num + failed_total rm (p # ys) = num + failed_total rm ys"
      using False p by (simp_all add: healthy_def)
    ultimately show ?thesis unfolding fold_simps step all by (simp only:)
  qed
qed

lemma config_split:
  assumes "\<forall>(_, r) \<in> set m. 0 \<le> configReplicas r" and "(k, r) \<in> set m"
  shows "(if failed_in rm k then 0 else configReplicas r) + failed_total rm m \<le> (\<Sum>(_, r) \<leftarrow> m. configReplicas r)"
  using assms
proof (induction m)
  case (Cons p m)
  obtain k' r' where p: "p = (k', r')" by (cases p)
  have "failed_total rm m \<le> (\<Sum>(_, r) \<leftarrow> m. configReplicas r)"
    unfolding failed_total_def using Cons.prems(1) by (intro sum_list_mono) auto
  moreover have "(if failed_in rm k then 0 else configReplicas r) + failed_total rm m \<le>
      (\<Sum>(_, r) \<leftarrow> m. configReplicas r)" if "(k, r) \<in> set m"
    using Cons that by simp
  ultimately show ?case using Cons.prems p by (cases "p = (k, r)") (auto split: if_splits)
qed simp

lemma countable_cleared:
  assumes "fresh_plan info"
  shows "countable_regions (map (cleared rm) (regionsInfo info)) (nat (failed_total rm (regionsInfo info)))"
proof -
  let ?m = "regionsInfo info"
  have nn: "\<forall>(_, r) \<in> set ?m. 0 \<le> configReplicas r" using assms by (auto simp: fresh_plan_def)
  have total: "int (nat (failed_total rm ?m)) = failed_total rm ?m" using failed_total_nonneg [OF nn] by simp
  have "0 \<le> rescheduleReplicas r' \<and> rescheduleReplicas r' + failed_total rm ?m \<le> MaxInt32 \<and>
      AllocatablePod r' \<le> MaxInt64" if "(k, r') \<in> set (map (cleared rm) ?m)" for k r'
  proof -
    obtain r where r: "(k, r) \<in> set ?m" "r' = (if failed_in rm k then r\<lparr>rescheduleReplicas := 0\<rparr> else r)"
      using \<open>(k, r') \<in> set (map (cleared rm) ?m)\<close> by (auto simp: cleared_def)
    have f: "0 \<le> configReplicas r" "rescheduleReplicas r = configReplicas r" "AllocatablePod r \<le> MaxInt64"
      "(\<Sum>(_, r) \<leftarrow> ?m. configReplicas r) \<le> MaxInt32"
      using assms r(1) by (auto simp: fresh_plan_def)
    show ?thesis using config_split [OF nn r(1), of rm] f r(2) by (auto split: if_splits)
  qed
  moreover have "distinct (map fst (map (cleared rm) ?m))"
    using assms by (simp only: cleared_simps fresh_plan_def)
  ultimately show ?thesis unfolding countable_regions_def total by blast
qed

lemma RescheduleFailedRegions_spec:
  assumes "fresh_plan info" and "rm \<noteq> []"
  shows "if failed_total rm (regionsInfo info) \<le> room (regionsInfo info) (healthy rm (regionsInfo info))
    then \<exists>x. RescheduleFailedRegions rm info h =
        (Ok (info\<lparr>regionsInfo := map (give x) (map (cleared rm) (regionsInfo info))\<rparr>), h) \<and>
      spread (regionsInfo info) (healthy rm (regionsInfo info)) (failed_total rm (regionsInfo info)) x
    else RescheduleFailedRegions rm info h = (Err ErrWithoutAvailableRegions, h)"
proof -
  let ?m = "regionsInfo info"
  let ?t = "failed_total rm ?m" and ?ts = "healthy rm ?m"
  have nn: "\<forall>(_, r) \<in> set ?m. 0 \<le> configReplicas r" and dist: "distinct (map fst ?m)"
    and tot: "(\<Sum>(_, r) \<leftarrow> ?m. configReplicas r) \<le> MaxInt32"
    using assms(1) by (auto simp: fresh_plan_def)
  have "?t \<le> (\<Sum>(_, r) \<leftarrow> ?m. configReplicas r)"
    unfolding failed_total_def using nn by (intro sum_list_mono) auto
  with tot have max: "0 + ?t \<le> MaxInt32" by simp
  have info: "\<lparr>regionsInfo = map (cleared rm) [] @ ?m, failedRegions = failedRegions info\<rparr> = info"
    by (cases info) simp
  obtain fl where "fold (failRegion rm) ?m (info, [], 0) =
      (\<lparr>regionsInfo = map (cleared rm) ([] @ ?m), failedRegions = fl\<rparr>, [] @ ?ts, 0 + ?t)"
    using failRegion_fold [of "[]" ?m 0 rm "failedRegions info" "[]", unfolded info] nn dist max by auto
  then have fold: "fold (failRegion rm) ?m (info, [], 0) =
      (\<lparr>regionsInfo = map (cleared rm) ?m, failedRegions = fl\<rparr>, ?ts, ?t)" by simp
  have keys: "\<forall>t \<in> set ?ts. mhas (map (cleared rm) ?m) t"
    by (auto simp: healthy_def mhas_def map_of_eq_None_iff mget_cleared)
  have room: "room (map (cleared rm) ?m) ts = room ?m ts" for ts by (simp add: room_def)
  have spread: "spread (map (cleared rm) ?m) ts n x = spread ?m ts n x" for ts n x by (simp add: spread_def)
  have pos: "int (nat ?t) = ?t" using failed_total_nonneg [OF nn] by simp
  have run: "RescheduleFailedRegions rm info h = bind_io (reschedule ?ts ?t (map (cleared rm) ?m)) (\<lambda>m.
      ret (info\<lparr>regionsInfo := m\<rparr>)) h"
    using assms(2) fold by (simp add: RescheduleFailedRegions_def)
  have R: "if ?t \<le> room ?m ?ts
    then \<exists>x. reschedule ?ts ?t (map (cleared rm) ?m) h = (Ok (map (give x) (map (cleared rm) ?m)), h) \<and>
      spread ?m ?ts ?t x
    else reschedule ?ts ?t (map (cleared rm) ?m) h = (Err ErrWithoutAvailableRegions, h)"
    using rescheduleLoop_spec [OF countable_cleared [OF assms(1)] keys, of h]
    unfolding reschedule_def room spread pos .
  show ?thesis
  proof (cases "?t \<le> room ?m ?ts")
    case True
    then obtain x where "reschedule ?ts ?t (map (cleared rm) ?m) h = (Ok (map (give x) (map (cleared rm) ?m)), h)"
      "spread ?m ?ts ?t x" using R by (simp only: if_True) blast
    then have "RescheduleFailedRegions rm info h =
        (Ok (info\<lparr>regionsInfo := map (give x) (map (cleared rm) ?m)\<rparr>), h) \<and> spread ?m ?ts ?t x"
      unfolding run by (simp add: bind_io_def ret_def)
    with True show ?thesis by (simp only: if_True) blast
  next
    case False
    with R have "reschedule ?ts ?t (map (cleared rm) ?m) h = (Err ErrWithoutAvailableRegions, h)"
      by (simp only: if_False)
    with False show ?thesis unfolding run by (simp add: bind_io_def)
  qed
qed

section \<open>The annotation\<close>

lemma fold_set_key:
  assumes "distinct (map fst acc @ map fst xs)"
  shows "fold (\<lambda>(k, r) m. mset_key k (f r) m) xs acc = acc @ map (\<lambda>(k, r). (k, f r)) xs"
  using assms
proof (induction xs arbitrary: acc)
  case (Cons p xs)
  obtain k r where p: "p = (k, r)" by (cases p)
  have "mset_key k (f r) acc = acc @ [(k, f r)]"
    using Cons.prems p unfolding mset_key_def by (induction acc) auto
  with Cons.IH [of "acc @ [(k, f r)]"] Cons.prems p show ?case by simp
qed simp

definition schedule_of :: "scheduleRegionInfo \<Rightarrow> ScheduleReplicas" where
  "schedule_of r = \<lparr>Config = configReplicas r, Schedule = i32 (rescheduleReplicas r - configReplicas r)\<rparr>"

lemma Infos_scheduleSpec:
  assumes "distinct (map fst (regionsInfo info))"
  shows "Infos (scheduleSpec info g) = map (\<lambda>(k, r). (k, schedule_of r)) (regionsInfo info)"
  using fold_set_key [of "[]" "regionsInfo info" schedule_of] assms
  by (simp add: scheduleSpec_def makeEmptyAutoScheduleSpec_def schedule_of_def)

lemma desired_schedule_of:
  assumes "0 \<le> configReplicas r" "configReplicas r \<le> MaxInt32" "0 \<le> rescheduleReplicas r"
    "rescheduleReplicas r \<le> MaxInt32"
  shows "DesiredReplicas_of (schedule_of r) = rescheduleReplicas r"
proof -
  have "i32 (rescheduleReplicas r - configReplicas r) = rescheduleReplicas r - configReplicas r"
    using assms by (intro i32_idI) (auto simp: MaxInt32_def)
  moreover have "i32 (rescheduleReplicas r) = rescheduleReplicas r"
    using assms by (intro i32_idI) (auto simp: MaxInt32_def)
  ultimately show ?thesis by (simp add: DesiredReplicas_of_def schedule_of_def)
qed

lemma sum_given:
  assumes "distinct (map fst m)" and "spread m' ts n x" and "set ts \<subseteq> fst ` set m"
  shows "(\<Sum>(k, _) \<leftarrow> m. x k) = n"
proof -
  have "(\<Sum>(k, _) \<leftarrow> m. x k) = sum_list (map x (map fst m))" by (simp add: comp_def case_prod_unfold)
  also have "\<dots> = (\<Sum>k \<in> set (map fst m). x k)"
    using assms(1) by (simp only: sum_list_distinct_conv_sum_set)
  also have "\<dots> = (\<Sum>k \<in> set ts. x k)"
    using assms(2,3) by (intro sum.mono_neutral_right) (auto simp: spread_def)
  finally show ?thesis using assms(2) by (simp add: spread_def)
qed

text \<open>The counts a transfer out of the failed regions leaves in the annotation.\<close>

lemma failover_desired:
  assumes "fresh_plan info" and "spread (regionsInfo info) (healthy rm (regionsInfo info))
      (failed_total rm (regionsInfo info)) x" and "(k, r) \<in> set (regionsInfo info)"
  shows "DesiredReplicas_of (schedule_of (snd (give x (cleared rm (k, r))))) =
      (if failed_in rm k then 0 else configReplicas r + x k)"
    and "0 \<le> x k" "x k \<le> max 0 (alloc (regionsInfo info) k)"
proof -
  let ?m = "regionsInfo info"
  have x: "0 \<le> x k" "k \<notin> set (healthy rm ?m) \<Longrightarrow> x k = 0" "x k \<le> max 0 (alloc ?m k)"
    using assms(2) by (auto simp: spread_def)
  then show "0 \<le> x k" "x k \<le> max 0 (alloc ?m k)" by blast+
  have r: "0 \<le> configReplicas r" "rescheduleReplicas r = configReplicas r"
    and tot: "(\<Sum>(_, r) \<leftarrow> ?m. configReplicas r) \<le> MaxInt32" and nn: "\<forall>(_, r) \<in> set ?m. 0 \<le> configReplicas r"
    using assms(1,3) by (auto simp: fresh_plan_def)
  have "x k \<le> failed_total rm ?m"
  proof (cases "k \<in> set (healthy rm ?m)")
    case True
    have "x k \<le> (\<Sum>k \<in> set (healthy rm ?m). x k)"
      using True assms(2) by (intro member_le_sum) (auto simp: spread_def)
    then show ?thesis using assms(2) by (simp add: spread_def)
  qed (use x failed_total_nonneg [OF nn] in auto)
  moreover note config_split [OF nn assms(3), of rm]
  moreover have "x k = 0" if "failed_in rm k"
    using that x(2) healthy_not_failed by blast
  moreover have "configReplicas r \<le> MaxInt32"
    using config_split [OF nn assms(3), of "[]"] failed_total_nonneg [OF nn, of "[]"] tot by simp
  ultimately show "DesiredReplicas_of (schedule_of (snd (give x (cleared rm (k, r))))) =
      (if failed_in rm k then 0 else configReplicas r + x k)"
    using r tot x(1)
    by (cases "failed_in rm k") (simp_all add: give_def cleared_def desired_schedule_of MaxInt32_def)
qed

text \<open>
  C2: a transfer out of failed regions neither loses nor adds a replica. When it succeeds, the
  desired counts in the annotation that the ExtendedDeployment controller reads add up to the
  configured total, a failed region gets 0, and every other region gets its configured replicas and
  at most as many more as it has room for. It succeeds exactly when the healthy regions have room
  for all replicas of the failed ones.
\<close>

theorem failover_keeps_total:
  assumes "fresh_plan info" and "rm \<noteq> []"
    and "failed_total rm (regionsInfo info) \<le> room (regionsInfo info) (healthy rm (regionsInfo info))"
  shows "\<exists>info'. RescheduleFailedRegions rm info h = (Ok info', h) \<and>
    (\<Sum>(_, s) \<leftarrow> Infos (scheduleSpec info' g). DesiredReplicas_of s) =
      (\<Sum>(_, r) \<leftarrow> regionsInfo info. configReplicas r) \<and>
    (\<forall>(k, r) \<in> set (regionsInfo info). \<exists>s. (k, s) \<in> set (Infos (scheduleSpec info' g)) \<and>
      (if failed_in rm k then DesiredReplicas_of s = 0
       else configReplicas r \<le> DesiredReplicas_of s \<and>
         DesiredReplicas_of s \<le> configReplicas r + max 0 (alloc (regionsInfo info) k)))"
proof -
  let ?m = "regionsInfo info"
  obtain x where run: "RescheduleFailedRegions rm info h =
      (Ok (info\<lparr>regionsInfo := map (give x) (map (cleared rm) ?m)\<rparr>), h)"
    and x: "spread ?m (healthy rm ?m) (failed_total rm ?m) x"
    using RescheduleFailedRegions_spec [OF assms(1,2), of h] assms(3) by (simp only: if_True) blast
  let ?m' = "map (give x) (map (cleared rm) ?m)"
  have dist: "distinct (map fst ?m)" using assms(1) by (simp add: fresh_plan_def)
  have "distinct (map fst ?m')" by (simp only: fst_give cleared_simps dist)
  then have infos: "Infos (scheduleSpec (info\<lparr>regionsInfo := ?m'\<rparr>) g) =
      map (\<lambda>p. (fst p, schedule_of (snd (give x (cleared rm p))))) ?m"
    by (subst Infos_scheduleSpec) (simp_all add: case_prod_unfold comp_def)
  note desired = failover_desired [OF assms(1) x]
  have "(\<Sum>(_, s) \<leftarrow> Infos (scheduleSpec (info\<lparr>regionsInfo := ?m'\<rparr>) g). DesiredReplicas_of s) =
      (\<Sum>(k, r) \<leftarrow> ?m. if failed_in rm k then 0 else configReplicas r + x k)"
    unfolding infos unfolding map_map comp_def case_prod_unfold fst_conv snd_conv
    by (rule arg_cong [where f = sum_list], rule map_cong) (use desired(1) in auto)
  also have "\<dots> = (\<Sum>(k, r) \<leftarrow> ?m. configReplicas r + x k - (if failed_in rm k then configReplicas r else 0))"
  proof (rule arg_cong [where f = sum_list], rule map_cong)
    fix p assume "p \<in> set ?m"
    have "x (fst p) = 0" if "failed_in rm (fst p)"
      using that x healthy_not_failed unfolding spread_def by blast
    then show "(case p of (k, r) \<Rightarrow> if failed_in rm k then 0 else configReplicas r + x k) =
      (case p of (k, r) \<Rightarrow> configReplicas r + x k - (if failed_in rm k then configReplicas r else 0))"
      by (cases p) simp
  qed simp
  also have "\<dots> = (\<Sum>(_, r) \<leftarrow> ?m. configReplicas r) + (\<Sum>(k, _) \<leftarrow> ?m. x k) - failed_total rm ?m"
    by (simp add: failed_total_def case_prod_unfold sum_list_subtractf sum_list_addf)
  also have "(\<Sum>(k, _) \<leftarrow> ?m. x k) = failed_total rm ?m"
    by (rule sum_given [OF dist x]) (auto simp: healthy_def)
  finally have total: "(\<Sum>(_, s) \<leftarrow> Infos (scheduleSpec (info\<lparr>regionsInfo := ?m'\<rparr>) g). DesiredReplicas_of s) =
      (\<Sum>(_, r) \<leftarrow> ?m. configReplicas r)" by simp
  have each: "\<exists>s. (k, s) \<in> set (Infos (scheduleSpec (info\<lparr>regionsInfo := ?m'\<rparr>) g)) \<and>
      (if failed_in rm k then DesiredReplicas_of s = 0
       else configReplicas r \<le> DesiredReplicas_of s \<and>
         DesiredReplicas_of s \<le> configReplicas r + max 0 (alloc ?m k))" if "(k, r) \<in> set ?m" for k r
    unfolding infos
    by (rule exI [of _ "schedule_of (snd (give x (cleared rm (k, r))))"])
      (use that desired [OF that] in \<open>force split: if_splits\<close>)
  show ?thesis using run total each by blast
qed

definition lost_b :: "bool gomap" where
  "lost_b = [(''b'', True), (''a'', False)]"

theorem failover_keeps_total_witness:
  "\<exists>info'. RescheduleFailedRegions lost_b \<lparr>regionsInfo = two_regions, failedRegions = []\<rparr> [] = (Ok info', []) \<and>
    (\<Sum>(_, s) \<leftarrow> Infos (scheduleSpec info' 7). DesiredReplicas_of s) = 4"
proof -
  let ?i = "\<lparr>regionsInfo = two_regions, failedRegions = []\<rparr>"
  have f: "fresh_plan ?i" by (simp add: fresh_plan_def two_regions_def MaxInt32_def MaxInt64_def)
  have t: "failed_total lost_b two_regions \<le> room two_regions (healthy lost_b two_regions)"
    by (simp add: lost_b_def two_regions_def room_def healthy_def alloc_def)
  have s: "(\<Sum>(_, r) \<leftarrow> two_regions. configReplicas r) = 4" by (simp add: two_regions_def)
  have "\<exists>info'. RescheduleFailedRegions lost_b ?i [] = (Ok info', []) \<and>
    (\<Sum>(_, s) \<leftarrow> Infos (scheduleSpec info' 7). DesiredReplicas_of s) = (\<Sum>(_, r) \<leftarrow> two_regions. configReplicas r)"
    using failover_keeps_total [OF f, of lost_b "[]" 7] t by (simp add: lost_b_def) blast
  then show ?thesis using s by simp
qed

end
