(* ===== verification/Revision.thy ===== *)
theory Revision
  imports Status
begin

text \<open>
  \<open>extendeddeployment/revision.go\<close> and \<open>rollback.go\<close>: the history of specifications as
  ControllerRevisions, and rolling back to one of them, with the helpers of
  \<open>pkg/utils/deployment_util.go\<close> they use. Sorting revisions is the \<open>byRevision\<close> order of the
  controller history library.
\<close>

section \<open>Helpers\<close>

definition byRevision_Less :: "controller_revision \<Rightarrow> controller_revision \<Rightarrow> bool" where
  "byRevision_Less a b =
     (if Revision a = Revision b
      then (if CreationTimestamp b = CreationTimestamp a then Name a < Name b
            else CreationTimestamp a < CreationTimestamp b)
      else Revision a < Revision b)"

interpretation by_revision: less_order byRevision_Less
  by unfold_locales (auto simp: byRevision_Less_def split: if_splits)

definition SortControllerRevisions :: "controller_revision list \<Rightarrow> controller_revision list" where
  "SortControllerRevisions = sort_by byRevision_Less"

definition selector_equal :: "label_selector option \<Rightarrow> label_selector option \<Rightarrow> bool" where
  "selector_equal a b = (case (a, b) of
     (None, None) \<Rightarrow> True
   | (Some s, Some t) \<Rightarrow> same_map (MatchLabels s) (MatchLabels t) \<and> MatchExpressions s = MatchExpressions t
   | _ \<Rightarrow> False)"

definition EqualIgnoreHash :: "ed_spec \<Rightarrow> ed_spec \<Rightarrow> bool" where
  "EqualIgnoreHash a b \<longleftrightarrow>
     template_equal (unhashed (Template a)) (unhashed (Template b)) \<and>
     selector_equal (Selector a) (Selector b) \<and>
     HistoryLimit a = HistoryLimit b \<and> SubsetType a = SubsetType b \<and> Strategy a = Strategy b \<and>
     Replicas a = Replicas b \<and> Regions a = Regions b \<and> Overriders a = Overriders b"

definition Revision_of :: "string gomap \<Rightarrow> string" where
  "Revision_of anno = mget_str anno AnnotationRevision"

definition SetFromReplicaSetTemplate :: "extended_deployment \<Rightarrow> ed_spec \<Rightarrow> extended_deployment" where
  "SetFromReplicaSetTemplate deployment spec =
     deployment\<lparr>Spec := spec\<lparr>Template := (Template spec)\<lparr>TemplateLabels :=
       CloneAndRemoveLabel (TemplateLabels (Template spec)) PodTemplateHashLabel\<rparr>\<rparr>\<rparr>"

definition getSkippedAnnotations :: "string gomap \<Rightarrow> string gomap" where
  "getSkippedAnnotations annotations = filter (\<lambda>(k, v). skipCopyAnnotation k) annotations"

definition SetDeploymentAnnotationsTo ::
    "extended_deployment \<Rightarrow> controller_revision \<Rightarrow> extended_deployment" where
  "SetDeploymentAnnotationsTo deployment rollbackToRev =
     deployment\<lparr>Annotations :=
       fold (\<lambda>(k, v) m. if \<not> skipCopyAnnotation k then mset_key k v m else m)
         (Annotations rollbackToRev) (getSkippedAnnotations (Annotations deployment))\<rparr>"

section \<open>Revisions\<close>

definition setRollbackTo :: "extended_deployment \<Rightarrow> int option \<Rightarrow> extended_deployment" where
  "setRollbackTo d rollbackTo = (case rollbackTo of
     None \<Rightarrow> d\<lparr>Annotations := mdel AnnotationRollbackTo (Annotations d)\<rparr>
   | Some rv \<Rightarrow> d\<lparr>Annotations := mset_key AnnotationRollbackTo (Itoa rv) (Annotations d)\<rparr>)"

definition newRevision :: "ext \<Rightarrow> extended_deployment \<Rightarrow> int \<Rightarrow> int \<Rightarrow> controller_revision action" where
  "newRevision X d revision collisionCount =
     bind_io (deref (Selector (Spec d))) (\<lambda>sel.
     bind_io (of_sum (NewControllerRevision X d (MatchLabels sel) (marshalSpec X (Spec d)) revision
       collisionCount)) (\<lambda>cr.
     ret (cr\<lparr>Annotations := fold (\<lambda>(k, v) m. mset_key k v m) (Annotations d) (Annotations cr)\<rparr>)))"

definition nextRevision :: "controller_revision list \<Rightarrow> int" where
  "nextRevision revisions = (if revisions = [] then 1 else i64 (Revision (last revisions) + 1))"

definition listRevisions :: "ctl \<Rightarrow> extended_deployment \<Rightarrow> controller_revision list action" where
  "listRevisions C d =
     bind_io (of_sum (LabelSelectorAsSelector (Ext C) (Selector (Spec d)))) (\<lambda>sel.
     let k = (Namespace d, SelString sel)
     in call (ListRevisions k) (\<lambda>h. ansListRevisions (Srv C) h k))"

definition updateDeploymentAndClearRollbackTo :: "ctl \<Rightarrow> extended_deployment \<Rightarrow> unit action" where
  "updateDeploymentAndClearRollbackTo C d = updateED (Srv C) (setRollbackTo d None)"

fun deleteRevisions :: "ctl \<Rightarrow> controller_revision list \<Rightarrow> unit action" where
  "deleteRevisions C [] = ret ()"
| "deleteRevisions C (r # rs) =
     bind_io (call (DeleteRevision r) (\<lambda>h. ansDeleteRevision (Srv C) h r)) (\<lambda>_. deleteRevisions C rs)"

text \<open>The slice bound \<open>len(his)-historyLimit-1\<close> is past the end for a limit below -1.\<close>

definition truncateHistory ::
    "ctl \<Rightarrow> extended_deployment \<Rightarrow> controller_revision list \<Rightarrow> unit action" where
  "truncateHistory C deploy revisions =
     (let historyLimit = HistoryLimit (Spec deploy); n = int (length revisions)
      in if n \<le> historyLimit then ret ()
         else if historyLimit < -1 then panic (Msg ''slice bounds out of range'')
         else deleteRevisions C (take (nat (n - historyLimit - 1)) (SortControllerRevisions revisions)))"

definition withRevision :: "extended_deployment \<Rightarrow> controller_revision \<Rightarrow> extended_deployment" where
  "withRevision d rv = d\<lparr>Annotations := mdel AnnotationUpgradeConfirm
     (mset_key AnnotationRevision (Itoa (Revision rv)) (Annotations d))\<rparr>"

text \<open>
  \<open>syncRevisions\<close>: whether the history was changed. The last equal revision is compared with the
  last revision by address; both come from the same slice, so they are the same exactly when the
  last revision is an equal one.
\<close>

definition syncRevisions :: "ctl \<Rightarrow> extended_deployment \<Rightarrow> bool action" where
  "syncRevisions C d =
     bind_io (listRevisions C d) (\<lambda>listed.
     let revisions = SortControllerRevisions listed;
         collisionCount = (case CollisionCount (Status d) of None \<Rightarrow> 0 | Some n \<Rightarrow> n)
     in bind_io (newRevision (Ext C) d (nextRevision revisions) collisionCount) (\<lambda>updateRv.
        let rvs = filter (\<lambda>r. EqualRevision (Ext C) r updateRv) revisions
        in if rvs \<noteq> []
           then
             (if EqualRevision (Ext C) (last revisions) updateRv then ret False
              else bind_io (call (UpdateRevision (last rvs) (Revision updateRv))
                  (\<lambda>h. ansUpdateRevision (Srv C) h (last rvs) (Revision updateRv))) (\<lambda>rv.
                bind_io (updateAnnotations (Srv C) (withRevision d rv)) (\<lambda>_. ret True)))
           else
             bind_io (call (CreateRevision updateRv)
                (\<lambda>h. ansCreateRevision (Srv C) h updateRv collisionCount)) (\<lambda>(rv, cc).
             let d = withRevision d rv
             in bind_io (if (case CollisionCount (Status d) of None \<Rightarrow> cc > 0 | Some n \<Rightarrow> n \<noteq> cc)
                  then updateED (Srv C) (d\<lparr>Status := (Status d)\<lparr>CollisionCount := Some cc\<rparr>\<rparr>)
                  else updateAnnotations (Srv C) d) (\<lambda>_.
                bind_io (truncateHistory C d (revisions @ [rv])) (\<lambda>_. ret True)))))"

section \<open>Rollback\<close>

definition getSpecByRevision :: "ext \<Rightarrow> controller_revision \<Rightarrow> err + ed_spec" where
  "getSpecByRevision X r = unmarshalSpec X (DataRaw r)"

definition rollbackToRevision :: "ctl \<Rightarrow> extended_deployment \<Rightarrow> controller_revision \<Rightarrow> unit action" where
  "rollbackToRevision C d rv =
     bind_io (of_sum (getSpecByRevision (Ext C) rv)) (\<lambda>spec.
     if \<not> EqualIgnoreHash (Spec d) spec
     then bind_io (updateDeploymentAndClearRollbackTo C
         (SetDeploymentAnnotationsTo (SetFromReplicaSetTemplate d spec) rv)) (\<lambda>_.
       emit (Event ''DeploymentRollback''))
     else emit (Event ''DeploymentRollbackTemplateUnchanged''))"

definition rollbackTo :: "ctl \<Rightarrow> int \<Rightarrow> extended_deployment \<Rightarrow> unit action" where
  "rollbackTo C revision deploy =
     bind_io (listRevisions C deploy) (\<lambda>listed.
     let revisions = SortControllerRevisions listed;
         giveUp = bind_io (emit (Event ''DeploymentRollbackRevisionNotFound'')) (\<lambda>_.
           updateDeploymentAndClearRollbackTo C deploy)
     in if revision = 0
        then (if length revisions < 2 then giveUp
              else rollbackToRevision C deploy (revisions ! (length revisions - 2)))
        else (case find (\<lambda>r. Revision r = revision) (rev revisions) of
           None \<Rightarrow> giveUp
         | Some r \<Rightarrow> rollbackToRevision C deploy r))"

definition checkRollback :: "ctl \<Rightarrow> extended_deployment \<Rightarrow> bool action" where
  "checkRollback C deploy = (case mget (Annotations deploy) AnnotationRollbackTo of
     None \<Rightarrow> ret False
   | Some raw \<Rightarrow>
       (let revision = TrimSpace raw
        in if revision = [] then bind_io (rollbackTo C 0 deploy) (\<lambda>_. ret True)
           else (case ParseInt_sum revision 64 of
              Inl _ \<Rightarrow> bind_io (emit (Event ''DeploymentRollbackRevisionNotFound'')) (\<lambda>_.
                bind_io (updateDeploymentAndClearRollbackTo C deploy) (\<lambda>_. ret True))
            | Inr v \<Rightarrow> bind_io (rollbackTo C v deploy) (\<lambda>_. ret True))))"

section \<open>Revision numbers\<close>

lemma sorted_last_max:
  assumes "r \<in> set (SortControllerRevisions rs)"
  shows "Revision r \<le> Revision (last (SortControllerRevisions rs))"
proof -
  let ?s = "SortControllerRevisions rs"
  have ne: "?s \<noteq> []" using assms by auto
  have "sorted_wrt (\<lambda>a b. \<not> byRevision_Less b a) (butlast ?s @ [last ?s])"
    using by_revision.sorted_sort [of rs] ne by (simp add: SortControllerRevisions_def)
  then have "\<forall>x \<in> set (butlast ?s). \<not> byRevision_Less (last ?s) x"
    by (simp add: sorted_wrt_append)
  moreover have "r = last ?s \<or> r \<in> set (butlast ?s)"
    using assms ne by (metis append_butlast_last_id UnE set_append set_ConsD empty_iff empty_set)
  ultimately show ?thesis by (auto simp: byRevision_Less_def split: if_splits)
qed

text \<open>
  The number of a new revision is greater than that of every revision of the history, in
  whatever order the history was listed.
\<close>

theorem next_revision_is_fresh:
  assumes "r \<in> set listed" and "\<forall>r \<in> set listed. 0 \<le> Revision r \<and> Revision r < MaxInt64"
  shows "Revision r < nextRevision (SortControllerRevisions listed)"
proof -
  let ?s = "SortControllerRevisions listed"
  have mem: "r \<in> set ?s" using assms(1) by (simp add: SortControllerRevisions_def)
  then have "last ?s \<in> set listed" by (metis SortControllerRevisions_def last_in_set list.set_cases neq_Nil_conv set_sort_by)
  with assms(2) have "i64 (Revision (last ?s) + 1) = Revision (last ?s) + 1"
    by (intro i64_id) (auto simp: is_i64_def MaxInt64_def)
  with mem sorted_last_max [OF mem] show ?thesis by (auto simp: nextRevision_def)
qed

definition rev_no :: "int \<Rightarrow> string \<Rightarrow> controller_revision" where
  "rev_no n raw = \<lparr>Name = ''rev'' @ Itoa n, Namespace = [], UID = [], CreationTimestamp = n,
     DeletionTimestamp = None, Generation = 0, Labels = [], Annotations = [], OwnerReferences = [],
     Revision = n, DataRaw = raw\<rparr>"

lemma rev_no_fields [simp]: "Revision (rev_no n raw) = n" "DataRaw (rev_no n raw) = raw"
  "Annotations (rev_no n raw) = []"
  by (simp_all add: rev_no_def)

theorem next_revision_is_fresh_witness:
  "Revision (rev_no 5 ''a'') < nextRevision (SortControllerRevisions [rev_no 5 ''a'', rev_no 2 ''b''])"
  by (rule next_revision_is_fresh) (auto simp: MaxInt64_def)

lemma deleteRevisions_Ok:
  "deleteRevisions C rs h = (Ok (), h') \<Longrightarrow> h' = h @ map DeleteRevision rs"
  by (induction rs arbitrary: h) (fastforce elim!: bind_OkE)+

text \<open>
  Truncating the history deletes the revisions with the lowest numbers and keeps one more than
  the history limit: a history longer than the limit always ends with \<open>HistoryLimit + 1\<close> revisions.
\<close>

theorem truncateHistory_keeps_one_more:
  assumes "truncateHistory C d revisions h = (Ok (), h')" and "0 \<le> HistoryLimit (Spec d)"
    and "HistoryLimit (Spec d) < int (length revisions)"
  shows "\<exists>gone kept. SortControllerRevisions revisions = gone @ kept \<and>
     h' = h @ map DeleteRevision gone \<and> int (length kept) = HistoryLimit (Spec d) + 1"
proof -
  let ?n = "nat (int (length revisions) - HistoryLimit (Spec d) - 1)"
  let ?s = "SortControllerRevisions revisions"
  have "h' = h @ map DeleteRevision (take ?n ?s)"
    using assms by (auto simp: truncateHistory_def Let_def dest!: deleteRevisions_Ok)
  moreover have "int (length (drop ?n ?s)) = HistoryLimit (Spec d) + 1"
    using assms(2,3) by (simp add: SortControllerRevisions_def)
  ultimately show ?thesis by (metis append_take_drop_id)
qed

theorem truncateHistory_keeps_one_more_witness:
  "\<exists>gone kept. SortControllerRevisions [rev_no 1 [], rev_no 2 [], rev_no 3 []] = gone @ kept \<and>
     [DeleteRevision (rev_no 1 [])] = [] @ map DeleteRevision gone \<and>
     int (length kept) = HistoryLimit (Spec (zero_ED\<lparr>Spec := zero_ed_spec\<lparr>HistoryLimit := 1\<rparr>\<rparr>)) + 1"
proof (rule truncateHistory_keeps_one_more)
  show "truncateHistory sample_ctl (zero_ED\<lparr>Spec := zero_ed_spec\<lparr>HistoryLimit := 1\<rparr>\<rparr>)
      [rev_no 1 [], rev_no 2 [], rev_no 3 []] [] = (Ok (), [DeleteRevision (rev_no 1 [])])"
    by (simp add: truncateHistory_def SortControllerRevisions_def byRevision_Less_def sample_ctl_def
        sample_server_def Let_def io_defs)
qed simp_all

section \<open>Rolling back\<close>

lemma fold_skip_annotations:
  "skipCopyAnnotation k \<Longrightarrow>
     mget (fold (\<lambda>(k, v) m. if \<not> skipCopyAnnotation k then mset_key k v m else m) kvs m) k = mget m k"
  by (induction kvs arbitrary: m) auto

lemma mget_skipped: "skipCopyAnnotation k \<Longrightarrow> mget (getSkippedAnnotations m) k = mget m k"
  by (induction m) (auto simp: getSkippedAnnotations_def)



end
