(* ===== verification/Grouping.thy ===== *)
theory Grouping
  imports Rollout
begin

text \<open>
  What \<open>groupSubset\<close> establishes: every listed subset stands in exactly one place, and the flags
  of a region say what their comments promise.
\<close>

definition region_subsets :: "region_info \<Rightarrow> subset list" where
  "region_subsets ri = (case New ri of None \<Rightarrow> [] | Some ss \<Rightarrow> [ss]) @ Olds ri"

definition grouped :: "subset_control \<Rightarrow> subset multiset" where
  "grouped m = mset (unusedSubsets m) + (\<Sum>p \<leftarrow> regionInfoMap m. mset (region_subsets (snd p)))"

definition placed :: "subset_control \<Rightarrow> bool" where
  "placed m \<longleftrightarrow> (\<forall>p \<in> set (regionInfoMap m). \<forall>ss \<in> set (region_subsets (snd p)).
       getSubsetRegionName ss = fst p) \<and>
     (\<forall>ss \<in> set (unusedSubsets m). getSubsetRegionName ss \<notin> fst ` set (regionInfoMap m))"

section \<open>Replacing one region\<close>

lemma sum_update_present:
  fixes f :: "'v \<Rightarrow> 'b :: comm_monoid_add"
  assumes "map_of ps k = Some v"
  shows "(\<Sum>p \<leftarrow> AList.update k v' ps. f (snd p)) + f v = (\<Sum>p \<leftarrow> ps. f (snd p)) + f v'"
  using assms by (induction ps) (auto simp: ac_simps split: if_splits)

lemma set_update_subset: "p \<in> set (AList.update k v ps) \<Longrightarrow> p = (k, v) \<or> p \<in> set ps"
  by (induction ps) (auto split: if_splits)

lemma grouped_put:
  assumes "mget (regionInfoMap m) n = Some ri"
  shows "grouped (put_region n ri' m) + mset (region_subsets ri) = grouped m + mset (region_subsets ri')"
  using sum_update_present [OF assms, of "\<lambda>ri. mset (region_subsets ri)" ri']
  by (simp add: grouped_def put_region_def mset_key_def add.assoc)

lemma keys_put [simp]:
  "mget (regionInfoMap m) n = Some ri \<Longrightarrow>
     map fst (regionInfoMap (put_region n ri' m)) = map fst (regionInfoMap m)"
  by (auto simp: put_region_def intro!: keys_set_present dest: map_of_SomeD)
    (metis fst_conv image_eqI map_of_SomeD)

lemma unused_put [simp]: "unusedSubsets (put_region n ri m) = unusedSubsets m"
  by (simp add: put_region_def)

section \<open>Assigning subsets\<close>

lemma quiet_template_equal:
  "subsetTemplateEqualExtendedDeployment C m ss cd h = (Ok b, h') \<Longrightarrow> h' = h"
  by (auto simp: subsetTemplateEqualExtendedDeployment_def regionTemplate_def Let_def
      elim!: bind_OkE split: option.splits)

lemma assignSubset_cases:
  assumes "assignSubset C cd ss m h = (Ok m', h')"
  shows "h' = h \<and>
    (mget (regionInfoMap m) (getSubsetRegionName ss) = None \<and>
       m' = m\<lparr>unusedSubsets := unusedSubsets m @ [ss]\<rparr> \<or>
     (\<exists>ri. mget (regionInfoMap m) (getSubsetRegionName ss) = Some ri \<and>
       (m' = put_region (getSubsetRegionName ss) (ri\<lparr>Olds := Olds ri @ [ss]\<rparr>) m \<or>
        New ri = None \<and> m' = put_region (getSubsetRegionName ss) (ri\<lparr>New := Some ss\<rparr>) m)))"
  using assms
  by (auto simp: assignSubset_def Let_def elim!: bind_OkE dest: quiet_template_equal
      split: option.splits if_splits)

lemma assignSubset_grouped:
  assumes "assignSubset C cd ss m h = (Ok m', h')"
  shows "grouped m' = add_mset ss (grouped m)"
proof -
  let ?n = "getSubsetRegionName ss"
  consider (unused) "m' = m\<lparr>unusedSubsets := unusedSubsets m @ [ss]\<rparr>"
    | (old) ri where "mget (regionInfoMap m) ?n = Some ri"
        "m' = put_region ?n (ri\<lparr>Olds := Olds ri @ [ss]\<rparr>) m"
    | (new) ri where "mget (regionInfoMap m) ?n = Some ri" "New ri = None"
        "m' = put_region ?n (ri\<lparr>New := Some ss\<rparr>) m"
    using assignSubset_cases [OF assms] by blast
  then show ?thesis
  proof cases
    case unused
    then show ?thesis by (simp add: grouped_def)
  next
    case old
    with grouped_put [OF old(1), of "ri\<lparr>Olds := Olds ri @ [ss]\<rparr>"] show ?thesis
      by (simp add: region_subsets_def)
  next
    case new
    with grouped_put [OF new(1), of "ri\<lparr>New := Some ss\<rparr>"] show ?thesis
      by (simp add: region_subsets_def)
  qed
qed

lemma assignSubset_keys:
  "assignSubset C cd ss m h = (Ok m', h') \<Longrightarrow> map fst (regionInfoMap m') = map fst (regionInfoMap m)"
  using assignSubset_cases by fastforce

lemma assignSubset_placed:
  assumes "assignSubset C cd ss m h = (Ok m', h')" and "placed m"
  shows "placed m'"
proof -
  let ?n = "getSubsetRegionName ss"
  have put: "placed (put_region ?n ri' m)"
    if "mget (regionInfoMap m) ?n = Some ri" and "set (region_subsets ri') \<subseteq> insert ss (set (region_subsets ri))"
    for ri ri'
  proof -
    have keys: "fst ` set (regionInfoMap (put_region ?n ri' m)) = fst ` set (regionInfoMap m)"
      using keys_put [OF that(1), of ri'] by (metis set_map)
    have mem: "(?n, ri) \<in> set (regionInfoMap m)" using that(1) by (rule map_of_SomeD)
    have "getSubsetRegionName s = fst p"
      if p: "p \<in> set (regionInfoMap (put_region ?n ri' m))" and s: "s \<in> set (region_subsets (snd p))" for p s
    proof (cases "p = (?n, ri')")
      case True
      with s \<open>set (region_subsets ri') \<subseteq> _\<close> have "s = ss \<or> s \<in> set (region_subsets ri)" by auto
      with True mem assms(2) show ?thesis by (fastforce simp: placed_def)
    next
      case False
      with p have "p \<in> set (regionInfoMap m)"
        by (auto simp: put_region_def mset_key_def dest: set_update_subset)
      with s assms(2) show ?thesis by (auto simp: placed_def)
    qed
    with assms(2) keys show ?thesis by (auto simp: placed_def)
  qed
  have "region_subsets (ri\<lparr>Olds := Olds ri @ [ss]\<rparr>) = region_subsets ri @ [ss]" for ri
    by (simp add: region_subsets_def)
  moreover have "New ri = None \<Longrightarrow> region_subsets (ri\<lparr>New := Some ss\<rparr>) = ss # region_subsets ri" for ri
    by (simp add: region_subsets_def)
  moreover have "placed (m\<lparr>unusedSubsets := unusedSubsets m @ [ss]\<rparr>)"
    if "mget (regionInfoMap m) ?n = None"
    using that assms(2) by (auto simp: placed_def map_of_eq_None_iff)
  ultimately show ?thesis
    using assignSubset_cases [OF assms(1)] put by (elim conjE disjE exE) (auto intro!: put)
qed

lemma assign_all:
  assumes "for_io (assignSubset C cd) xs m h = (Ok m', h')"
  shows "grouped m' = mset xs + grouped m \<and> map fst (regionInfoMap m') = map fst (regionInfoMap m) \<and>
     (placed m \<longrightarrow> placed m') \<and> h' = h"
  using assms
proof (induction xs arbitrary: m h)
  case (Cons ss xs)
  then obtain m1 h1 where 1: "assignSubset C cd ss m h = (Ok m1, h1)"
    and 2: "for_io (assignSubset C cd) xs m1 h1 = (Ok m', h')" by (auto elim!: bind_OkE)
  from assignSubset_cases [OF 1] have "h1 = h" by blast
  with Cons.IH [OF 2] assignSubset_grouped [OF 1] assignSubset_keys [OF 1] assignSubset_placed [OF 1]
  show ?case by auto
qed simp

section \<open>Building the region map\<close>

text \<open>A region before any subset is assigned: flags down and no subsets.\<close>

definition bare_region :: "region_info \<Rightarrow> bool" where
  "bare_region ri \<longleftrightarrow> New ri = None \<and> Olds ri = [] \<and> \<not> ReplicasDesired ri \<and> \<not> AvailableDesired ri"

lemma buildRegionInfo_Ok:
  assumes "buildRegionInfo cd rm h = (Ok mp, h')"
  shows "h' = h \<and> (\<forall>p \<in> set mp. bare_region (snd p)) \<and> fst ` set mp = RegionName ` set (Regions (Spec cd))"
proof -
  let ?f = "\<lambda>region mp.
       bind_io (deref (Replicas (Spec cd))) (\<lambda>totalReplicas.
       bind_io (deref (RegionReplicas region)) (\<lambda>rr.
       bind_io (of_sum (ParseRegionReplicas totalReplicas rr)) (\<lambda>replicas.
       ret (mset_key (RegionName region) (zero_region_info\<lparr>ConfiguredReplicas := replicas,
         DesiredReplicas := replicas, Region := mget rm (RegionName region)\<rparr>) mp)))) :: region_info gomap action"
  have "for_io ?f rs mp0 h = (Ok mp, h') \<Longrightarrow> \<forall>p \<in> set mp0. bare_region (snd p) \<Longrightarrow>
      h' = h \<and> (\<forall>p \<in> set mp. bare_region (snd p)) \<and>
      fst ` set mp = fst ` set mp0 \<union> RegionName ` set rs" for rs mp0
  proof (induction rs arbitrary: mp0)
    case (Cons r rs)
    from Cons.prems(1) obtain n where
      "for_io ?f rs (mset_key (RegionName r) (zero_region_info\<lparr>ConfiguredReplicas := n,
         DesiredReplicas := n, Region := mget rm (RegionName r)\<rparr>) mp0) h = (Ok mp, h')"
      by (auto elim!: bind_OkE)
    moreover have "\<forall>p \<in> set (mset_key (RegionName r) (zero_region_info\<lparr>ConfiguredReplicas := n,
         DesiredReplicas := n, Region := mget rm (RegionName r)\<rparr>) mp0). bare_region (snd p)"
      using Cons.prems(2)
      by (auto simp: mset_key_def bare_region_def zero_values dest!: set_update_subset)
    moreover have "fst ` set (mset_key (RegionName r) v mp0) = insert (RegionName r) (fst ` set mp0)"
      for v :: region_info
      using keys_set [of "RegionName r" v mp0] by simp
    ultimately show ?case using Cons.IH by auto
  qed simp
  from this [of "Regions (Spec cd)" "[]"] assms show ?thesis by (simp add: buildRegionInfo_def)
qed

section \<open>Grouping\<close>

lemma regionState_subsets [simp]: "region_subsets (regionState X ri) = region_subsets ri"
  by (auto simp: regionState_def region_subsets_def Let_def split: option.splits prod.splits bool.splits)

lemma reschedRegion_simps [simp]:
  "fst (reschedRegion sp p) = fst p" "region_subsets (snd (reschedRegion sp p)) = region_subsets (snd p)"
  by (auto simp: reschedRegion_def region_subsets_def split: option.splits)

lemma groupSubset_Ok:
  assumes "groupSubset C cd rm m h = (Ok m', h')"
  shows "\<exists>mp m1 (f :: string \<times> region_info \<Rightarrow> string \<times> region_info). buildRegionInfo cd rm h = (Ok mp, h) \<and>
    for_io (assignSubset C cd) (allSubsets m) (m\<lparr>regionInfoMap := mp, unusedSubsets := []\<rparr>) h = (Ok m1, h) \<and>
    h' = h \<and> unusedSubsets m' = unusedSubsets m1 \<and>
    (\<forall>p. New (snd (f p)) = New (snd p) \<and> Olds (snd (f p)) = Olds (snd p) \<and>
       ReplicasDesired (snd (f p)) = ReplicasDesired (snd p)) \<and>
    regionInfoMap m' = map (\<lambda>p. (fst p, regionState (Ext C) (snd (f p)))) (regionInfoMap m1)"
proof -
  from assms obtain mp h1 m1 h2 spec where
    1: "buildRegionInfo cd rm h = (Ok mp, h1)" and
    2: "for_io (assignSubset C cd) (allSubsets m) (m\<lparr>regionInfoMap := mp, unusedSubsets := []\<rparr>) h1 = (Ok m1, h2)" and
    3: "h' = h2" "m' = (let m = (case spec of
           None \<Rightarrow> m1
         | Some sp \<Rightarrow> m1\<lparr>autoScheduleSpec := Some sp,
             regionInfoMap := map (reschedRegion sp) (regionInfoMap m1)\<rparr>)
     in m\<lparr>regionInfoMap := map (\<lambda>(n, ri). (n, regionState (Ext C) ri)) (regionInfoMap m)\<rparr>)"
    by (auto simp: groupSubset_def Let_def elim!: bind_OkE)
  have h: "h1 = h" "h2 = h" using buildRegionInfo_Ok [OF 1] assign_all [OF 2] by simp_all
  define f where "f = (case spec of None \<Rightarrow> id | Some sp \<Rightarrow> reschedRegion sp)"
  have f: "\<forall>p. New (snd (f p)) = New (snd p) \<and> Olds (snd (f p)) = Olds (snd p) \<and>
       ReplicasDesired (snd (f p)) = ReplicasDesired (snd p)"
    by (auto simp: f_def reschedRegion_def split: option.splits)
  have rim: "regionInfoMap m' = map (\<lambda>p. (fst p, regionState (Ext C) (snd (f p)))) (regionInfoMap m1)"
    using 3 by (auto simp: f_def reschedRegion_def split: option.splits prod.splits)
  have unused: "unusedSubsets m' = unusedSubsets m1" using 3 by (simp split: option.splits)
  from 1 2 h 3(1) f rim unused show ?thesis by blast
qed

lemma grouping_keys:
  assumes "groupSubset C cd rm m h = (Ok m', h')"
  shows "fst ` set (regionInfoMap m') = RegionName ` set (Regions (Spec cd))"
proof -
  from groupSubset_Ok [OF assms] obtain mp m1
    and f :: "string \<times> region_info \<Rightarrow> string \<times> region_info" where
    1: "buildRegionInfo cd rm h = (Ok mp, h)" and
    2: "for_io (assignSubset C cd) (allSubsets m) (m\<lparr>regionInfoMap := mp, unusedSubsets := []\<rparr>) h = (Ok m1, h)" and
    rim: "regionInfoMap m' = map (\<lambda>p. (fst p, regionState (Ext C) (snd (f p)))) (regionInfoMap m1)"
    by blast
  have "fst ` set (regionInfoMap m') = fst ` set (regionInfoMap m1)"
    by (simp add: rim image_image)
  also have "\<dots> = set (map fst (regionInfoMap m1))" by simp
  also have "\<dots> = set (map fst mp)" using assign_all [OF 2] by simp
  finally show ?thesis using buildRegionInfo_Ok [OF 1] by simp
qed

text \<open>
  C1: grouping is a partition. Every listed subset ends up exactly once: in the region it is
  annotated with, as the new subset or among the old ones, or, when that region is not in the
  specification, among the unused ones; the regions are those of the specification. Nothing is
  sent to the API server.
\<close>

theorem grouping_partitions_subsets:
  assumes "groupSubset C cd rm m h = (Ok m', h')"
  shows "h' = h \<and> grouped m' = mset (allSubsets m) \<and> placed m' \<and>
     fst ` set (regionInfoMap m') = RegionName ` set (Regions (Spec cd))"
proof -
  from groupSubset_Ok [OF assms] obtain mp m1
    and f :: "string \<times> region_info \<Rightarrow> string \<times> region_info" where
    1: "buildRegionInfo cd rm h = (Ok mp, h)" and
    2: "for_io (assignSubset C cd) (allSubsets m) (m\<lparr>regionInfoMap := mp, unusedSubsets := []\<rparr>) h = (Ok m1, h)" and
    3: "h' = h" "unusedSubsets m' = unusedSubsets m1" and
    f: "\<And>p. New (snd (f p)) = New (snd p) \<and> Olds (snd (f p)) = Olds (snd p) \<and>
       ReplicasDesired (snd (f p)) = ReplicasDesired (snd p)" and
    rim: "regionInfoMap m' = map (\<lambda>p. (fst p, regionState (Ext C) (snd (f p)))) (regionInfoMap m1)"
    by blast
  let ?m0 = "m\<lparr>regionInfoMap := mp, unusedSubsets := []\<rparr>"
  have subs: "region_subsets (snd (f p)) = region_subsets (snd p)" for p
    using f [of p] by (simp add: region_subsets_def)
  from buildRegionInfo_Ok [OF 1] have bare: "\<forall>p \<in> set mp. region_subsets (snd p) = []"
    and keys: "fst ` set mp = RegionName ` set (Regions (Spec cd))"
    by (auto simp: bare_region_def region_subsets_def)
  then have "(\<Sum>p \<leftarrow> mp. mset (region_subsets (snd p))) = {#}"
    by (intro sum_list_0 [THEN [2] trans]) (simp add: map_eq_conv cong: map_cong)
  then have "grouped ?m0 = {#}" by (simp add: grouped_def)
  moreover have "placed ?m0" using bare by (simp add: placed_def)
  moreover note assign_all [OF 2]
  ultimately have m1: "grouped m1 = mset (allSubsets m)" "placed m1"
    "map fst (regionInfoMap m1) = map fst mp" by simp_all
  have "grouped m' = grouped m1"
    by (simp add: grouped_def rim 3 comp_def subs)
  moreover have "fst ` set (regionInfoMap m') = fst ` set (regionInfoMap m1)"
    by (simp add: rim image_image)
  moreover from this m1(2) have "placed m'"
    by (auto simp: placed_def rim 3 subs)
  moreover have "fst ` set (regionInfoMap m1) = fst ` set mp"
    using m1(3) by (metis set_map)
  ultimately show ?thesis using m1 3 keys by simp
qed

section \<open>The flags of a region\<close>

definition flags_down :: "subset_control \<Rightarrow> bool" where
  "flags_down m \<longleftrightarrow> (\<forall>p \<in> set (regionInfoMap m). \<not> ReplicasDesired (snd p))"

lemma flags_put:
  "flags_down m \<Longrightarrow> \<not> ReplicasDesired ri \<Longrightarrow> flags_down (put_region n ri m)"
  by (auto simp: flags_down_def put_region_def mset_key_def dest!: set_update_subset)

lemma assign_all_flags:
  assumes "for_io (assignSubset C cd) xs m h = (Ok m', h')" and "flags_down m"
  shows "flags_down m'"
proof (rule for_io_inv [OF assms(1), where I = "\<lambda>m _. flags_down m"])
  fix ss m h m' h' assume fd: "flags_down m" and "assignSubset C cd ss m h = (Ok m', h')"
  from assignSubset_cases [OF this(2)] fd show "flags_down m'"
    by (auto intro!: flags_put dest!: map_of_SomeD) (auto simp: flags_down_def)
qed (rule assms(2))

text \<open>What a region that counts as saturated has reached.\<close>

definition rolled_out :: "ext \<Rightarrow> region_info \<Rightarrow> bool" where
  "rolled_out X ri \<longleftrightarrow> (\<exists>new. New ri = Some new \<and>
     (case GetInplaceSetUpdateSpec X (Annotations new) of
        (Some spec, True, _) \<Rightarrow> i32 (UpdatePodNum spec) = DesiredReplicas ri \<and>
          (\<exists>st. StatusInplace new = Some st \<and> SubIUSPodTemplateHash st = PodTemplateHash spec \<and>
             SubIUSAvailable st \<ge> DesiredReplicas ri)
      | _ \<Rightarrow> SpecReplicas new = DesiredReplicas ri \<and> StatusAvailable new \<ge> DesiredReplicas ri))"

lemma regionState_rolled_out:
  assumes "\<not> ReplicasDesired ri" and "ReplicasDesired (regionState X ri)"
    and "AvailableDesired (regionState X ri)"
  shows "rolled_out X (regionState X ri)"
  using assms
  by (auto simp: regionState_def rolled_out_def Let_def
      split: option.splits prod.splits bool.splits if_splits)

lemma saturated_region_is_rolled_out:
  assumes "groupSubset C cd rm m h = (Ok m', h')" and "p \<in> set (regionInfoMap m')"
    and "ReplicasDesired (snd p)" and "AvailableDesired (snd p)"
  shows "rolled_out (Ext C) (snd p)"
proof -
  from groupSubset_Ok [OF assms(1)] obtain mp m1
    and f :: "string \<times> region_info \<Rightarrow> string \<times> region_info" where
    1: "buildRegionInfo cd rm h = (Ok mp, h)" and
    2: "for_io (assignSubset C cd) (allSubsets m) (m\<lparr>regionInfoMap := mp, unusedSubsets := []\<rparr>) h = (Ok m1, h)" and
    f: "\<And>p. ReplicasDesired (snd (f p)) = ReplicasDesired (snd p)" and
    rim: "regionInfoMap m' = map (\<lambda>p. (fst p, regionState (Ext C) (snd (f p)))) (regionInfoMap m1)"
    by blast
  from buildRegionInfo_Ok [OF 1] have "flags_down (m\<lparr>regionInfoMap := mp, unusedSubsets := []\<rparr>)"
    by (auto simp: flags_down_def bare_region_def)
  from assign_all_flags [OF 2 this] have "flags_down m1" .
  moreover from assms(2) rim obtain q where "q \<in> set (regionInfoMap m1)"
    "snd p = regionState (Ext C) (snd (f q))" by auto
  ultimately show ?thesis
    using assms(3,4) f regionState_rolled_out by (auto simp: flags_down_def)
qed

text \<open>A sample: one region with its one replica running.\<close>

definition one_region_app :: extended_deployment where
  "one_region_app = zero_ED\<lparr>Name := ''app'', Spec := zero_ed_spec\<lparr>Replicas := Some 1,
     Regions := [\<lparr>RegionName = ''r1'', RegionReplicas = Some (IntVal 1)\<rparr>]\<rparr>\<rparr>"

definition running_one :: subset where
  "running_one = zero_subset\<lparr>Name := ''a'', SpecReplicas := 1, StatusAvailable := 1,
     Annotations := [(IpsAnnotationRegionName, ''r1''), (IpsAnnotationTemplateHash, [])]\<rparr>"

definition grouped_one :: subset_control where
  "grouped_one = \<lparr>regionInfoMap = [(''r1'', zero_region_info\<lparr>New := Some running_one,
       ReplicasDesired := True, AvailableDesired := True, DesiredReplicas := 1, ConfiguredReplicas := 1\<rparr>)],
     autoScheduleSpec = None, allSubsets = [running_one], unusedSubsets = []\<rparr>"

definition only_listed :: subset_control where
  "only_listed = \<lparr>regionInfoMap = [], autoScheduleSpec = None, allSubsets = [running_one], unusedSubsets = []\<rparr>"

lemma key_neqs [simp]:
  "IpsAnnotationTemplateHash \<noteq> IpsAnnotationRegionName" "IpsAnnotationRegionName \<noteq> IpsAnnotationTemplateHash"
  "IpsAnnotationInplacesetUpdateSpec \<noteq> IpsAnnotationRegionName"
  "IpsAnnotationInplacesetUpdateSpec \<noteq> IpsAnnotationTemplateHash"
  using annotation_keys_distinct by auto

lemma group_one: "groupSubset sample_ctl one_region_app [] only_listed [] = (Ok grouped_one, [])"
  by (simp add: groupSubset_def buildRegionInfo_def one_region_app_def only_listed_def grouped_one_def
      assignSubset_def getSubsetRegionName_def running_one_def mget_str_def put_region_def mset_key_def
      subsetTemplateEqualExtendedDeployment_def ApplyOverridePolicies_def sample_ctl_def sample_ext_def
      GetAutoScheduleSpec_def regionState_def GetInplaceSetUpdateSpec_def ParseRegionReplicas_def
      zero_values Let_def)

theorem grouping_partitions_subsets_witness:
  "groupSubset sample_ctl one_region_app [] only_listed [] = (Ok grouped_one, []) \<and>
   grouped grouped_one = mset (allSubsets only_listed) \<and> placed grouped_one \<and>
   fst ` set (regionInfoMap grouped_one) = RegionName ` set (Regions (Spec one_region_app))"
  using grouping_partitions_subsets [OF group_one] group_one by simp

end
