(* ===== verification/Manage.thy ===== *)
theory Manage
  imports Rollout
begin

text \<open>
  What one pass of \<open>ManageSubsets\<close> may delete. The old subsets of all regions stay within a fixed
  set of workloads through every operation, and only members of it, or unused subsets, are deleted.
\<close>

definition deletes_in :: "workload set \<Rightarrow> req \<Rightarrow> bool" where
  "deletes_in R q \<longleftrightarrow> (\<forall>w. q = DeleteSet w \<longrightarrow> w \<in> R)"

abbreviation refs_in :: "workload set \<Rightarrow> subset list \<Rightarrow> bool" where
  "refs_in R xs \<equiv> list_all (\<lambda>ss. SubsetRef ss \<in> R) xs"

definition olds_in :: "workload set \<Rightarrow> subset_control \<Rightarrow> bool" where
  "olds_in R m \<longleftrightarrow> (\<forall>p \<in> set (regionInfoMap m). refs_in R (Olds (snd p)))"

named_theorems emits_deletes \<open>what the operations of a rollout may delete\<close>

lemma deletes_in_simps [simp]:
  "deletes_in R (DeleteSet w) \<longleftrightarrow> w \<in> R" "deletes_in R (CreateSet v)" "deletes_in R (GetSet k)"
  "deletes_in R (UpdateSet v)" "deletes_in R (Event e)" "deletes_in R (ListPods p)"
  by (simp_all add: deletes_in_def)

lemma deletes_in_keeps: "keeps_sets q \<Longrightarrow> deletes_in R q"
  by (auto simp: deletes_in_def)

lemma olds_inD: "olds_in R m \<Longrightarrow> mget (regionInfoMap m) n = Some ri \<Longrightarrow> refs_in R (Olds ri)"
  by (force simp: olds_in_def dest!: map_of_SomeD)

lemma olds_in_put: "olds_in R m \<Longrightarrow> refs_in R (Olds ri) \<Longrightarrow> olds_in R (put_region n ri m)"
proof -
  have "p \<in> set (AList.update n ri ps) \<Longrightarrow> p = (n, ri) \<or> p \<in> set ps" for p and ps :: "region_info gomap"
    by (induction ps) (auto split: if_splits)
  then show "olds_in R m \<Longrightarrow> refs_in R (Olds ri) \<Longrightarrow> olds_in R (put_region n ri m)"
    by (fastforce simp: olds_in_def put_region_def mset_key_def)
qed

lemma emits_scale_deletes [emits_deletes]:
  "valid_ctl C \<Longrightarrow> emits (deletes_in R) (ScaleSubset C cd ss n)"
  "emits (deletes_in R) (UpdateSubsetAnnotations C ss b)"
  by (auto intro: emits_ScaleSubset emits_UpdateSubsetAnnotations deletes_in_keeps)

lemma emits_new_deletes [emits_deletes]: "valid_ctl C \<Longrightarrow> emits (deletes_in R) (NewSubset C cd ri n)"
  by (rule emits_NewSubset) (auto simp: deletes_in_def)

section \<open>Each operation\<close>

lemma emits_cleanupLoop:
  assumes "valid_ctl C" and "refs_in R xs"
  shows "emits (deletes_in R) (cleanupLoop C cd k xs t)"
  using assms(2)
proof (induction xs arbitrary: t)
  case Nil
  show ?case by (simp add: emits_ret)
next
  case (Cons ss sss)
  then have rec: "emits (deletes_in R) (cleanupLoop C cd k sss t)" for t by simp
  have del: "emits (deletes_in R) (DeleteSubset C cd ss)"
    using Cons.prems by (auto intro: emits_DeleteSubset)
  show ?case
    unfolding cleanupLoop.simps Let_def
    by (intro emits_intros emits_deletes rec del assms(1))
qed

lemma cleanupLoop_refs:
  assumes "cleanupLoop C cd k xs t h = (Ok (r, every, kept), h')" and "refs_in R xs"
  shows "refs_in R every \<and> refs_in R kept"
  using assms
  by (induction xs arbitrary: t h r every kept h')
    (auto simp: Let_def elim!: bind_OkE split: if_splits sum.splits)

lemma emits_cleanup [emits_deletes]:
  assumes "valid_ctl C" and "olds_in R m"
  shows "emits (deletes_in R) (cleanupUnhealthyReplicas C cd m n k)"
  unfolding cleanupUnhealthyReplicas_def
proof (rule emits_bind_ok [OF emits_deref])
  fix ri h h' assume "deref (mget (regionInfoMap m) n) h = (Ok ri, h')"
  then have "refs_in R (sort_by SubSetsByCreationTimestamp_Less (Olds ri))"
    using olds_inD [OF assms(2)] by (auto simp: list_all_iff)
  from emits_cleanupLoop [OF assms(1) this]
  show "emits (deletes_in R) (bind_io (cleanupLoop C cd k
      (sort_by SubSetsByCreationTimestamp_Less (Olds ri)) 0) (\<lambda>(r, every, kept).
     (case r of
        Inl e \<Rightarrow> ret (Inl e, every, put_region n (ri\<lparr>Olds := every\<rparr>) m)
      | Inr x \<Rightarrow> ret (Inr x, every, put_region n (ri\<lparr>Olds := kept\<rparr>) m))))"
    by (auto intro!: emits_intros)
qed

lemma cleanup_olds_in:
  assumes "cleanupUnhealthyReplicas C cd m n k h = (Ok (r, every, m'), h')" and "olds_in R m"
  shows "olds_in R m'"
proof -
  from assms(1) obtain ri r' every' kept h1 where
    ri: "mget (regionInfoMap m) n = Some ri" and
    loop: "cleanupLoop C cd k (sort_by SubSetsByCreationTimestamp_Less (Olds ri)) 0 h = (Ok (r', every', kept), h1)"
    and m': "m' = put_region n (ri\<lparr>Olds := every'\<rparr>) m \<or> m' = put_region n (ri\<lparr>Olds := kept\<rparr>) m"
    by (auto simp: cleanupUnhealthyReplicas_def elim!: bind_OkE split: sum.splits)
  have "refs_in R (sort_by SubSetsByCreationTimestamp_Less (Olds ri))"
    using olds_inD [OF assms(2) ri] by (simp add: list_all_iff)
  from cleanupLoop_refs [OF loop this] m' assms(2) show ?thesis
    by (elim disjE) (simp_all add: olds_in_put)
qed

lemma emits_scaleDownOlds [emits_deletes]:
  "valid_ctl C \<Longrightarrow> emits (deletes_in R) (scaleDownOlds C cd n olds)"
  by (induction C cd n olds rule: scaleDownOlds.induct) (auto intro!: emits_intros emits_deletes)

lemma emits_regionSync [emits_deletes]:
  assumes "valid_ctl C" and "olds_in R m"
  shows "emits (deletes_in R) (regionSyncOnce C cd m n b)"
  using assms by (auto simp: regionSyncOnce_def Let_def intro!: emits_intros emits_deletes)

lemma regionSync_olds_in:
  "regionSyncOnce C cd m n b h = (Ok (u, m'), h') \<Longrightarrow> olds_in R m \<Longrightarrow> olds_in R m'"
  by (auto simp: regionSyncOnce_def Let_def elim!: bind_OkE split: if_splits)
    (erule (1) cleanup_olds_in)+

lemma NewSubset_olds:
  "NewSubset C cd ri n h = (Ok (cd', ri', new), h') \<Longrightarrow> Olds ri' = Olds ri \<and> Spec cd' = Spec cd"
  by (auto simp: NewSubset_def Let_def elim!: bind_OkE split: sum.splits option.splits if_splits)

lemma put_new_olds_in:
  assumes "NewSubset C cd ri n h = (Ok (cd', ri', new), h')" and "mget (regionInfoMap m) k = Some ri"
    and "olds_in R m"
  shows "olds_in R (put_region k (ri'\<lparr>New := Some new\<rparr>) m)"
  using NewSubset_olds [OF assms(1)] olds_inD [OF assms(3,2)] assms(3) by (auto intro!: olds_in_put)

lemma emits_recreate [emits_deletes]:
  assumes "valid_ctl C" and "olds_in R m"
  shows "emits (deletes_in R) (recreateRegion C cd m n)"
  unfolding recreateRegion_def Let_def
proof (rule emits_bind_ok [OF emits_deref], rule emits_bind_ok)
  fix ri h h' assume ri: "deref (mget (regionInfoMap m) n) h = (Ok ri, h')"
  show "emits (deletes_in R) (NewSubset C cd ri (calculateStepSize cd (DesiredReplicas ri) 0))"
    by (intro emits_deletes assms(1))
  fix x g g' assume "NewSubset C cd ri (calculateStepSize cd (DesiredReplicas ri) 0) g = (Ok x, g')"
  moreover obtain cd' ri' new where x: "x = (cd', ri', new)" by (cases x)
  ultimately have "olds_in R (put_region n (ri'\<lparr>New := Some new\<rparr>) m)"
    using put_new_olds_in ri assms(2) by simp
  then show "emits (deletes_in R) (case x of (cd, ri, new) \<Rightarrow>
      bind_io (regionSyncOnce C cd (put_region n (ri\<lparr>New := Some new\<rparr>) m) n True) (\<lambda>(u, m). ret (u, cd, m)))"
    unfolding x prod.case by (intro emits_intros emits_deletes assms(1))
qed

lemma recreate_olds_in:
  assumes "recreateRegion C cd m n h = (Ok (u, cd', m'), h')" and "olds_in R m"
  shows "olds_in R m' \<and> Spec cd' = Spec cd"
proof -
  from assms(1) obtain ri ri' new h1 where
    ri: "mget (regionInfoMap m) n = Some ri" and
    new: "NewSubset C cd ri (calculateStepSize cd (DesiredReplicas ri) 0) h = (Ok (cd', ri', new), h1)" and
    sync: "regionSyncOnce C cd' (put_region n (ri'\<lparr>New := Some new\<rparr>) m) n True h1 = (Ok (u, m'), h')"
    unfolding recreateRegion_def Let_def by (elim bind_OkE) (auto elim!: bind_OkE)
  from regionSync_olds_in [OF sync put_new_olds_in [OF new ri assms(2)]] NewSubset_olds [OF new]
  show ?thesis by simp
qed

lemma emits_scaleDownLoop [emits_deletes]:
  "valid_ctl C \<Longrightarrow> emits (deletes_in R) (scaleDownLoop C cd k olds t)"
  by (induction C cd k olds t rule: scaleDownLoop.induct)
    (auto simp: Let_def intro!: emits_intros emits_deletes)

lemma emits_rolling_params [emits_intros]:
  "emits P (rollingParams cd)" "emits P (MaxUnavailable cd ri)" "emits P (NewRSNewReplicas cd xs s ri)"
  by (auto simp: rollingParams_def MaxUnavailable_def NewRSNewReplicas_def Let_def
      intro!: emits_intros split: sum.split)

lemma emits_reconcileOld [emits_deletes]:
  assumes "valid_ctl C" and "olds_in R m"
  shows "emits (deletes_in R) (reconcileOldSubsets C cd m xs olds new ri n)"
  using assms
  by (auto simp: reconcileOldSubsets_def scaleDownOldSubsetsForRollingUpdate_def Let_def
      intro!: emits_intros emits_deletes)

lemma reconcileOld_olds_in:
  "reconcileOldSubsets C cd m xs olds new ri n h = (Ok (u, m'), h') \<Longrightarrow> olds_in R m \<Longrightarrow> olds_in R m'"
  by (auto simp: reconcileOldSubsets_def Let_def elim!: bind_OkE split: if_splits sum.splits)
    (erule (1) cleanup_olds_in)+

lemma emits_reconcileNew [emits_deletes]:
  "valid_ctl C \<Longrightarrow> emits (deletes_in R) (reconcileNewSubset C cd xs new ri)"
  by (auto simp: reconcileNewSubset_def intro!: emits_intros emits_deletes)

text \<open>The first half of \<open>rollingRegion\<close>: the new subset, found or created.\<close>

definition rollingNew :: "ctl \<Rightarrow> extended_deployment \<Rightarrow> region_info \<Rightarrow>
    (extended_deployment \<times> region_info \<times> subset) action" where
  "rollingNew C cd ri = (case New ri of
     Some new \<Rightarrow> ret (cd, ri, new)
   | None \<Rightarrow> bind_io (convertToSubset (Adp C) (NewResourceObject (Adp C))) (\<lambda>newRS.
       bind_io (NewRSNewReplicas cd (Olds ri) newRS ri) (\<lambda>newReplicasCount.
       NewSubset C cd ri newReplicasCount)))"

lemma rollingNew_olds:
  "rollingNew C cd ri h = (Ok (cd', ri', new), h') \<Longrightarrow> Olds ri' = Olds ri \<and> Spec cd' = Spec cd"
  by (auto simp: rollingNew_def elim!: bind_OkE dest: NewSubset_olds split: option.splits)

lemma emits_rollingNew:
  "valid_ctl C \<Longrightarrow> emits (deletes_in R) (rollingNew C cd ri)"
  unfolding rollingNew_def by (intro emits_intros emits_deletes)

lemma rolling_put_olds_in:
  assumes "rollingNew C cd ri h = (Ok (cd', ri', new), h')" and "mget (regionInfoMap m) n = Some ri"
    and "olds_in R m"
  shows "olds_in R (put_region n (ri'\<lparr>New := Some new\<rparr>) m)"
  using rollingNew_olds [OF assms(1)] olds_inD [OF assms(3,2)] assms(3) by (simp add: olds_in_put)

lemma emits_rolling [emits_deletes]:
  assumes "valid_ctl C" and "olds_in R m"
  shows "emits (deletes_in R) (rollingRegion C cd m n)"
  unfolding rollingRegion_def Let_def rollingNew_def [symmetric]
proof (rule emits_bind_ok [OF emits_deref], rule emits_bind_ok)
  fix ri h h' assume ri: "deref (mget (regionInfoMap m) n) h = (Ok ri, h')"
  show "emits (deletes_in R) (rollingNew C cd ri)" by (rule emits_rollingNew [OF assms(1)])
  fix x g g' assume "rollingNew C cd ri g = (Ok x, g')"
  moreover obtain cd' ri' new where x: "x = (cd', ri', new)" by (cases x)
  ultimately have o': "olds_in R (put_region n (ri'\<lparr>New := Some new\<rparr>) m)"
    using rolling_put_olds_in ri assms(2) by simp
  show "emits (deletes_in R) (case x of (cd, ri, new) \<Rightarrow>
      bind_io (reconcileNewSubset C cd (Olds (ri\<lparr>New := Some new\<rparr>) @ [new]) new (ri\<lparr>New := Some new\<rparr>)) (\<lambda>_.
      bind_io (reconcileOldSubsets C cd (put_region n (ri\<lparr>New := Some new\<rparr>) m)
        (Olds (ri\<lparr>New := Some new\<rparr>) @ [new]) (Olds (ri\<lparr>New := Some new\<rparr>)) new
        (ri\<lparr>New := Some new\<rparr>) n) (\<lambda>(_, m). ret (True, cd, m))))"
    unfolding x prod.case by (intro emits_intros emits_deletes assms(1) o')
qed

lemma rolling_olds_in:
  assumes "rollingRegion C cd m n h = (Ok (u, cd', m'), h')" and "olds_in R m"
  shows "olds_in R m' \<and> Spec cd' = Spec cd"
proof -
  from assms(1) obtain ri ri' new h1 h2 b where
    ri: "mget (regionInfoMap m) n = Some ri" and
    new: "rollingNew C cd ri h = (Ok (cd', ri', new), h1)" and
    old: "reconcileOldSubsets C cd' (put_region n (ri'\<lparr>New := Some new\<rparr>) m)
        (Olds ri' @ [new]) (Olds ri') new (ri'\<lparr>New := Some new\<rparr>) n h2 = (Ok (b, m'), h')"
    unfolding rollingRegion_def Let_def rollingNew_def [symmetric] by (elim bind_OkE) (auto elim!: bind_OkE)
  from reconcileOld_olds_in [OF old rolling_put_olds_in [OF new ri assms(2)]] rollingNew_olds [OF new]
  show ?thesis by simp
qed

lemma emits_isCan [emits_intros]: "emits P (isCanInplaceUpdate C cd m ss)"
  unfolding isCanInplaceUpdate_def regionTemplate_def Let_def by (intro emits_intros)

lemma emits_checkInplace [emits_deletes]: "emits (deletes_in R) (CheckInplaceUpdate C cd m n)"
  unfolding CheckInplaceUpdate_def Let_def by (intro emits_intros emits_deletes) simp_all

text \<open>The subset an in-place update works on, and where it is written back.\<close>

lemma writeTarget_refs:
  assumes "inplaceTarget info = Some ss" and "refs_in R (Olds info)" and "SubsetRef ss' = SubsetRef ss"
  shows "refs_in R (Olds (writeTarget info ss'))"
  using assms by (auto simp: inplaceTarget_def writeTarget_def split: option.splits list.splits)

lemma checkInplace_olds_in:
  assumes "CheckInplaceUpdate C cd m n h = (Ok (b, m'), h')" and "olds_in R m"
  shows "olds_in R m'"
proof -
  from assms(1) obtain info where info: "mget (regionInfoMap m) n = Some info"
    by (auto simp: CheckInplaceUpdate_def elim!: bind_OkE)
  have refs: "refs_in R (Olds info)" by (rule olds_inD [OF assms(2) info])
  show ?thesis
  proof (cases "inplaceTarget info")
    case None
    with assms info show ?thesis
      by (auto simp: CheckInplaceUpdate_def elim!: bind_OkE)
  next
    case (Some ss)
    note w = writeTarget_refs [OF Some refs]
    have "olds_in R (put_region n (writeTarget info s1) m)" if "SubsetRef s1 = SubsetRef ss" for s1
      by (rule olds_in_put [OF assms(2) w [OF that]])
    moreover have "olds_in R (put_region n (writeTarget info s1\<lparr>New := Some s1\<rparr>)
        (put_region n (writeTarget info s2) m))"
      if "SubsetRef s1 = SubsetRef ss" "SubsetRef s2 = SubsetRef ss" for s1 s2
      by (rule olds_in_put [OF olds_in_put [OF assms(2) w [OF that(2)]]]) (simp add: w [OF that(1)])
    ultimately show ?thesis
      using assms info Some unfolding CheckInplaceUpdate_def Let_def
      by (auto elim!: bind_OkE split: prod.splits if_splits)
  qed
qed

section \<open>All regions\<close>

lemma emits_deleteFirst [emits_deletes]:
  assumes "valid_ctl C"
  shows "emits (deletes_in R) (rolloutDeleteAllFirst C cd m n)"
proof -
  have "emits (deletes_in R) (scaleDownOldReplicaSetsForDeleteAllFirst C cd olds)" for olds
    by (rule emits_mono [OF emits_scaleDownAll [OF assms] deletes_in_keeps])
  moreover have "emits (deletes_in R) (oldPodsLoop C olds errs)" for olds errs
    by (rule emits_mono [OF emits_oldPodsLoop deletes_in_keeps])
  ultimately show ?thesis
    unfolding rolloutDeleteAllFirst_def oldPodsRunning_def Let_def
    by (intro emits_intros emits_deletes assms) blast+
qed

lemma emits_ClearLoop: "refs_in R xs \<Longrightarrow> emits (deletes_in R) (ClearLoop C cd xs)"
  by (induction xs) (auto intro!: emits_intros emits_DeleteSubset)

lemma emits_manageRegions:
  assumes "valid_ctl C" and "olds_in R m"
  shows "emits (deletes_in R) (manageRegions C cd m names b)"
  using assms(2)
proof (induction names arbitrary: cd m b)
  case Nil
  show ?case by (simp add: emits_ret)
next
  case (Cons n names)
  have goOn: "emits (deletes_in R) (bind_io act (\<lambda>(u, cd, m). manageRegions C cd m names (b \<or> u)))"
    if "emits (deletes_in R) act" "\<And>u cd' m' h h'. act h = (Ok (u, cd', m'), h') \<Longrightarrow> olds_in R m'" for act
    using that Cons.IH by (intro emits_bind_ok) (auto split: prod.splits)
  have recreate: "emits (deletes_in R) (bind_io (recreateRegion C cd m' n)
      (\<lambda>(u, cd, m). manageRegions C cd m names (b \<or> u)))" if "olds_in R m'" for m'
    using that assms(1) by (intro goOn emits_recreate) (auto dest: recreate_olds_in)
  have rolling: "emits (deletes_in R) (bind_io (rollingRegion C cd m n)
      (\<lambda>(u, cd, m). manageRegions C cd m names (b \<or> u)))"
    using Cons.prems assms(1) by (intro goOn emits_rolling) (auto dest: rolling_olds_in)
  have inplace: "emits (deletes_in R) (bind_io (CheckInplaceUpdate C cd m n) (\<lambda>(d, m).
      if d then manageRegions C cd m names b else f m))"
    if "\<And>m'. olds_in R m' \<Longrightarrow> emits (deletes_in R) (f m')" for f
    using that Cons.prems Cons.IH
    by (intro emits_bind_ok emits_checkInplace) (auto split: prod.splits dest: checkInplace_olds_in)
  show ?case
    unfolding manageRegions.simps Let_def
    by (intro emits_intros emits_deletes recreate rolling inplace assms(1) Cons.prems)
      (simp_all add: Cons.IH Cons.prems)
qed

text \<open>
  C7: whatever the update strategy and the answers of the API server, one pass of
  \<open>ManageSubsets\<close> deletes no workload but those of unused subsets (their region left the
  specification) and of old subsets of a region: the new subset of a region is never deleted.
\<close>

theorem ManageSubsets_deletes_only_old:
  assumes "valid_ctl C"
  shows "emits (\<lambda>q. \<forall>w. q = DeleteSet w \<longrightarrow>
      w \<in> SubsetRef ` set (unusedSubsets m) \<or>
      (\<exists>p \<in> set (regionInfoMap m). w \<in> SubsetRef ` set (Olds (snd p)))) (ManageSubsets C cd m)"
proof -
  let ?R = "SubsetRef ` set (unusedSubsets m) \<union> (\<Union>p \<in> set (regionInfoMap m). SubsetRef ` set (Olds (snd p)))"
  have "olds_in ?R m" by (auto simp: olds_in_def list_all_iff)
  moreover have "refs_in ?R (unusedSubsets m)" by (simp add: list_all_iff)
  ultimately have "emits (deletes_in ?R) (ManageSubsets C cd m)"
    unfolding ManageSubsets_def ClearUnused_def
    by (intro emits_bind emits_ClearLoop emits_manageRegions [OF assms])
  then show ?thesis by (rule emits_mono) (auto simp: deletes_in_def)
qed

theorem ManageSubsets_deletes_only_old_witness:
  "emits (\<lambda>q. \<forall>w. q = DeleteSet w \<longrightarrow>
      w \<in> SubsetRef ` set (unusedSubsets rolling_control) \<or>
      (\<exists>p \<in> set (regionInfoMap rolling_control). w \<in> SubsetRef ` set (Olds (snd p))))
     (ManageSubsets sample_ctl surge_three rolling_control)"
  by (rule ManageSubsets_deletes_only_old) simp

end
