(* ===== verification/Reconcile.thy ===== *)
theory Reconcile
  imports Revision Grouping Manage
begin

text \<open>
  \<open>extendeddeployment/controller.go\<close> and \<open>region.go\<close>: one reconciliation of an
  ExtendedDeployment. The answer is the number of seconds after which the object is queued again (0
  for none); an error is an \<open>Err\<close>, and a panic anywhere is turned into one.
\<close>

section \<open>Checks\<close>

definition confirmTrue :: string where "confirmTrue = ''true''"
definition confirmFalse :: string where "confirmFalse = ''false''"

datatype term_flag = termInit | termReady | termNotReady

definition checkUpgradeConfirm ::
    "server \<Rightarrow> extended_deployment \<Rightarrow> (bool \<times> extended_deployment) action" where
  "checkUpgradeConfirm S deploy =
     (let without = deploy\<lparr>Annotations := snd (DelAnnotations [AnnotationUpgradeConfirm] (Annotations deploy))\<rparr>
      in if NeedWaitingForConfirm (Strategy (Spec deploy))
         then (case mget (Annotations deploy) AnnotationUpgradeConfirm of
            None \<Rightarrow>
              (let deploy = deploy\<lparr>Annotations := mset_key AnnotationUpgradeConfirm confirmFalse (Annotations deploy)\<rparr>
               in bind_io (updateAnnotations S deploy) (\<lambda>_. ret (True, deploy)))
          | Some confirm \<Rightarrow>
              (if confirm \<noteq> confirmTrue then ret (True, deploy)
               else if NeedFirstConfirm (Strategy (Spec deploy)) then ret (False, deploy)
               else bind_io (emit (Event ''TermConfirmed'')) (\<lambda>_.
                 bind_io (updateAnnotations S without) (\<lambda>_. ret (False, without)))))
         else if mhas (Annotations deploy) AnnotationUpgradeConfirm
         then bind_io (updateAnnotations S without) (\<lambda>_. ret (False, without))
         else ret (False, deploy))"

text \<open>The texts of the selector that matches everything and of the one that matches nothing are empty.\<close>

definition checkSelector :: "ext \<Rightarrow> extended_deployment \<Rightarrow> unit action" where
  "checkSelector X deploy =
     (let refuse = bind_io (emit (Event ''ExtendedDeploymentConfigError'')) (\<lambda>_.
        fail (Msg ''label selector is invalid''))
      in case LabelSelectorAsSelector X (Selector (Spec deploy)) of
        Inl e \<Rightarrow> refuse
      | Inr sel \<Rightarrow>
          (if SelString sel = [] then refuse
           else if \<not> SelMatches sel (TemplateLabels (Template (Spec deploy))) then refuse
           else ret ()))"

definition checkRegionStep :: "bool \<Rightarrow> deploy_region list \<Rightarrow> region \<Rightarrow> deploy_region gomap \<Rightarrow>
    deploy_region gomap action" where
  "checkRegionStep totalReplicasHasSet items region res =
     (case find (\<lambda>r. Name r = RegionName region) (rev items) of
        None \<Rightarrow> bind_io (emit (Event ''DeployRegionNotExists'')) (\<lambda>_.
          fail (Msg ''region is not exists''))
      | Some r \<Rightarrow>
          bind_io (if totalReplicasHasSet
            then bind_io (deref (RegionReplicas region)) (\<lambda>v.
              if is_IntVal v then emit (Event ''DeployRegionReplicasTypeError'') else ret ())
            else ret ()) (\<lambda>_.
          ret (mset_key (RegionName region) r res)))"

definition checkRegions :: "server \<Rightarrow> extended_deployment \<Rightarrow> deploy_region gomap action" where
  "checkRegions S deploy =
     bind_io (call ListRegions (\<lambda>h. ansListRegions S h)) (\<lambda>items.
     let totalReplicasHasSet = (case Replicas (Spec deploy) of None \<Rightarrow> False | Some n \<Rightarrow> n > 0)
     in for_io (checkRegionStep totalReplicasHasSet items) (Regions (Spec deploy)) [])"

definition getSubsetControl :: "ext \<Rightarrow> extended_deployment \<Rightarrow> adapter action" where
  "getSubsetControl X deploy = (case subSetControls X (SubsetType (Spec deploy)) of
     Some A \<Rightarrow> ret A
   | None \<Rightarrow>
       (if SubsetType (Spec deploy) = NoSubsetType then ret (InplaceSetAdapter X)
        else bind_io (emit (Event ''ExtendedDeploymentResourceTypeError'')) (\<lambda>_.
          fail (Msg ''resource type not supported''))))"

fun checkIfTermReady :: "region_info gomap \<Rightarrow> term_flag" where
  "checkIfTermReady [] = termReady"
| "checkIfTermReady ((_, ri) # rest) =
     (if New ri = None then termInit
      else if \<not> AvailableDesired ri then termNotReady
      else checkIfTermReady rest)"

fun checkSaturated :: "region_info gomap \<Rightarrow> bool" where
  "checkSaturated [] = True"
| "checkSaturated ((_, ri) # rest) =
     (if \<not> ReplicasDesired ri \<or> \<not> AvailableDesired ri then False else checkSaturated rest)"

section \<open>Reconcile\<close>

definition isProgressing :: "extended_deployment \<Rightarrow> bool" where
  "isProgressing deploy \<longleftrightarrow> \<not> list_ex (\<lambda>c. CondType c = DeploymentProgressing \<and>
     CondStatus c = ConditionFalse) (Conditions (Status deploy))"

text \<open>The last part of \<open>Reconcile\<close>: roll out one step and report.\<close>

definition rolloutStep :: "ctl \<Rightarrow> extended_deployment \<Rightarrow> subset_control \<Rightarrow> int action" where
  "rolloutStep C deploy m =
     bind_io (ManageSubsets C deploy m) (\<lambda>(updated, deploy, m).
     bind_io (SyncStatusOnly (Srv C) (Ext C) deploy (regionInfoMap m) True False) (\<lambda>_.
     if \<not> updated then ret 1
     else bind_io (UpdateProgressing (Srv C) deploy) (\<lambda>_. ret 0)))"

text \<open>From the check for saturation on.\<close>

definition reconcileTerm :: "ctl \<Rightarrow> extended_deployment \<Rightarrow> subset_control \<Rightarrow> int action" where
  "reconcileTerm C deploy m =
     (if checkSaturated (regionInfoMap m)
      then bind_io (cleanAfterSaturated C deploy m) (\<lambda>_. ret 0)
      else (case checkIfTermReady (regionInfoMap m) of
         termReady \<Rightarrow>
           (if isProgressing deploy
            then bind_io (checkUpgradeConfirm (Srv C) deploy) (\<lambda>(needWait, deploy).
              if needWait
              then bind_io (SyncStatusOnly (Srv C) (Ext C) deploy (regionInfoMap m) True False) (\<lambda>_. ret 0)
              else rolloutStep C deploy m)
            else rolloutStep C deploy m)
       | termNotReady \<Rightarrow>
           bind_io (SyncStatusOnly (Srv C) (Ext C) deploy (regionInfoMap m) False False) (\<lambda>_. ret 0)
       | termInit \<Rightarrow> rolloutStep C deploy m))"

definition empty_control :: subset_control where
  "empty_control = \<lparr>regionInfoMap = [], autoScheduleSpec = None, allSubsets = [], unusedSubsets = []\<rparr>"

text \<open>The controller before the subset type is known uses the control for InplaceSets.\<close>

definition baseControl :: "server \<Rightarrow> ext \<Rightarrow> bool \<Rightarrow> ctl" where
  "baseControl S X disable =
     \<lparr>Srv = S, Ext = X, Adp = InplaceSetAdapter X, DisableInplaceUpdate = disable\<rparr>"

definition reconcileBody :: "server \<Rightarrow> ext \<Rightarrow> bool \<Rightarrow> nskey \<Rightarrow> int action" where
  "reconcileBody S X disable key =
     (let C = baseControl S X disable
      in bind_io (QueryExtendedDeployment S key) (\<lambda>p. (case p of
        None \<Rightarrow> ret 0
      | Some deploy \<Rightarrow>
          if DeletionTimestamp deploy \<noteq> None then ret 0
          else bind_io (checkRollback C deploy) (\<lambda>needRollback.
          if needRollback then ret 0
          else bind_io (syncRevisions C deploy) (\<lambda>needSyncRevison.
          if needSyncRevison then ret 0
          else bind_io (attempt (checkSelector X deploy)) (\<lambda>r. (case r of
            Inl _ \<Rightarrow> ret 0
          | Inr _ \<Rightarrow>
              bind_io (checkRegions S deploy) (\<lambda>regionMap.
              let deploy = (if SubsetType (Spec deploy) = NoSubsetType
                    then deploy\<lparr>Spec := (Spec deploy)\<lparr>SubsetType := InPlaceSetSubsetType\<rparr>\<rparr> else deploy)
              in bind_io (getSubsetControl X deploy) (\<lambda>A.
                 let C = C\<lparr>Adp := A\<rparr>
                 in bind_io (QuerySubsetAndRegionInfo C deploy regionMap empty_control) (\<lambda>m.
                    bind_io (UpdateSubsetStrategy C deploy m) (\<lambda>m.
                    reconcileTerm C deploy m)))))))))))"

text \<open>\<open>stopHandler\<close> in the deferred function turns a panic into an error.\<close>

definition Reconcile :: "server \<Rightarrow> ext \<Rightarrow> bool \<Rightarrow> nskey \<Rightarrow> int action" where
  "Reconcile S X disable key = recover_io (reconcileBody S X disable key)"

section \<open>When a rollout waits\<close>

definition status_request :: "req \<Rightarrow> bool" where
  "status_request q = (case q of GetED _ \<Rightarrow> True | UpdateEDStatus _ \<Rightarrow> True | Now \<Rightarrow> True | _ \<Rightarrow> False)"

definition own_request :: "req \<Rightarrow> bool" where
  "own_request q = (case q of UpdateED _ \<Rightarrow> True | Event _ \<Rightarrow> True | _ \<Rightarrow> status_request q)"

lemma request_simps [simp]:
  "status_request (GetED k)" "status_request (UpdateEDStatus d)" "status_request Now"
  "own_request (GetED k)" "own_request (UpdateEDStatus d)" "own_request Now" "own_request (UpdateED d)"
  "own_request (Event e)"
  by (simp_all add: status_request_def own_request_def)

lemma emits_query [emits_intros]: "P (GetED k) \<Longrightarrow> emits P (QueryExtendedDeployment S k)"
  unfolding QueryExtendedDeployment_def by (intro emits_intros) (auto intro: emits_intros split: err.split)

lemma emits_newCond [emits_intros]: "P Now \<Longrightarrow> emits P (NewDeploymentCondition S t st r msg)"
  unfolding NewDeploymentCondition_def by (intro emits_intros)

lemma emits_calculateStatus [emits_intros]: "P Now \<Longrightarrow> emits P (calculateStatus S X d ri)"
  unfolding calculateStatus_def termTimedOut_def Let_def by (intro emits_intros)

lemma emits_SyncStatus:
  assumes "\<And>q. status_request q \<Longrightarrow> P q"
  shows "emits P (SyncStatusOnly S X d ri r b)"
  unfolding SyncStatusOnly_def updateEDStatus_def Let_def by (intro emits_intros assms) simp_all

lemma emits_updateAnnotations:
  assumes "\<And>q. own_request q \<Longrightarrow> P q"
  shows "emits P (updateAnnotations S d)"
  unfolding updateAnnotations_def updateED_def by (intro emits_intros assms) simp_all

lemma notReady_not_saturated: "checkIfTermReady m = termNotReady \<Longrightarrow> \<not> checkSaturated m"
  by (induction m rule: checkIfTermReady.induct) (auto split: if_splits)


definition waiting_region :: subset_control where
  "waiting_region = \<lparr>regionInfoMap = [(''r1'', zero_region_info\<lparr>New := Some zero_subset\<rparr>)],
     autoScheduleSpec = None, allSubsets = [], unusedSubsets = []\<rparr>"


lemma checkUpgradeConfirm_waits:
  assumes "checkUpgradeConfirm S deploy h = (Ok (w, d), h')"
    and "NeedWaitingForConfirm (Strategy (Spec deploy))"
    and "mget (Annotations deploy) AnnotationUpgradeConfirm \<noteq> Some confirmTrue"
  shows "w"
  using assms by (auto simp: checkUpgradeConfirm_def Let_def elim!: bind_OkE split: option.splits)

lemma emits_checkUpgradeConfirm: "emits own_request (checkUpgradeConfirm S deploy)"
  unfolding checkUpgradeConfirm_def Let_def by (intro emits_intros emits_updateAnnotations) simp_all


definition unconfirmed_app :: extended_deployment where
  "unconfirmed_app = zero_ED\<lparr>Spec := zero_ed_spec\<lparr>Strategy := zero_strategy\<lparr>NeedWaitingForConfirm := True\<rparr>\<rparr>\<rparr>"

definition ready_region :: subset_control where
  "ready_region = \<lparr>regionInfoMap = [(''r1'', zero_region_info\<lparr>New := Some zero_subset, AvailableDesired := True\<rparr>)],
     autoScheduleSpec = None, allSubsets = [], unusedSubsets = []\<rparr>"


section \<open>Panics and rollbacks\<close>

text \<open>
  A reconciliation never panics: whatever the API server answers, it ends with a result or an
  error, after which the object is queued again.
\<close>

theorem Reconcile_never_panics:
  "\<forall>e. fst (Reconcile S X disable key h) \<noteq> Panic e"
  by (simp add: Reconcile_def recover_io_def split: prod.split res.split)

text \<open>
  A rollback to a revision that equals the current specification is never finished: the request
  stays in the annotations, nothing is written, and every reconciliation of this object stops there
  again, before any region is looked at.
\<close>

theorem unchanged_rollback_blocks:
  assumes "ansGetED S h key = Inr deploy" and "DeletionTimestamp deploy = None"
    and "mget (Annotations deploy) AnnotationRollbackTo = Some raw"
    and "ParseInt_sum (TrimSpace raw) 64 = Inr n" and "n \<noteq> 0"
    and "LabelSelectorAsSelector X (Selector (Spec deploy)) = Inr sel"
    and "\<And>g. ansListRevisions S g (Namespace deploy, SelString sel) = Inr revs"
    and "find (\<lambda>r. Revision r = n) (rev (SortControllerRevisions revs)) = Some rv"
    and "getSpecByRevision X rv = Inr spec" and "EqualIgnoreHash (Spec deploy) spec"
  shows "Reconcile S X disable key h = (Ok 0, h @ [GetED key,
     ListRevisions (Namespace deploy, SelString sel), Event ''DeploymentRollbackTemplateUnchanged''])"
proof -
  have ne: "TrimSpace raw \<noteq> []"
    using assms(4) by (auto simp: ParseInt_sum_def ParseInt_def split: prod.splits option.splits)
  show ?thesis
    using assms ne
    by (simp add: Reconcile_def reconcileBody_def baseControl_def QueryExtendedDeployment_def
        checkRollback_def rollbackTo_def listRevisions_def rollbackToRevision_def Let_def io_defs)
qed

definition rollback_app :: extended_deployment where
  "rollback_app = zero_ED\<lparr>Annotations := [(AnnotationRollbackTo, ''1'')]\<rparr>"

definition rollback_server :: server where
  "rollback_server = sample_server\<lparr>ansGetED := \<lambda>_ _. Inr rollback_app,
     ansListRevisions := \<lambda>_ _. Inr [rev_no 1 []]\<rparr>"

theorem unchanged_rollback_blocks_witness:
  "Reconcile rollback_server sample_ext False ([], ''app'') [] = (Ok 0, [] @ [GetED ([], ''app''),
     ListRevisions (Namespace rollback_app, SelString \<lparr>SelMatches = \<lambda>_. False, SelString = []\<rparr>),
     Event ''DeploymentRollbackTemplateUnchanged''])"
  by (rule unchanged_rollback_blocks [where raw = "''1''" and n = 1 and revs = "[rev_no 1 []]" and
        rv = "rev_no 1 []" and spec = "zero_ed_spec\<lparr>Template := zero_template\<lparr>TemplateRest := []\<rparr>\<rparr>"])
    (simp_all add: rollback_server_def rollback_app_def sample_ext_def TrimSpace_def ParseInt_sum_def
      ParseInt_def digit_val_def SortControllerRevisions_def getSpecByRevision_def EqualIgnoreHash_def
      template_equal_def selector_equal_def same_map_def unhashed_def zero_values Let_def)

text \<open>
  The answer of \<open>checkIfTermReady\<close> depends on the order in which the region map is visited:
  with one region that has no new subset and one that waits for its replicas, one order starts the
  next step and the other waits.
\<close>

theorem term_flag_depends_on_order:
  "\<exists>a b. checkIfTermReady [a, b] = termInit \<and> checkIfTermReady [b, a] = termNotReady"
proof -
  let ?a = "(''r1'', zero_region_info)" and ?b = "(''r2'', zero_region_info\<lparr>New := Some zero_subset\<rparr>)"
  have "checkIfTermReady [?a, ?b] = termInit" and "checkIfTermReady [?b, ?a] = termNotReady"
    by (simp_all add: zero_region_info_def)
  then show ?thesis by blast
qed

section \<open>A saturated deployment\<close>

lemma checkSaturated_iff:
  "checkSaturated m \<longleftrightarrow> (\<forall>p \<in> set m. ReplicasDesired (snd p) \<and> AvailableDesired (snd p))"
  by (induction m rule: checkSaturated.induct) auto

end
