(* ===== verification/FailureFlag.thy ===== *)
theory FailureFlag
  imports Failover Reconcile
begin

text \<open>
  The composition of the controllers over an ExtendedDeployment: the failure flag written by the
  DeployRegion controller and read by the reschedule controller, the plan written by the reschedule
  controller and read by the ExtendedDeployment controller, and what the reschedule controller may
  write.
\<close>

section \<open>The failure flag\<close>

lemma failed_fold:
  "failed_in (fold (\<lambda>n m. mset_key n True m) ns m0) k \<longleftrightarrow> k \<in> set ns \<or> failed_in m0 k"
  by (induction ns arbitrary: m0) auto

lemma healthy_fold:
  "failed_in (fold (\<lambda>r m. if mhas m (RegionName r) then m else mset_key (RegionName r) False m) rs m0) k \<longleftrightarrow>
     failed_in m0 k"
  by (induction rs arbitrary: m0) (auto simp: mhas_def)

lemma GetFailedRegions_flag:
  assumes "mget (Annotations d) AnnotationFailedFlag = Some (Join ns [CHR '',''])" and "ns \<noteq> []"
    and "\<forall>n \<in> set ns. n \<noteq> [] \<and> CHR '','' \<notin> set n"
  shows "failed_in (fst (GetFailedRegions d)) k \<longleftrightarrow> k \<in> set ns" and "snd (GetFailedRegions d)"
proof -
  have nonempty: "Join ns [CHR '',''] \<noteq> []" using assms(2,3) by (cases ns rule: remdups_adj.cases) auto
  have split: "Split (Join ns [CHR '','']) (CHR '','') = ns" using assms(2,3) by (intro Split_Join) auto
  show "failed_in (fst (GetFailedRegions d)) k \<longleftrightarrow> k \<in> set ns" "snd (GetFailedRegions d)"
    using nonempty
    by (simp_all add: GetFailedRegions_def GetFailedFlag_def assms(1) split healthy_fold failed_fold)
qed

lemma GetFailedRegions_clear:
  assumes "mget (Annotations d) AnnotationFailedFlag = None"
  shows "\<not> failed_in (fst (GetFailedRegions d)) k" and "\<not> snd (GetFailedRegions d)"
  by (simp_all add: GetFailedRegions_def GetFailedFlag_def assms healthy_fold)

text \<open>
  C19: what the DeployRegion controller flags, the reschedule controller reads: after setting the
  flag for a list of failed regions, the stored ExtendedDeployment (the one written, or the old one
  when nothing had to be written) is read back with exactly these regions failed, and as having no
  failed region when the list is empty. Region names are not empty and contain no comma.
\<close>

theorem failure_flag_round_trip:
  assumes "\<forall>n \<in> set failed. n \<noteq> [] \<and> CHR '','' \<notin> set n"
    and "setFailureAnnotation D d failed h = (Ok (), h')"
  shows "\<exists>d'. (h' = h \<and> d' = d \<or> h' = h @ [UpdateED d']) \<and>
    (\<forall>k. failed_in (fst (GetFailedRegions d')) k \<longleftrightarrow> k \<in> set failed) \<and>
    (snd (GetFailedRegions d') \<longleftrightarrow> failed \<noteq> [])"
proof (cases "failed = []")
  case True
  show ?thesis
  proof (cases "mhas (Annotations d) AnnotationFailedFlag")
    case False
    then have "mget (Annotations d) AnnotationFailedFlag = None" by (simp add: mhas_def)
    with True False assms(2) show ?thesis
      by (intro exI [of _ d]) (auto simp: setFailureAnnotation_def GetFailedRegions_clear)
  next
    case flag: True
    let ?d = "d\<lparr>Annotations := mdel AnnotationFailedFlag (Annotations d)\<rparr>"
    have "mget (Annotations ?d) AnnotationFailedFlag = None" by simp
    with True flag assms(2) show ?thesis
      by (intro exI [of _ ?d]) (auto simp: setFailureAnnotation_def Let_def GetFailedRegions_clear)
  qed
next
  case False
  let ?ns = "sort_by (<) failed"
  let ?v = "Join ?ns [CHR '','']"
  have ns: "?ns \<noteq> []" "\<forall>n \<in> set ?ns. n \<noteq> [] \<and> CHR '','' \<notin> set n"
    using False assms(1) by (metis length_0_conv length_sort_by, simp)
  have v: "?v \<noteq> []" using ns by (cases ?ns rule: remdups_adj.cases) auto
  show ?thesis
  proof (cases "?v = mget_str (Annotations d) AnnotationFailedFlag")
    case True
    then have "mget (Annotations d) AnnotationFailedFlag = Some ?v"
      using v by (auto simp: mget_str_def split: option.splits)
    note read = GetFailedRegions_flag [OF this ns]
    from True False assms(2) have "h' = h" by (simp add: setFailureAnnotation_def)
    with read False show ?thesis by (intro exI [of _ d]) simp
  next
    case new: False
    let ?d = "d\<lparr>Annotations := mset_key AnnotationFailedFlag ?v (Annotations d)\<rparr>"
    have "mget (Annotations ?d) AnnotationFailedFlag = Some ?v" by simp
    note read = GetFailedRegions_flag [OF this ns]
    from new False assms(2) have "h' = h @ [UpdateED ?d]" by (simp add: setFailureAnnotation_def Let_def)
    with read False show ?thesis by (intro exI [of _ ?d]) simp
  qed
qed

theorem failure_flag_round_trip_witness:
  "\<exists>h' d'. setFailureAnnotation sample_regions zero_ED [''r2'', ''r1''] [] = (Ok (), h') \<and>
     (h' = [] \<and> d' = zero_ED \<or> h' = [UpdateED d']) \<and>
     (\<forall>k. failed_in (fst (GetFailedRegions d')) k \<longleftrightarrow> k \<in> {''r2'', ''r1''}) \<and> snd (GetFailedRegions d')"
proof -
  have "\<exists>h'. setFailureAnnotation sample_regions zero_ED [''r2'', ''r1''] [] = (Ok (), h')"
    by (simp add: setFailureAnnotation_def sample_regions_def sample_server_def zero_values mget_str_def
        Let_def call_def)
  then obtain h' where h': "setFailureAnnotation sample_regions zero_ED [''r2'', ''r1''] [] = (Ok (), h')" by blast
  show ?thesis using failure_flag_round_trip [OF _ h'] h' by simp
qed

section \<open>A new plan\<close>

definition planned_region :: "extended_deployment \<Rightarrow> string \<times> scheduleRegionInfo \<Rightarrow> bool" where
  "planned_region d = (\<lambda>(k, r). SName r = k \<and> rescheduleReplicas r = configReplicas r \<and>
     is_i64 (AllocatablePod r) \<and>
     (\<exists>rg \<in> set (Regions (Spec d)). \<exists>n v. RegionName rg = k \<and> Replicas (Spec d) = Some n \<and>
        RegionReplicas rg = Some v \<and> ParseRegionReplicas n v = Inr (configReplicas r)))"

lemma is_i64_i64 [simp]: "is_i64 (i64 x)"
proof -
  have "0 \<le> (x + 9223372036854775808) mod 18446744073709551616"
    "(x + 9223372036854775808) mod 18446744073709551616 < 18446744073709551616" by simp_all
  then show ?thesis unfolding is_i64_def i64_def by linarith
qed

lemma reported_is_i64: "is_i64 (GetRegionAllocatablePodNum c r res)"
proof -
  have "is_i64 (fold (\<lambda>(_, nc) n. i64 (n + MaxDivided (SubResource (Allocatable nc) res) (ResourceList res))) nodes acc)"
    if "is_i64 acc" for nodes :: "node_cache gomap" and acc
    using that by (induction nodes arbitrary: acc) auto
  moreover have "is_i64 0" by (simp add: is_i64_def)
  ultimately show ?thesis by (simp add: GetRegionAllocatablePodNum_def split: option.split)
qed

lemma scheduleRegion_step:
  assumes "scheduleRegion X cch d rg m h = (Ok m', h')" and "rg \<in> set (Regions (Spec d))"
    and "distinct (map fst m) \<and> list_all (planned_region d) m"
  shows "distinct (map fst m') \<and> list_all (planned_region d) m'"
proof -
  obtain n v k res where spec: "Replicas (Spec d) = Some n" "RegionReplicas rg = Some v"
      "ParseRegionReplicas n v = Inr k"
    and m': "m' = mset_key (RegionName rg) \<lparr>SName = RegionName rg, configReplicas = k, scheduleReplicas = 0,
      rescheduleReplicas = k, AllocatablePod = GetRegionAllocatablePodNum cch (RegionName rg) res\<rparr> m"
    using assms(1) unfolding scheduleRegion_def by (auto elim!: bind_OkE split: if_splits)
  have "planned_region d (RegionName rg, \<lparr>SName = RegionName rg, configReplicas = k, scheduleReplicas = 0,
      rescheduleReplicas = k, AllocatablePod = GetRegionAllocatablePodNum cch (RegionName rg) res\<rparr>)"
    using spec assms(2) by (auto simp: planned_region_def reported_is_i64)
  with assms(3) m' show ?thesis by (simp add: list_all_set_key)
qed

lemma new_plan_planned:
  assumes "NewScheduleRegionInfo X cch d h = (Ok info, h')"
  shows "distinct (map fst (regionsInfo info)) \<and> list_all (planned_region d) (regionsInfo info) \<and>
    failedRegions info = []"
proof -
  let ?I = "\<lambda>m. distinct (map fst m) \<and> list_all (planned_region d) m"
  obtain m1 g1 m2 where 1: "for_io (scheduleRegion X cch d) (Regions (Spec d)) [] h = (Ok m1, g1)"
    and 2: "for_io (\<lambda>st m. bind_io (deref (mget m (StRegionName st))) (\<lambda>ri.
         ret (mset_key (StRegionName st) (ri\<lparr>scheduleReplicas := StUpdatedReplicas st\<rparr>) m)))
       (StatusRegions (Status d)) m1 g1 = (Ok m2, h')" and info: "info = \<lparr>regionsInfo = m2, failedRegions = []\<rparr>"
    using assms unfolding NewScheduleRegionInfo_def by (auto elim!: bind_OkE)
  have "?I m1"
    by (rule for_io_inv [where I = "\<lambda>m _. ?I m", OF 1]) (auto intro: scheduleRegion_step [THEN conjunct1]
        scheduleRegion_step [THEN conjunct2])
  have "?I m2"
  proof (rule for_io_inv [where I = "\<lambda>m _. ?I m", OF 2 \<open>?I m1\<close>])
    fix st m h m' h'
    assume m: "?I m" and "bind_io (deref (mget m (StRegionName st))) (\<lambda>ri.
         ret (mset_key (StRegionName st) (ri\<lparr>scheduleReplicas := StUpdatedReplicas st\<rparr>) m)) h = (Ok m', h')"
    then obtain ri where ri: "mget m (StRegionName st) = Some ri"
      and m': "m' = mset_key (StRegionName st) (ri\<lparr>scheduleReplicas := StUpdatedReplicas st\<rparr>) m"
      by (auto elim!: bind_OkE)
    have "planned_region d (StRegionName st, ri)"
      using m map_of_SomeD [OF ri] by (auto simp: list_all_iff)
    then have "planned_region d (StRegionName st, ri\<lparr>scheduleReplicas := StUpdatedReplicas st\<rparr>)"
      by (simp add: planned_region_def)
    with m m' show "?I m'" by (simp add: list_all_set_key)
  qed
  with info show ?thesis by simp
qed


text \<open>One region with two replicas, each asking for a CPU.\<close>

definition busy_app :: extended_deployment where
  "busy_app = zero_ED\<lparr>Spec := zero_ed_spec\<lparr>Replicas := Some 2,
     Regions := [\<lparr>RegionName = ''r1'', RegionReplicas = Some (IntVal 2)\<rparr>],
     Template := zero_template\<lparr>TemplateSpec := zero_pod_spec\<lparr>Containers :=
       [\<lparr>CName = ''c'', CImage = [], CRequests = small_request, CLimits = [], CRest = []\<rparr>]\<rparr>\<rparr>\<rparr>\<rparr>"

lemma busy_app_plan: "\<exists>info. NewScheduleRegionInfo sample_ext one_cache busy_app [] = (Ok info, [])"
proof -
  have parse: "ParseRegionReplicas 2 (IntVal 2) = Inr 2" by (simp add: ParseRegionReplicas_def)
  have "ApplyOverridePolicies sample_ext ''r1'' busy_app = Some (Template (Spec busy_app))"
    by (simp add: ApplyOverridePolicies_def busy_app_def zero_values)
  moreover have "Containers (TemplateSpec (Template (Spec busy_app))) =
      [\<lparr>CName = ''c'', CImage = [], CRequests = small_request, CLimits = [], CRest = []\<rparr>]"
    by (simp add: busy_app_def)
  moreover have "Add EmptyResource small_request =
      \<lparr>MilliCPU = 1000, Memory = 1024, EphemeralStorage = 0, AllowedPodNumber = 0\<rparr>"
    by (simp add: Add_def small_request_def EmptyResource_def ResourceCPU_def ResourceMemory_def i64_def)
  moreover have "i64 2024 \<noteq> 0" by (simp add: i64_def)
  ultimately have "\<exists>r. RequestResourceByRegion sample_ext busy_app ''r1'' [] = (Ok r, [])"
    by (simp add: RequestResourceByRegion_def io_defs)
  then obtain r where r: "RequestResourceByRegion sample_ext busy_app ''r1'' [] = (Ok r, [])" by blast
  have b: "Regions (Spec busy_app) = [\<lparr>RegionName = ''r1'', RegionReplicas = Some (IntVal 2)\<rparr>]"
    "Replicas (Spec busy_app) = Some 2" "StatusRegions (Status busy_app) = []" "IsSynced one_cache"
    by (simp_all add: busy_app_def zero_values IsSynced_def one_cache_def)
  show ?thesis
    by (simp add: NewScheduleRegionInfo_def scheduleRegion_def b parse) (simp add: bind_io_def r ret_def)
qed


section \<open>What the reschedule controller writes\<close>

text \<open>
  A write of the ExtendedDeployment changes at most the annotation of the plan, a write of its
  status at most the condition \<open>Reschedule\<close>; subsets are only adopted or released.
\<close>

definition plan_request :: "extended_deployment \<Rightarrow> req \<Rightarrow> bool" where
  "plan_request d q = (case q of
     UpdateED d' \<Rightarrow> Spec d' = Spec d \<and> Status d' = Status d \<and>
       (\<forall>k. k \<noteq> AnnotationReschedule \<longrightarrow> mget (Annotations d') k = mget (Annotations d) k)
   | UpdateEDStatus d' \<Rightarrow> Spec d' = Spec d \<and> (\<forall>t. t \<noteq> DeploymentReschedule \<longrightarrow>
       GetDeploymentCondition (Status d') t = GetDeploymentCondition (Status d) t)
   | UpdateSet _ \<Rightarrow> True | GetED _ \<Rightarrow> True | ListSets _ \<Rightarrow> True | ListPods _ \<Rightarrow> True
   | ListRegions \<Rightarrow> True | Now \<Rightarrow> True | Event _ \<Rightarrow> True
   | _ \<Rightarrow> False)"

lemma plan_request_reads [simp]:
  "plan_request d (UpdateSet w)" "plan_request d (GetED k)" "plan_request d (ListSets k)"
  "plan_request d (ListPods k)" "plan_request d ListRegions" "plan_request d Now" "plan_request d (Event e)"
  by (simp_all add: plan_request_def)

text \<open>A deployment that differs from the given one in the annotation of the plan at most.\<close>

definition replanned :: "extended_deployment \<Rightarrow> extended_deployment \<Rightarrow> bool" where
  "replanned d d' \<longleftrightarrow> Spec d' = Spec d \<and> Status d' = Status d \<and>
     (\<forall>k. k \<noteq> AnnotationReschedule \<longrightarrow> mget (Annotations d') k = mget (Annotations d) k)"

lemma emits_updateDeployment: "replanned d d' \<Longrightarrow> emits (plan_request d) (updateDeployment S d')"
  unfolding updateDeployment_def by (intro emits_intros) (simp add: plan_request_def replanned_def)

lemma emits_conditionWrite:
  assumes "replanned d d'" and "emits (plan_request d) m"
    and "\<And>e h h'. m h = (Ok e, h') \<Longrightarrow> \<exists>c. e = d'\<lparr>Status := SetDeploymentCondition (Status d') c\<rparr> \<and>
      CondType c = DeploymentReschedule"
  shows "emits (plan_request d) (bind_io m (updateDeploymentStatus S))"
proof (rule emits_bind_ok [OF assms(2)])
  fix e h h' assume "m h = (Ok e, h')"
  then obtain c where c: "e = d'\<lparr>Status := SetDeploymentCondition (Status d') c\<rparr>" "CondType c = DeploymentReschedule"
    using assms(3) by blast
  have "plan_request d (UpdateEDStatus e)"
    using assms(1) c
    by (simp add: plan_request_def replanned_def GetDeploymentCondition_def SetDeploymentCondition_def
        deploy_conds.get_set_other)
  then show "emits (plan_request d) (updateDeploymentStatus S e)"
    unfolding updateDeploymentStatus_def by (rule emits_call)
qed

lemma newCondition_type: "NewDeploymentCondition S t st r msg h = (Ok c, h') \<Longrightarrow> CondType c = t"
  by (auto simp: NewDeploymentCondition_def elim!: bind_OkE)

lemma emits_SetCondition:
  "replanned d d' \<Longrightarrow> emits (plan_request d) (bind_io (SetRescheduleCondition S d' t) (updateDeploymentStatus S))"
  by (rule emits_conditionWrite)
    (auto simp: SetRescheduleCondition_def intro!: emits_intros elim!: bind_OkE dest: newCondition_type
      split: prod.splits)

lemma emits_DelCondition:
  "replanned d d' \<Longrightarrow> emits (plan_request d) (bind_io (DelRescheduleCondition S d') (updateDeploymentStatus S))"
  by (rule emits_conditionWrite)
    (auto simp: DelRescheduleCondition_def intro!: emits_intros elim!: bind_OkE dest: newCondition_type)

lemma replanned_refl [simp]: "replanned d d"
  by (simp add: replanned_def)

lemma replanned_Del [simp]: "replanned d (d\<lparr>Annotations := snd (DelAutoScheduleSpec (Annotations d))\<rparr>)"
  by (simp add: replanned_def DelAutoScheduleSpec_def)

lemma replanned_Set: "replanned d d' \<Longrightarrow> replanned d (SetRescheduleAnnotation X info d')"
  by (simp add: replanned_def SetRescheduleAnnotation_def SetAutoScheduleSpec_def)

lemma emits_claim: "emits (plan_request d) (ClaimOwnedObjects S X mgr objs)"
  by (rule emits_mono [OF emits_ClaimOwnedObjects]) (auto simp: claim_request_def)

lemma emits_resched_convert: "emits P (convertToSubset (resched_adapter X t) w)"
proof -
  define C where "C = \<lparr>Srv = sample_server, Ext = X, Adp = resched_adapter X t, DisableInplaceUpdate = False\<rparr>"
  have "\<exists>t'. subSetControls X t' = Some (resched_adapter X t)"
    by (cases t) (auto simp: resched_adapter_def subSetControls_def intro: exI [of _ InPlaceSetSubsetType]
        exI [of _ DeploymentSubsetType] exI [of _ ReplicaSetSubsetType])
  then have "valid_ctl C" unfolding valid_ctl_def by (auto simp: C_def)
  then have "emits P (convertToSubset (Adp C) w)" by (rule emits_convert)
  then show ?thesis by (simp add: C_def)
qed

lemma emits_case_prod_app [emits_intros]:
  "(\<And>a b. p = (a, b) \<Longrightarrow> emits P (f a b s)) \<Longrightarrow> emits P ((case p of (a, b) \<Rightarrow> f a b) s)"
  by (cases p) auto

lemma emits_QuerySubsets: "emits (plan_request d) (resched_QuerySubsets S X d')"
  unfolding resched_QuerySubsets_def resched_checkRegions_def resched_getAllSubsets_def
    resched_groupSubset_def resched_templateEqual_def
  by (intro emits_intros emits_for emits_claim emits_resched_convert plan_request_reads)

lemma emits_scan: "emits (plan_request d) (scanRegions S X n rm sm t)"
  unfolding scanRegions_def scanSubset_def QueryInsufficientPodsBySubset_def
  by (intro emits_intros emits_for plan_request_reads)

lemma emits_bestRegion [emits_intros]: "emits P (bestRegion m ts b)"
  by (induction ts arbitrary: b) (auto intro!: emits_intros split: option.split)

lemma emits_reschedule [emits_intros]: "emits P (reschedule ts n m)"
proof -
  have "emits P (rescheduleLoop ts k m)" for k
    by (induction k arbitrary: m) (auto intro!: emits_intros split: option.split)
  then show ?thesis by (simp add: reschedule_def)
qed

lemma emits_plan: "emits (plan_request d) (planTransfer X cch rm ip d')"
  unfolding planTransfer_def NewScheduleRegionInfo_def scheduleRegion_def RequestResourceByRegion_def
    reportFailure_def RescheduleFailedRegions_def RescheduleInsufficientPods_def handOver_def
  by (intro emits_intros emits_for plan_request_reads)

lemma planTransfer_replanned:
  "planTransfer X cch rm ip d' h = (Ok e, h') \<Longrightarrow> replanned d d' \<Longrightarrow> replanned d e"
  by (auto simp: planTransfer_def intro: replanned_Set elim!: bind_OkE)

lemma CheckAnnotation_replanned:
  "CheckAnnotation X d h = (Ok (t, b, d'), h') \<Longrightarrow> replanned d d'"
  by (auto simp: CheckAnnotation_def elim!: bind_OkE split: option.splits if_splits)

lemma emits_CheckAnnotation [emits_intros]: "emits P (CheckAnnotation X d)"
  unfolding CheckAnnotation_def by (intro emits_intros)

lemma emits_rescheduleOff: "emits (plan_request d) (rescheduleOff S d)"
proof -
  have "replanned d (d\<lparr>Annotations := anno\<rparr>)" if "DelAutoScheduleSpec (Annotations d) = (b, anno)" for b anno
    using replanned_Del [of d] that by simp
  then show ?thesis unfolding rescheduleOff_def
    by (intro emits_intros emits_updateDeployment emits_DelCondition) auto
qed


section \<open>A transfer is never undone\<close>

text \<open>
  The names of the failed regions are appended to a copy of the plan, so the annotation records no
  failed region. Once the regions have recovered and the flag is removed, the plan is taken for one
  made for lack of resources, and as long as all pods start the controller leaves it in place: the
  replicas do not move back.
\<close>

lemma plan_without_failures:
  assumes "planTransfer X cch rm ip d h = (Ok d', h')"
  shows "\<exists>info. d' = SetRescheduleAnnotation X info d \<and> failedRegions info = []"
proof -
  have report: "reportFailure m g = (Ok y, g') \<Longrightarrow> m g = (Ok y, g')" for m :: "'b action" and g y g'
    by (auto simp: reportFailure_def attempt_def elim!: bind_OkE split: prod.splits res.splits sum.splits)
  from assms obtain i1 g1 i2 g2 i3 g3 where 1: "NewScheduleRegionInfo X cch d h = (Ok i1, g1)"
    and 2: "reportFailure (RescheduleFailedRegions rm i1) g1 = (Ok i2, g2)"
    and 3: "reportFailure (RescheduleInsufficientPods ip i2) g2 = (Ok i3, g3)"
    and d': "d' = SetRescheduleAnnotation X i3 d"
    unfolding planTransfer_def by (auto elim!: bind_OkE)
  have "failedRegions i1 = []" using 1 by (auto simp: NewScheduleRegionInfo_def elim!: bind_OkE)
  then have "failedRegions i2 = []"
    using report [OF 2]
    by (auto simp: RescheduleFailedRegions_def elim!: bind_OkE split: if_splits prod.splits)
  then have "failedRegions i3 = []"
    using report [OF 3] by (auto simp: RescheduleInsufficientPods_def handOver_def Let_def elim!: bind_OkE)
  with d' show ?thesis by blast
qed

theorem failover_is_not_undone:
  assumes "planTransfer X cch rm ip d h = (Ok planned, h')"
    and "\<And>s. is_i64 (SchedGeneration s) \<Longrightarrow> \<exists>t. unmarshalSchedule X (marshalSchedule X s) = Inr t \<and>
      SchedGeneration t = SchedGeneration s \<and> FailureRegion t = FailureRegion s"
    and "is_i64 (Generation d)" and "recovered = planned\<lparr>Annotations := mdel AnnotationFailedFlag (Annotations planned)\<rparr>"
  shows "CheckAnnotation X recovered = ret (RescheduleForResourceInsufficient, True, recovered)"
proof -
  obtain info where info: "planned = SetRescheduleAnnotation X info d" "failedRegions info = []"
    using plan_without_failures [OF assms(1)] by blast
  let ?s = "scheduleSpec info (Generation d)"
  have s: "FailureRegion ?s = []" "SchedGeneration ?s = Generation d"
    using info(2) by (simp_all add: scheduleSpec_def makeEmptyAutoScheduleSpec_def Let_def)
  obtain t where t: "unmarshalSchedule X (marshalSchedule X ?s) = Inr t" "SchedGeneration t = Generation d"
    "FailureRegion t = []"
    using assms(2) [of ?s] assms(3) s by auto
  have "AnnotationReschedule \<noteq> AnnotationFailedFlag"
    by (simp add: AnnotationReschedule_def AnnotationFailedFlag_def)
  then have "mget (Annotations recovered) AnnotationReschedule = Some (marshalSchedule X ?s)"
    by (simp add: assms(4) info(1) SetRescheduleAnnotation_def SetAutoScheduleSpec_def)
  moreover have "\<not> snd (GetFailedFlag (Annotations recovered))" "Generation recovered = Generation d"
    by (simp_all add: assms(4) info(1) GetFailedFlag_def SetRescheduleAnnotation_def)
  ultimately show ?thesis
    using t by (simp add: CheckAnnotation_def GetAutoScheduleSpec_def)
qed

lemma digit_not_comma: "d < 10 \<Longrightarrow> digit_char d \<noteq> CHR '',''"
  using digit_val_char [of d] by (auto simp: digit_val_def)

lemma Itoa_no_comma: "CHR '','' \<notin> set (Itoa i)"
proof -
  have "CHR '','' \<notin> set (show_nat n)" for n
    using show_nat_digits [of "CHR '',''" n] digit_not_comma by metis
  then show ?thesis by (simp add: Itoa_def)
qed

lemma sample_ext_schedule:
  assumes "is_i64 (SchedGeneration s)"
  shows "\<exists>t. unmarshalSchedule sample_ext (marshalSchedule sample_ext s) = Inr t \<and>
    SchedGeneration t = SchedGeneration s \<and> FailureRegion t = FailureRegion s"
proof -
  let ?g = "Itoa (SchedGeneration s)"
  have pre: "\<forall>c \<in> set ?g. c \<noteq> CHR '',''" using Itoa_no_comma by metis
  have "takeWhile (\<lambda>c. c \<noteq> CHR '','') (?g @ CHR '','' # FailureRegion s) = ?g"
    using pre by (subst takeWhile_append2) auto
  moreover have "dropWhile (\<lambda>c. c \<noteq> CHR '','') (?g @ CHR '','' # FailureRegion s) = CHR '','' # FailureRegion s"
    using pre by (subst dropWhile_append2) auto
  moreover have "ParseInt_sum ?g 64 = Inr (SchedGeneration s)"
    using ParseInt_Itoa [of 64 "SchedGeneration s"] assms by (simp add: ParseInt_sum_def is_i64_def)
  ultimately show ?thesis by (simp add: sample_ext_def)
qed

theorem failover_is_not_undone_witness:
  "\<exists>planned h' recovered. planTransfer sample_ext one_cache [(''r1'', True)] [] zero_ED [] = (Ok planned, h') \<and>
     recovered = planned\<lparr>Annotations := mdel AnnotationFailedFlag (Annotations planned)\<rparr> \<and>
     CheckAnnotation sample_ext recovered = ret (RescheduleForResourceInsufficient, True, recovered)"
proof -
  have "\<exists>planned h'. planTransfer sample_ext one_cache [(''r1'', True)] [] zero_ED [] = (Ok planned, h')"
    by (simp add: planTransfer_def NewScheduleRegionInfo_def reportFailure_def RescheduleFailedRegions_def
        RescheduleInsufficientPods_def handOver_def reschedule_def zero_values io_defs)
  then obtain planned h' where p: "planTransfer sample_ext one_cache [(''r1'', True)] [] zero_ED [] = (Ok planned, h')"
    by blast
  have g: "is_i64 (Generation zero_ED)" by (simp add: zero_values is_i64_def)
  show ?thesis using p failover_is_not_undone [OF p sample_ext_schedule g refl] by blast
qed

end
