(* ===== verification/PlanFlow.thy ===== *)
theory PlanFlow
  imports FailureFlag Reconcile
begin

text \<open>
  From a plan to the regions: the reschedule controller writes a plan as an annotation, the
  ExtendedDeployment controller reads it in \<open>groupSubset\<close>. Both parse the regions of the
  specification for themselves; the theory shows that they read the same counts, and that a
  transfer out of failed or full regions keeps the total of the desired replicas.
\<close>

section \<open>Loops seen through a view of their state\<close>

lemma for_io_view:
  assumes "for_io f xs s h = (Ok s', h')"
    and "\<And>x s h t h'. x \<in> set xs \<Longrightarrow> f x s h = (Ok t, h') \<Longrightarrow> view t = g x (view s)"
  shows "view s' = fold g xs (view s)"
  using assms
proof (induction xs arbitrary: s h)
  case (Cons x xs)
  then obtain t h1 where "f x s h = (Ok t, h1)" and "for_io f xs t h1 = (Ok s', h')"
    by (auto elim!: bind_OkE)
  with Cons.IH [of t h1] Cons.prems(2) have "view s' = fold g xs (view t)" "view t = g x (view s)"
    by (auto intro: Cons.prems(2))
  then show ?case by simp
qed simp

lemma map_set_key:
  "map (\<lambda>(k, v). (k, f v)) (mset_key k v m) = mset_key k (f v) (map (\<lambda>(k, v). (k, f v)) m)"
  by (induction m) (auto simp: mset_key_def)

lemma set_key_same: "mget m k = Some v \<Longrightarrow> mset_key k v m = m"
  by (induction m) (auto simp: mset_key_def split: if_splits)

lemma mget_map: "mget (map (\<lambda>(k, v). (k, f v)) m) k = map_option f (mget m k)"
  by (induction m) auto

section \<open>The counts of a specification\<close>

text \<open>The replicas each region of a specification asks for, as both controllers parse them.\<close>

definition count_of :: "extended_deployment \<Rightarrow> region \<Rightarrow> int" where
  "count_of d r = (case (Replicas (Spec d), RegionReplicas r) of
     (Some n, Some v) \<Rightarrow> (case ParseRegionReplicas n v of Inr k \<Rightarrow> k | Inl _ \<Rightarrow> 0)
   | _ \<Rightarrow> 0)"

definition configured :: "extended_deployment \<Rightarrow> int gomap" where
  "configured d = fold (\<lambda>r. mset_key (RegionName r) (count_of d r)) (Regions (Spec d)) []"

lemma distinct_configured: "distinct (map fst (configured d))"
proof -
  have "distinct (map fst m) \<Longrightarrow> distinct (map fst (fold (\<lambda>r. mset_key (RegionName r) (count_of d r)) rs m))"
    for rs m by (induction rs arbitrary: m) auto
  then show ?thesis by (simp add: configured_def)
qed

lemma ParseRegionReplicas_nonneg:
  assumes "ParseRegionReplicas n v = Inr k" and "is_i32 n"
  shows "0 \<le> k"
proof (cases v)
  case (IntVal i)
  with assms show ?thesis by (auto simp: ParseRegionReplicas_def split: if_splits)
next
  case (StrVal s)
  with assms obtain p where p: "0 \<le> p" "p \<le> 100" "0 \<le> n" "k = i32 (round_go (of_int n * of_int p / 100))"
    by (auto simp: ParseRegionReplicas_def Let_def not_less split: if_splits sum.splits)
  then have "0 \<le> (n * p + 50) div 100" "(n * p + 50) div 100 \<le> n"
    using mult_left_mono [OF p(2,3)] mult_nonneg_nonneg [OF p(3,1)] by auto
  with p(4) assms(2) show ?thesis by (simp add: round_go_percent i32_idI is_i32_def)
qed

lemma configured_nonneg:
  assumes "\<forall>n. Replicas (Spec d) = Some n \<longrightarrow> is_i32 n" and "(k, n) \<in> set (configured d)"
  shows "0 \<le> n"
proof -
  have "0 \<le> count_of d r" for r
    using assms(1) ParseRegionReplicas_nonneg by (auto simp: count_of_def split: option.split sum.split)
  note nonneg = this
  have "\<forall>(k, n) \<in> set m. 0 \<le> n \<Longrightarrow>
      \<forall>(k, n) \<in> set (fold (\<lambda>r. mset_key (RegionName r) (count_of d r)) rs m). 0 \<le> n" for rs m
  proof (induction rs arbitrary: m)
    case (Cons r rs)
    have "\<forall>(k, n) \<in> set (mset_key (RegionName r) (count_of d r) m). 0 \<le> n"
      using Cons.prems nonneg by (auto simp: mset_key_def dest!: set_update_subset)
    from Cons.IH [OF this] show ?case by simp
  qed simp
  from this [of "[]" "Regions (Spec d)"] assms(2) show ?thesis unfolding configured_def by auto
qed

text \<open>Both controllers start from these counts.\<close>

lemma build_configured:
  assumes "buildRegionInfo d rm h = (Ok mp, h')"
  shows "map (\<lambda>(k, ri). (k, (ConfiguredReplicas ri, DesiredReplicas ri))) mp = map (\<lambda>(k, n). (k, (n, n))) (configured d)"
proof -
  let ?view = "map (\<lambda>(k, ri). (k, (ConfiguredReplicas ri, DesiredReplicas ri))) :: region_info gomap \<Rightarrow> _"
  have "?view mp = fold (\<lambda>r. mset_key (RegionName r) (count_of d r, count_of d r)) (Regions (Spec d)) (?view [])"
    by (rule for_io_view [OF assms [unfolded buildRegionInfo_def], where view = ?view])
      (auto simp: map_set_key count_of_def elim!: bind_OkE)
  moreover have "fold (\<lambda>r. mset_key (RegionName r) (count_of d r, count_of d r)) rs (map (\<lambda>(k, n). (k, (n, n))) m) =
      map (\<lambda>(k, n). (k, (n, n))) (fold (\<lambda>r. mset_key (RegionName r) (count_of d r)) rs m)" for rs m
    by (induction rs arbitrary: m)
      (simp_all add: map_set_key [where f = "\<lambda>n. (n, n)", symmetric])
  from this [of _ "[]"] have "fold (\<lambda>r. mset_key (RegionName r) (count_of d r, count_of d r)) (Regions (Spec d)) [] =
      map (\<lambda>(k, n). (k, (n, n))) (configured d)" by (simp add: configured_def)
  ultimately show ?thesis by simp
qed

lemma plan_configured:
  assumes "NewScheduleRegionInfo X cch d h = (Ok info, h')"
  shows "map (\<lambda>(k, r). (k, configReplicas r)) (regionsInfo info) = configured d"
proof -
  let ?view = "map (\<lambda>(k, r). (k, configReplicas r)) :: scheduleRegionInfo gomap \<Rightarrow> _"
  obtain m1 h1 m2 where 1: "for_io (scheduleRegion X cch d) (Regions (Spec d)) [] h = (Ok m1, h1)"
    and 2: "for_io (\<lambda>st m. bind_io (deref (mget m (StRegionName st))) (\<lambda>ri.
         ret (mset_key (StRegionName st) (ri\<lparr>scheduleReplicas := StUpdatedReplicas st\<rparr>) m)))
       (StatusRegions (Status d)) m1 h1 = (Ok m2, h')" and info: "regionsInfo info = m2"
    using assms unfolding NewScheduleRegionInfo_def by (auto elim!: bind_OkE)
  have "?view m1 = fold (\<lambda>r. mset_key (RegionName r) (count_of d r)) (Regions (Spec d)) (?view [])"
    by (rule for_io_view [OF 1, where view = ?view])
      (auto simp: scheduleRegion_def map_set_key count_of_def elim!: bind_OkE split: if_splits)
  moreover have "?view m2 = fold (\<lambda>_ v. v) (StatusRegions (Status d)) (?view m1)"
    by (rule for_io_view [OF 2, where view = ?view]) (auto simp: map_set_key mget_map set_key_same elim!: bind_OkE)
  moreover have "fold (\<lambda>_ v. v) xs (v :: int gomap) = v" for xs :: "region_status list" and v
    by (induction xs) simp_all
  ultimately show ?thesis using info by (simp add: configured_def)
qed

section \<open>The desired replicas of the regions\<close>

abbreviation counts :: "region_info gomap \<Rightarrow> (int \<times> int) gomap" where
  "counts \<equiv> map (\<lambda>(k, ri). (k, (ConfiguredReplicas ri, DesiredReplicas ri)))"

definition planned_count :: "AutoScheduleSpec option \<Rightarrow> string \<Rightarrow> int \<Rightarrow> int" where
  "planned_count spec k n = (case spec of
     None \<Rightarrow> n
   | Some sp \<Rightarrow> (case mget (Infos sp) k of None \<Rightarrow> n | Some s \<Rightarrow> DesiredReplicas_of s))"

lemma counts_put:
  assumes "mget (regionInfoMap m) k = Some ri" and "ConfiguredReplicas ri' = ConfiguredReplicas ri"
    and "DesiredReplicas ri' = DesiredReplicas ri"
  shows "counts (regionInfoMap (put_region k ri' m)) = counts (regionInfoMap m)"
  using assms by (simp add: put_region_def map_set_key set_key_same mget_map)

lemma counts_assign:
  assumes "assignSubset C cd ss m h = (Ok m', h')"
  shows "counts (regionInfoMap m') = counts (regionInfoMap m)"
  using assignSubset_cases [OF assms] counts_put by fastforce

lemma regionState_counts [simp]:
  "ConfiguredReplicas (regionState X ri) = ConfiguredReplicas ri"
  "DesiredReplicas (regionState X ri) = DesiredReplicas ri"
  by (auto simp: regionState_def Let_def split: option.splits prod.splits bool.splits)

lemma counts_resched:
  "counts (map (reschedRegion sp) m) = map (\<lambda>(k, (n, n')). (k, (n, planned_count (Some sp) k n'))) (counts m)"
  by (auto simp: reschedRegion_def planned_count_def split: option.split)

lemma counts_state: "counts (map (\<lambda>(n, ri). (n, regionState X ri)) m) = counts m"
  by auto

text \<open>
  The ExtendedDeployment controller gives each region of the specification, once, the replicas the
  plan in the annotation has for it, and the replicas the specification asks for when there is no
  plan or the plan does not name the region.
\<close>

lemma regions_follow_plan:
  assumes "groupSubset C d dr m h = (Ok m', h')"
  shows "\<exists>spec. GetAutoScheduleSpec (Ext C) (Annotations d) = Inr spec \<and>
    counts (regionInfoMap m') = map (\<lambda>(k, n). (k, (n, planned_count spec k n))) (configured d)"
proof -
  from assms obtain mp h1 m1 h2 spec where
    1: "buildRegionInfo d dr h = (Ok mp, h1)" and
    2: "for_io (assignSubset C d) (allSubsets m) (m\<lparr>regionInfoMap := mp, unusedSubsets := []\<rparr>) h1 = (Ok m1, h2)" and
    spec: "GetAutoScheduleSpec (Ext C) (Annotations d) = Inr spec" and
    m': "m' = (let m = (case spec of
           None \<Rightarrow> m1
         | Some sp \<Rightarrow> m1\<lparr>autoScheduleSpec := Some sp,
             regionInfoMap := map (reschedRegion sp) (regionInfoMap m1)\<rparr>)
     in m\<lparr>regionInfoMap := map (\<lambda>(n, ri). (n, regionState (Ext C) ri)) (regionInfoMap m)\<rparr>)"
    by (auto simp: groupSubset_def Let_def elim!: bind_OkE)
  have "counts (regionInfoMap m1) = fold (\<lambda>_ v. v) (allSubsets m) (counts mp)"
    using for_io_view [OF 2, of "\<lambda>m. counts (regionInfoMap m)" "\<lambda>_ v. v"] counts_assign by simp
  moreover have "fold (\<lambda>_ v. v) xs (v :: (int \<times> int) gomap) = v" for xs :: "subset list" and v
    by (induction xs) simp_all
  ultimately have m1: "counts (regionInfoMap m1) = map (\<lambda>(k, n). (k, (n, n))) (configured d)"
    using build_configured [OF 1] by simp
  have "counts (regionInfoMap m') = map (\<lambda>(k, n). (k, (n, planned_count spec k n))) (configured d)"
  proof (cases spec)
    case None
    with m' have "regionInfoMap m' = map (\<lambda>(n, ri). (n, regionState (Ext C) ri)) (regionInfoMap m1)" by simp
    then show ?thesis using m1 None by (simp only: counts_state) (simp add: planned_count_def)
  next
    case (Some sp)
    with m' have "regionInfoMap m' =
        map (\<lambda>(n, ri). (n, regionState (Ext C) ri)) (map (reschedRegion sp) (regionInfoMap m1))" by simp
    then show ?thesis using m1 Some by (simp only: counts_state counts_resched) auto
  qed
  with spec show ?thesis by blast
qed

section \<open>Reading a plan\<close>

definition config_counts :: "scheduleRegionInfo gomap \<Rightarrow> int gomap" where
  "config_counts = map (\<lambda>(k, r). (k, configReplicas r))"

text \<open>
  A plan that keeps the total: counts are not negative and the planned replicas add up to the
  configured ones, which fit an \<open>int32\<close>.
\<close>

definition balanced :: "scheduleRegionInfo gomap \<Rightarrow> bool" where
  "balanced m \<longleftrightarrow> distinct (map fst m) \<and>
     (\<forall>(k, r) \<in> set m. 0 \<le> configReplicas r \<and> 0 \<le> rescheduleReplicas r \<and> AllocatablePod r \<le> MaxInt64) \<and>
     (\<Sum>(_, r) \<leftarrow> m. rescheduleReplicas r) = (\<Sum>(_, r) \<leftarrow> m. configReplicas r) \<and>
     (\<Sum>(_, r) \<leftarrow> m. configReplicas r) \<le> MaxInt32"

lemma member_le_total:
  fixes f :: "'v \<Rightarrow> int"
  assumes "\<forall>(k, r) \<in> set m. 0 \<le> f r" and "(k, r) \<in> set m"
  shows "f r \<le> (\<Sum>(_, r) \<leftarrow> m. f r)"
proof -
  have "f r \<in> set (map (\<lambda>(_, r). f r) m)" using assms(2) by force
  moreover have "\<forall>n \<in> set (map (\<lambda>(_, r). f r) m). 0 \<le> n" using assms(1) by auto
  ultimately show ?thesis by (intro member_le_sum_list) auto
qed

lemma balancedD:
  assumes "balanced m" and "(k, r) \<in> set m"
  shows "0 \<le> configReplicas r" "configReplicas r \<le> MaxInt32" "0 \<le> rescheduleReplicas r"
    "rescheduleReplicas r \<le> MaxInt32"
proof -
  have "\<forall>(k, r) \<in> set m. 0 \<le> configReplicas r" "\<forall>(k, r) \<in> set m. 0 \<le> rescheduleReplicas r"
    using assms(1) by (auto simp: balanced_def)
  from member_le_total [OF this(1) assms(2)] member_le_total [OF this(2) assms(2)] assms
  show "0 \<le> configReplicas r" "configReplicas r \<le> MaxInt32" "0 \<le> rescheduleReplicas r"
    "rescheduleReplicas r \<le> MaxInt32" by (auto simp: balanced_def)
qed

text \<open>
  What is relied on of JSON: a plan whose numbers fit their Go types is decoded to the plan that was
  encoded, up to the order of the map.
\<close>

definition reads_back :: "ext \<Rightarrow> bool" where
  "reads_back X \<longleftrightarrow> (\<forall>s. is_i64 (SchedGeneration s) \<and> (\<forall>(k, v) \<in> set (Infos s). is_i32 (Config v) \<and> is_i32 (Schedule v)) \<longrightarrow>
     (\<exists>t. unmarshalSchedule X (marshalSchedule X s) = Inr t \<and> (\<forall>k. mget (Infos t) k = mget (Infos s) k)))"

text \<open>The regions of the ExtendedDeployment controller have the counts of a balanced plan.\<close>

lemma plan_is_read:
  assumes "groupSubset C (SetRescheduleAnnotation (Ext C) info d) dr m h = (Ok m', h')"
    and "reads_back (Ext C)" and "is_i64 (Generation d)"
    and "config_counts (regionsInfo info) = configured d" and "balanced (regionsInfo info)"
  shows "counts (regionInfoMap m') =
    map (\<lambda>(k, r). (k, (configReplicas r, rescheduleReplicas r))) (regionsInfo info)"
proof -
  let ?sp = "scheduleSpec info (Generation d)" and ?d = "SetRescheduleAnnotation (Ext C) info d"
  have dist: "distinct (map fst (regionsInfo info))" using assms(5) by (simp add: balanced_def)
  have infos: "Infos ?sp = map (\<lambda>(k, r). (k, schedule_of r)) (regionsInfo info)"
    by (rule Infos_scheduleSpec [OF dist])
  have "is_i32 (Config (schedule_of r)) \<and> is_i32 (Schedule (schedule_of r))" if "(k, r) \<in> set (regionsInfo info)" for k r
    using balancedD(1,2) [OF assms(5) that] by (simp add: schedule_of_def is_i32_def [of "configReplicas r"] MaxInt32_def)
  then have ints: "\<forall>(k, v) \<in> set (Infos ?sp). is_i32 (Config v) \<and> is_i32 (Schedule v)"
    unfolding infos by auto
  have "SchedGeneration ?sp = Generation d"
    by (simp add: scheduleSpec_def makeEmptyAutoScheduleSpec_def Let_def)
  then obtain t where t: "unmarshalSchedule (Ext C) (marshalSchedule (Ext C) ?sp) = Inr t"
    and same: "\<And>k. mget (Infos t) k = mget (Infos ?sp) k"
    using assms(2) [unfolded reads_back_def, THEN spec, of ?sp] assms(3) ints by metis
  have spec: "GetAutoScheduleSpec (Ext C) (Annotations ?d) = Inr (Some t)"
    by (simp add: SetRescheduleAnnotation_def GetAutoScheduleSpec_Set t)
  have conf: "configured ?d = config_counts (regionsInfo info)"
    using assms(4) by (simp add: configured_def count_of_def SetRescheduleAnnotation_def)
  have "planned_count (Some t) k (configReplicas r) = rescheduleReplicas r"
    if "(k, r) \<in> set (regionsInfo info)" for k r
  proof -
    have "mget (regionsInfo info) k = Some r" using dist that by (simp add: map_of_eq_Some_iff)
    then show ?thesis using balancedD [OF assms(5) that]
      by (simp add: planned_count_def same infos mget_map desired_schedule_of)
  qed
  then have "map (\<lambda>(k, n). (k, (n, planned_count (Some t) k n))) (config_counts (regionsInfo info)) =
      map (\<lambda>(k, r). (k, (configReplicas r, rescheduleReplicas r))) (regionsInfo info)"
    by (auto simp: config_counts_def)
  with regions_follow_plan [OF assms(1)] spec conf show ?thesis by auto
qed

section \<open>Transfers keep the total\<close>

lemma sum_list_give:
  "(\<Sum>(_, r) \<leftarrow> map (give x) m. rescheduleReplicas r) = (\<Sum>(_, r) \<leftarrow> m. rescheduleReplicas r) + (\<Sum>(k, _) \<leftarrow> m. x k)"
  by (induction m) (auto simp: give_def)

lemma config_give [simp]: "config_counts (map (give x) m) = config_counts m"
  by (auto simp: config_counts_def give_def)

lemma sum_config: "(\<Sum>(_, r) \<leftarrow> m. configReplicas r) = (\<Sum>(_, n) \<leftarrow> config_counts m. n)"
  by (induction m) (auto simp: config_counts_def)

lemma balanced_give:
  assumes "distinct (map fst m)"
    and "\<forall>(k, r) \<in> set m. 0 \<le> configReplicas r \<and> 0 \<le> rescheduleReplicas r \<and> AllocatablePod r \<le> MaxInt64"
    and "spread m' ts n x" and "set ts \<subseteq> fst ` set m"
    and "(\<Sum>(_, r) \<leftarrow> m. rescheduleReplicas r) + n = (\<Sum>(_, r) \<leftarrow> m. configReplicas r)"
    and "(\<Sum>(_, r) \<leftarrow> m. configReplicas r) \<le> MaxInt32"
  shows "balanced (map (give x) m)"
proof -
  have "(\<Sum>(k, _) \<leftarrow> m. x k) = n" by (rule sum_given [OF assms(1,3,4)])
  moreover have "0 \<le> configReplicas r \<and> 0 \<le> rescheduleReplicas r \<and> AllocatablePod r \<le> MaxInt64"
    if kr: "(k, r) \<in> set (map (give x) m)" for k r
  proof -
    obtain r0 where r0: "(k, r0) \<in> set m" "(k, r) = give x (k, r0)"
      using kr by (auto simp: give_def)
    have "0 \<le> x k" using assms(3) by (simp add: spread_def)
    moreover have "0 \<le> configReplicas r0 \<and> 0 \<le> rescheduleReplicas r0 \<and> AllocatablePod r0 \<le> MaxInt64"
      using assms(2) r0(1) by blast
    ultimately show ?thesis using r0(2) by (simp add: give_def)
  qed
  then have "\<forall>(k, r) \<in> set (map (give x) m).
      0 \<le> configReplicas r \<and> 0 \<le> rescheduleReplicas r \<and> AllocatablePod r \<le> MaxInt64" by blast
  ultimately show ?thesis
    using assms by (simp only: balanced_def sum_list_give sum_config config_give fst_give)
qed

lemma cleared_total:
  assumes "\<forall>(k, r) \<in> set m. rescheduleReplicas r = configReplicas r"
  shows "(\<Sum>(_, r) \<leftarrow> map (cleared rm) m. rescheduleReplicas r) + failed_total rm m =
    (\<Sum>(_, r) \<leftarrow> m. configReplicas r)"
  using assms by (induction m) (auto simp: cleared_def)

lemma config_cleared [simp]: "config_counts (map (cleared rm) m) = config_counts m"
  by (auto simp: config_counts_def cleared_def)

lemma failover_balanced:
  assumes "fresh_plan info" and "rm \<noteq> []" and "RescheduleFailedRegions rm info h = (Ok info', h')"
  shows "balanced (regionsInfo info') \<and> config_counts (regionsInfo info') = config_counts (regionsInfo info) \<and>
    (\<forall>(k, r) \<in> set (regionsInfo info'). if failed_in rm k then rescheduleReplicas r = 0
       else configReplicas r \<le> rescheduleReplicas r)"
proof -
  let ?m = "regionsInfo info"
  note spec = RescheduleFailedRegions_spec [OF assms(1,2), of h]
  have "failed_total rm ?m \<le> room ?m (healthy rm ?m)" using spec assms(3) by (simp split: if_splits)
  then obtain x where run: "RescheduleFailedRegions rm info h =
      (Ok (info\<lparr>regionsInfo := map (give x) (map (cleared rm) ?m)\<rparr>), h)"
    and x: "spread ?m (healthy rm ?m) (failed_total rm ?m) x"
    using spec by (simp only: if_True) blast
  have info': "regionsInfo info' = map (give x) (map (cleared rm) ?m)" using run assms(3) by auto
  have fresh: "\<forall>(k, r) \<in> set ?m. 0 \<le> configReplicas r \<and> rescheduleReplicas r = configReplicas r \<and> AllocatablePod r \<le> MaxInt64"
    "distinct (map fst ?m)" "(\<Sum>(_, r) \<leftarrow> ?m. configReplicas r) \<le> MaxInt32"
    using assms(1) by (auto simp: fresh_plan_def)
  have "config_counts (regionsInfo info') = config_counts ?m"
    by (simp only: info' config_give config_cleared)
  moreover have "balanced (regionsInfo info')" unfolding info'
  proof (rule balanced_give [OF _ _ x])
    show "distinct (map fst (map (cleared rm) ?m))" using fresh(2) by (simp only: cleared_simps)
    show "\<forall>(k, r) \<in> set (map (cleared rm) ?m).
        0 \<le> configReplicas r \<and> 0 \<le> rescheduleReplicas r \<and> AllocatablePod r \<le> MaxInt64"
      using fresh(1) by (fastforce simp: cleared_def)
    show "set (healthy rm ?m) \<subseteq> fst ` set (map (cleared rm) ?m)"
      by (force simp: healthy_def cleared_def)
    show "(\<Sum>(_, r) \<leftarrow> map (cleared rm) ?m. rescheduleReplicas r) + failed_total rm ?m =
        (\<Sum>(_, r) \<leftarrow> map (cleared rm) ?m. configReplicas r)"
    proof -
      have "\<forall>(k, r) \<in> set ?m. rescheduleReplicas r = configReplicas r" using fresh(1) by blast
      from cleared_total [OF this] show ?thesis by (simp only: sum_config config_cleared)
    qed
    show "(\<Sum>(_, r) \<leftarrow> map (cleared rm) ?m. configReplicas r) \<le> MaxInt32"
      using fresh(3) by (simp only: sum_config config_cleared)
  qed
  moreover have "if failed_in rm k then rescheduleReplicas r = 0 else configReplicas r \<le> rescheduleReplicas r"
    if kr: "(k, r) \<in> set (regionsInfo info')" for k r
  proof -
    obtain r0 where r0: "(k, r0) \<in> set ?m" and r: "(k, r) = give x (cleared rm (k, r0))"
      using kr by (auto simp: info' give_def cleared_def)
    have "0 \<le> x k" "failed_in rm k \<Longrightarrow> x k = 0"
      using x healthy_not_failed [of k rm ?m] by (auto simp: spread_def)
    then show ?thesis using r r0 fresh(1) by (auto simp: give_def cleared_def split: if_splits)
  qed
  ultimately show ?thesis by blast
qed

text \<open>Regions with a shortage: part of the plan, still with their configured replicas, with no more pending pods than replicas.\<close>

definition short_region :: "scheduleRegionInfo gomap \<Rightarrow> string list \<Rightarrow> string \<times> pod list \<Rightarrow> bool" where
  "short_region m ts = (\<lambda>(k, pods). k \<notin> set ts \<and> (\<exists>r. mget m k = Some r \<and> rescheduleReplicas r = configReplicas r \<and>
     int (length pods) \<le> scheduleReplicas r \<and> scheduleReplicas r - int (length pods) \<le> configReplicas r \<and>
     scheduleReplicas r \<le> MaxInt32))"

lemma config_set_key:
  "mget m k = Some r \<Longrightarrow> config_counts (mset_key k (r\<lparr>rescheduleReplicas := n\<rparr>) m) = config_counts m"
  by (simp add: config_counts_def map_set_key set_key_same mget_map)

lemma sum_set_key:
  assumes "mget m k = Some r"
  shows "(\<Sum>(_, r) \<leftarrow> mset_key k (r\<lparr>rescheduleReplicas := n\<rparr>) m. rescheduleReplicas r) =
    (\<Sum>(_, r) \<leftarrow> m. rescheduleReplicas r) - rescheduleReplicas r + n"
  using sum_update_present [OF assms, of rescheduleReplicas "r\<lparr>rescheduleReplicas := n\<rparr>"]
  by (simp add: mset_key_def case_prod_unfold)

lemma handOver_balanced:
  assumes "balanced m" and "short_region m ts (k, pods)" and "\<forall>t \<in> set ts. mhas m t"
    and "handOver ts (k, pods) m h = (Ok m', h')"
  shows "balanced m' \<and> config_counts m' = config_counts m \<and> h' = h \<and>
    (\<forall>k'. k' \<notin> set ts \<longrightarrow> k' \<noteq> k \<longrightarrow> mget m' k' = mget m k') \<and>
    (\<exists>r r'. mget m k = Some r \<and> mget m' k = Some r' \<and> rescheduleReplicas r' = scheduleReplicas r - int (length pods))"
proof -
  obtain r where r: "mget m k = Some r" "rescheduleReplicas r = configReplicas r" "k \<notin> set ts"
    and s: "int (length pods) \<le> scheduleReplicas r" "scheduleReplicas r - int (length pods) \<le> configReplicas r"
      "scheduleReplicas r \<le> MaxInt32"
    using assms(2) by (auto simp: short_region_def)
  let ?s = "scheduleReplicas r - int (length pods)"
  let ?out = "configReplicas r - ?s" and ?m1 = "mset_key k (r\<lparr>rescheduleReplicas := ?s\<rparr>) m"
  have mem: "(k, r) \<in> set m" using r(1) by (rule map_of_SomeD)
  note b = balancedD [OF assms(1) mem]
  have i: "i32 ?s = ?s" "i32 ?out = ?out" using s b by (auto intro!: i32_idI simp: MaxInt32_def)
  have sums: "(\<Sum>(_, r) \<leftarrow> ?m1. rescheduleReplicas r) + ?out = (\<Sum>(_, r) \<leftarrow> ?m1. configReplicas r)"
    "(\<Sum>(_, r) \<leftarrow> ?m1. configReplicas r) \<le> MaxInt32"
    using assms(1) r(2) sum_set_key [OF r(1), of ?s] config_set_key [OF r(1), of ?s]
    by (auto simp: balanced_def sum_config)
  have dist: "distinct (map fst ?m1)" using assms(1) by (simp add: balanced_def)
  have each: "\<forall>(k, r) \<in> set ?m1. 0 \<le> configReplicas r \<and> 0 \<le> rescheduleReplicas r \<and> AllocatablePod r \<le> MaxInt64"
    using assms(1) s mem by (fastforce simp: balanced_def mset_key_def dest!: set_update_subset)
  have "countable_regions ?m1 (nat ?out)"
    unfolding countable_regions_def
  proof (intro conjI dist ballI, clarify)
    fix k' r' assume kr: "(k', r') \<in> set ?m1"
    have "rescheduleReplicas r' \<le> (\<Sum>(_, r) \<leftarrow> ?m1. rescheduleReplicas r)"
      using each by (intro member_le_total [OF _ kr]) blast
    then show "0 \<le> rescheduleReplicas r' \<and> rescheduleReplicas r' + int (nat ?out) \<le> MaxInt32 \<and> AllocatablePod r' \<le> MaxInt64"
      using each kr sums s by auto
  qed
  moreover have keys: "\<forall>t \<in> set ts. mhas ?m1 t" using assms(3) by simp
  moreover have run: "reschedule ts ?out ?m1 h = (Ok m', h')"
    using assms(4) r(1) by (auto simp: handOver_def i Let_def elim!: bind_OkE)
  ultimately obtain x where m': "m' = map (give x) ?m1" "h' = h" and x: "spread ?m1 ts ?out x"
    using rescheduleLoop_spec [of ?m1 "nat ?out" ts h] s unfolding reschedule_def by (auto split: if_splits)
  have x0: "x k' = 0" if "k' \<notin> set ts" for k' using x that by (simp add: spread_def)
  have raise_0: "raise 0 = (\<lambda>r. r)" by (rule ext) (simp add: raise_def)
  have "balanced m'" unfolding m'(1)
    by (rule balanced_give [OF dist each x _ sums]) (use keys in \<open>force simp: mhas_def dest: map_of_SomeD\<close>)
  moreover have "config_counts m' = config_counts m" unfolding m'(1) by (simp only: config_give config_set_key [OF r(1)])
  moreover have "mget m' k' = mget m k'" if "k' \<notin> set ts" "k' \<noteq> k" for k'
    using that x0 by (simp add: m'(1) mget_give raise_0 option.map_ident)
  moreover have "mget m' k = Some (raise 0 (r\<lparr>rescheduleReplicas := ?s\<rparr>))"
    using r(3) x0 by (simp add: m'(1) mget_give)
  ultimately show ?thesis using m'(2) r(1) by auto
qed

lemma mhas_config: "config_counts m' = config_counts m \<Longrightarrow> mhas m' k = mhas m k"
proof -
  assume "config_counts m' = config_counts m"
  then have "map_option configReplicas (mget m' k) = map_option configReplicas (mget m k)"
    unfolding config_counts_def mget_map [symmetric] by (rule arg_cong)
  then show ?thesis by (cases "mget m k"; cases "mget m' k") (simp_all add: mhas_def)
qed

lemma short_region_kept:
  assumes "short_region m ts (k, pods)" and "k \<notin> set ts \<Longrightarrow> mget m' k = mget m k"
  shows "short_region m' ts (k, pods)"
  using assms by (auto simp: short_region_def)

lemma short_loop:
  assumes "for_io (handOver ts) ins m h = (Ok m', h')" and "balanced m" and "\<forall>t \<in> set ts. mhas m t"
    and "distinct (map fst ins)" and "\<forall>p \<in> set ins. short_region m ts p"
  shows "balanced m' \<and> config_counts m' = config_counts m \<and> h' = h"
  using assms
proof (induction ins arbitrary: m h)
  case (Cons p ins)
  obtain k pods where p: "p = (k, pods)" by (cases p)
  obtain m1 h1 where 1: "handOver ts (k, pods) m h = (Ok m1, h1)" and 2: "for_io (handOver ts) ins m1 h1 = (Ok m', h')"
    using Cons.prems(1) unfolding for_io.simps p by (rule bind_OkE)
  have "short_region m ts (k, pods)" using Cons.prems(5) p by simp
  note step = handOver_balanced [OF Cons.prems(2) this Cons.prems(3) 1]
  have same: "mget m1 k' = mget m k'" if "k' \<notin> set ts" "k' \<noteq> k" for k'
    using step that by blast
  have bal: "balanced m1" and conf: "config_counts m1 = config_counts m" and h1: "h1 = h"
    using step by blast+
  have "short_region m1 ts q" if q: "q \<in> set ins" for q
  proof -
    obtain k' pods' where kq: "q = (k', pods')" by (cases q)
    have "k' \<in> fst ` set ins" using q kq by force
    moreover have "k \<notin> fst ` set ins" using Cons.prems(4) p by simp
    ultimately have "k' \<noteq> k" by blast
    moreover have "short_region m ts (k', pods')" using q kq Cons.prems(5) by simp
    ultimately show ?thesis unfolding kq using same by (blast intro: short_region_kept)
  qed
  moreover have "\<forall>t \<in> set ts. mhas m1 t" using Cons.prems(3) mhas_config [OF conf] by simp
  moreover have "distinct (map fst ins)" using Cons.prems(4) by simp
  ultimately have "balanced m' \<and> config_counts m' = config_counts m1 \<and> h' = h1"
    by (intro Cons.IH [OF 2 bal]) blast+
  then show ?case by (simp only: conf h1)
qed simp

lemma RescheduleInsufficientPods_loop:
  assumes "RescheduleInsufficientPods ins info h = (Ok info', h')"
  obtains ts where "for_io (handOver ts) ins (regionsInfo info) h = (Ok (regionsInfo info'), h')"
    and "set ts \<subseteq> fst ` set (regionsInfo info)" and "\<forall>t \<in> set ts. \<not> mhas ins t"
proof -
  define ts where "ts = map fst (filter (\<lambda>(k, r). \<not> mhas ins k \<and> \<not> rescheduleReplicas r < configReplicas r) (regionsInfo info))"
  have "for_io (handOver ts) ins (regionsInfo info) h = (Ok (regionsInfo info'), h')"
    using assms unfolding RescheduleInsufficientPods_def Let_def ts_def [symmetric]
    by (auto elim!: bind_OkE)
  then show thesis by (rule that) (auto simp: ts_def)
qed

section \<open>What the status reports\<close>

definition reported :: "extended_deployment \<Rightarrow> string \<Rightarrow> int" where
  "reported d = fold (\<lambda>st v. v(StRegionName st := StUpdatedReplicas st)) (StatusRegions (Status d)) (\<lambda>_. 0)"

lemma plan_reported:
  assumes "NewScheduleRegionInfo X cch d h = (Ok info, h')" and "mget (regionsInfo info) k = Some r"
  shows "scheduleReplicas r = reported d k"
proof -
  let ?view = "\<lambda>m k. case mget m k of None \<Rightarrow> 0 | Some r \<Rightarrow> scheduleReplicas (r :: scheduleRegionInfo)"
  obtain m1 h1 m2 where 1: "for_io (scheduleRegion X cch d) (Regions (Spec d)) [] h = (Ok m1, h1)"
    and 2: "for_io (\<lambda>st m. bind_io (deref (mget m (StRegionName st))) (\<lambda>ri.
         ret (mset_key (StRegionName st) (ri\<lparr>scheduleReplicas := StUpdatedReplicas st\<rparr>) m)))
       (StatusRegions (Status d)) m1 h1 = (Ok m2, h')" and info: "regionsInfo info = m2"
    using assms(1) unfolding NewScheduleRegionInfo_def by (auto elim!: bind_OkE)
  have "?view m1 = fold (\<lambda>r v. v(RegionName r := 0)) (Regions (Spec d)) (?view [])"
    by (rule for_io_view [OF 1, where view = ?view])
      (auto simp: scheduleRegion_def fun_eq_iff elim!: bind_OkE split: if_splits)
  moreover have "fold (\<lambda>r v. v(RegionName r := 0)) rs (\<lambda>_. 0) = (\<lambda>_. 0 :: int)" for rs :: "region list"
    by (induction rs) (simp_all add: fun_upd_idem)
  moreover have "?view m2 = fold (\<lambda>st v. v(StRegionName st := StUpdatedReplicas st)) (StatusRegions (Status d)) (?view m1)"
    by (rule for_io_view [OF 2, where view = ?view]) (auto simp: fun_eq_iff elim!: bind_OkE)
  ultimately have "?view m2 = reported d" by (simp add: reported_def)
  then show ?thesis using assms(2) info by (metis option.simps(5))
qed

section \<open>From the plan to the regions\<close>

lemma new_plan_fresh:
  assumes "NewScheduleRegionInfo X cch d h = (Ok info, h')"
    and "\<forall>n. Replicas (Spec d) = Some n \<longrightarrow> is_i32 n" and "(\<Sum>(_, n) \<leftarrow> configured d. n) \<le> MaxInt32"
  shows "fresh_plan info"
proof -
  have conf: "config_counts (regionsInfo info) = configured d"
    using plan_configured [OF assms(1)] by (simp add: config_counts_def)
  have "0 \<le> configReplicas r \<and> rescheduleReplicas r = configReplicas r \<and> AllocatablePod r \<le> MaxInt64"
    if kr: "(k, r) \<in> set (regionsInfo info)" for k r
  proof -
    have "(k, configReplicas r) \<in> set (config_counts (regionsInfo info))"
      using kr by (force simp: config_counts_def)
    then have "0 \<le> configReplicas r" using configured_nonneg [OF assms(2)] by (simp add: conf)
    moreover have "planned_region d (k, r)"
      using new_plan_planned [OF assms(1)] kr by (auto simp: list_all_iff)
    ultimately show ?thesis by (simp add: planned_region_def is_i64_def MaxInt64_def)
  qed
  with new_plan_planned [OF assms(1)] assms(3) show ?thesis
    by (auto simp: fresh_plan_def sum_config conf)
qed

lemma fresh_balanced: "fresh_plan info \<Longrightarrow> balanced (regionsInfo info)"
proof -
  assume f: "fresh_plan info"
  then have "\<forall>(k, r) \<in> set (regionsInfo info). rescheduleReplicas r = configReplicas r" by (auto simp: fresh_plan_def)
  then have "(\<Sum>(_, r) \<leftarrow> regionsInfo info. rescheduleReplicas r) = (\<Sum>(_, r) \<leftarrow> regionsInfo info. configReplicas r)"
    by (intro arg_cong [where f = sum_list] map_cong) auto
  with f show ?thesis by (auto simp: fresh_plan_def balanced_def)
qed

lemma nothing_failed:
  assumes "\<forall>k. \<not> failed_in rm k"
  shows "RescheduleFailedRegions rm info h = (Ok info, h)"
proof -
  have "\<exists>ts. fold (failRegion rm) rs (info, t, 0) = (info, ts, 0)" for rs t
    using assms by (induction rs arbitrary: t) (auto simp: failRegion_def split: prod.split)
  then obtain ts where "fold (failRegion rm) (regionsInfo info) (info, [], 0) = (info, ts, 0)" by blast
  then show ?thesis by (simp add: RescheduleFailedRegions_def reschedule_def ret_def)
qed

lemma reportFailure_Ok: "reportFailure f h = (Ok x, h') \<Longrightarrow> f h = (Ok x, h')"
  by (auto simp: reportFailure_def attempt_def elim!: bind_OkE split: sum.splits prod.splits res.splits)

lemma no_shortage: "RescheduleInsufficientPods [] info h = (Ok info, h)"
  by (simp add: RescheduleInsufficientPods_def Let_def ret_def)

text \<open>The pods that wait for resources are part of the reported replicas, which do not exceed the configured ones.\<close>

definition within_reported :: "extended_deployment \<Rightarrow> string \<times> pod list \<Rightarrow> bool" where
  "within_reported d = (\<lambda>(k, pods). mhas (configured d) k \<and> int (length pods) \<le> reported d k \<and>
     reported d k - int (length pods) \<le> the (mget (configured d) k) \<and> reported d k \<le> MaxInt32)"

lemma shortage_balanced:
  assumes "NewScheduleRegionInfo X cch d h = (Ok info, h0)" and "fresh_plan info"
    and "distinct (map fst ins)" and "\<forall>p \<in> set ins. within_reported d p"
    and "RescheduleInsufficientPods ins info h1 = (Ok info', h2)"
  shows "balanced (regionsInfo info') \<and> config_counts (regionsInfo info') = configured d"
proof -
  let ?m = "regionsInfo info"
  have conf: "config_counts ?m = configured d"
    using plan_configured [OF assms(1)] by (simp add: config_counts_def)
  obtain ts where loop: "for_io (handOver ts) ins ?m h1 = (Ok (regionsInfo info'), h2)"
    and ts: "set ts \<subseteq> fst ` set ?m" "\<forall>t \<in> set ts. \<not> mhas ins t"
    using RescheduleInsufficientPods_loop [OF assms(5)] by blast
  have "short_region ?m ts (k, pods)" if kp: "(k, pods) \<in> set ins" for k pods
  proof -
    have w: "within_reported d (k, pods)" using assms(4) kp by blast
    then have "mhas (config_counts ?m) k" by (simp add: within_reported_def conf)
    then obtain r where r: "mget ?m k = Some r" by (auto simp: config_counts_def mget_map mhas_def)
    have "mget (configured d) k = Some (configReplicas r)"
      using r by (simp add: conf [symmetric] config_counts_def mget_map)
    moreover have "rescheduleReplicas r = configReplicas r"
      using assms(2) map_of_SomeD [OF r] by (auto simp: fresh_plan_def)
    moreover have "k \<notin> set ts" using ts(2) kp weak_map_of_SomeI by (fastforce simp: mhas_def)
    ultimately show ?thesis
      using w r plan_reported [OF assms(1) r] by (simp add: short_region_def within_reported_def)
  qed
  then have "\<forall>p \<in> set ins. short_region ?m ts p" by auto
  moreover have "\<forall>t \<in> set ts. mhas ?m t" using ts(1) weak_map_of_SomeI by (fastforce simp: mhas_def)
  ultimately show ?thesis
    using short_loop [OF loop fresh_balanced [OF assms(2)] _ assms(3)] conf by auto
qed

text \<open>A successful transfer of one kind ends in a balanced plan in which a failed region has nothing.\<close>

lemma transfer_balanced:
  assumes "planTransfer X cch rm ins d h = (Ok d', h')"
    and "\<forall>n. Replicas (Spec d) = Some n \<longrightarrow> is_i32 n" and "(\<Sum>(_, n) \<leftarrow> configured d. n) \<le> MaxInt32"
    and "ins = [] \<or> (\<forall>k. \<not> failed_in rm k)"
    and "distinct (map fst ins)" and "\<forall>p \<in> set ins. within_reported d p"
  obtains info where "d' = SetRescheduleAnnotation X info d" and "balanced (regionsInfo info)"
    and "config_counts (regionsInfo info) = configured d"
    and "\<And>k r. (k, r) \<in> set (regionsInfo info) \<Longrightarrow> (failed_in rm k \<longrightarrow> rescheduleReplicas r = 0) \<and>
       (ins = [] \<and> \<not> failed_in rm k \<longrightarrow> configReplicas r \<le> rescheduleReplicas r)"
proof -
  obtain info1 h1 info2 h2 info where 1: "NewScheduleRegionInfo X cch d h = (Ok info1, h1)"
    and 2: "RescheduleFailedRegions rm info1 h1 = (Ok info2, h2)"
    and 3: "RescheduleInsufficientPods ins info2 h2 = (Ok info, h')"
    and d': "d' = SetRescheduleAnnotation X info d"
    using assms(1) unfolding planTransfer_def by (auto elim!: bind_OkE dest!: reportFailure_Ok)
  have fresh: "fresh_plan info1" by (rule new_plan_fresh [OF 1 assms(2,3)])
  have conf1: "config_counts (regionsInfo info1) = configured d"
    using plan_configured [OF 1] by (simp add: config_counts_def)
  have "balanced (regionsInfo info) \<and> config_counts (regionsInfo info) = configured d \<and>
    (\<forall>(k, r) \<in> set (regionsInfo info). (failed_in rm k \<longrightarrow> rescheduleReplicas r = 0) \<and>
       (ins = [] \<and> \<not> failed_in rm k \<longrightarrow> configReplicas r \<le> rescheduleReplicas r))"
  proof (cases "\<forall>k. \<not> failed_in rm k")
    case True
    with 2 have eq: "info2 = info1" "h2 = h1" by (simp_all add: nothing_failed)
    with shortage_balanced [OF 1 fresh assms(5,6)] 3 have b: "balanced (regionsInfo info)"
      "config_counts (regionsInfo info) = configured d" by blast+
    moreover have "rescheduleReplicas r = configReplicas r" if "ins = []" "(k, r) \<in> set (regionsInfo info)" for k r
      using that 3 eq fresh by (auto simp: no_shortage fresh_plan_def)
    ultimately show ?thesis using True by fastforce
  next
    case False
    with assms(4) have "ins = []" by blast
    with 3 have "info = info2" by (simp add: no_shortage)
    moreover have "rm \<noteq> []" using False by auto
    ultimately show ?thesis using failover_balanced [OF fresh _ 2] conf1 by (fastforce split: if_splits)
  qed
  with d' show thesis by (intro that) blast+
qed


text \<open>A plain encoding of plans, to run the two controllers on.\<close>

fun put_str :: "string \<Rightarrow> string \<Rightarrow> string" where
  "put_str [] t = CHR ''.'' # t"
| "put_str (c # s) t = CHR ''x'' # c # put_str s t"

fun get_str :: "string \<Rightarrow> string \<times> string" where
  "get_str (x # t) = (if x = CHR ''x'' then
     (case t of [] \<Rightarrow> ([], []) | c # t' \<Rightarrow> (case get_str t' of (s, r) \<Rightarrow> (c # s, r))) else ([], t))"
| "get_str [] = ([], [])"

definition put_int :: "int \<Rightarrow> string \<Rightarrow> string" where
  "put_int i t = Itoa i @ CHR '','' # t"

definition get_int :: "string \<Rightarrow> int \<times> string" where
  "get_int t = ((case ParseInt_sum (takeWhile (\<lambda>c. c \<noteq> CHR '','') t) 64 of Inl _ \<Rightarrow> 0 | Inr n \<Rightarrow> n),
     tl (dropWhile (\<lambda>c. c \<noteq> CHR '','') t))"

fun put_infos :: "ScheduleReplicas gomap \<Rightarrow> string \<Rightarrow> string" where
  "put_infos [] t = CHR ''.'' # t"
| "put_infos ((k, v) # m) t = CHR ''x'' # put_str k (put_int (Config v) (put_int (Schedule v) (put_infos m t)))"

text \<open>The first argument bounds the number of entries; the length of the text is enough.\<close>

fun get_infos :: "nat \<Rightarrow> string \<Rightarrow> ScheduleReplicas gomap" where
  "get_infos (Suc n) (x # t) = (if x = CHR ''x'' then
     (case get_str t of (k, t) \<Rightarrow> (case get_int t of (c, t) \<Rightarrow> (case get_int t of (s, t) \<Rightarrow>
        (k, \<lparr>Config = c, Schedule = s\<rparr>) # get_infos n t))) else [])"
| "get_infos n t = []"

definition codec_ext :: ext where
  "codec_ext = sample_ext\<lparr>
     marshalSchedule := (\<lambda>s. put_int (SchedGeneration s) (put_str (FailureRegion s) (put_infos (Infos s) []))),
     unmarshalSchedule := (\<lambda>t. case get_int t of (g, t) \<Rightarrow> (case get_str t of (f, t) \<Rightarrow>
       Inr \<lparr>SchedGeneration = g, FailureRegion = f, Infos = get_infos (length t) t\<rparr>))\<rparr>"

lemma get_put_str [simp]: "get_str (put_str s t) = (s, t)"
  by (induction s) simp_all

lemma get_put_int [simp]: "is_i64 i \<Longrightarrow> get_int (put_int i t) = (i, t)"
proof -
  assume i: "is_i64 i"
  have pre: "\<forall>c \<in> set (Itoa i). c \<noteq> CHR '',''" using Itoa_no_comma by metis
  have "takeWhile (\<lambda>c. c \<noteq> CHR '','') (Itoa i @ CHR '','' # t) = Itoa i"
    "dropWhile (\<lambda>c. c \<noteq> CHR '','') (Itoa i @ CHR '','' # t) = CHR '','' # t"
    using pre by (subst takeWhile_append2 dropWhile_append2; auto)+
  then show ?thesis
    using ParseInt_Itoa [of 64 i] i by (simp add: get_int_def put_int_def ParseInt_sum_def is_i64_def)
qed

lemma length_put: "length m \<le> length (put_infos m t)"
proof -
  have "length t \<le> length (put_str k t)" "length t \<le> length (put_int i t)" for k t i
    by (induction k) (auto simp: put_int_def)
  then have "length t \<le> length (put_str k (put_int i (put_int j t)))" for k i j t by (meson le_trans)
  then show ?thesis by (induction m t rule: put_infos.induct) (auto intro: le_trans)
qed

lemma get_put_infos:
  assumes "\<forall>(k, v) \<in> set m. is_i32 (Config v) \<and> is_i32 (Schedule v)" and "length m \<le> n"
  shows "get_infos n (put_infos m t) = m"
  using assms
proof (induction m t arbitrary: n rule: put_infos.induct)
  case (1 t)
  then show ?case by (cases n) simp_all
next
  case (2 k v m t)
  then obtain n' where n: "n = Suc n'" by (cases n) auto
  have "is_i64 (Config v)" "is_i64 (Schedule v)" using 2(2) by (auto simp: is_i32_def is_i64_def)
  moreover have "\<lparr>Config = Config v, Schedule = Schedule v\<rparr> = v" by simp
  ultimately show ?case using 2 n by simp
qed

lemma codec_reads_back: "reads_back codec_ext"
  unfolding reads_back_def
proof (intro allI impI)
  fix s :: AutoScheduleSpec
  assume "is_i64 (SchedGeneration s) \<and> (\<forall>(k, v) \<in> set (Infos s). is_i32 (Config v) \<and> is_i32 (Schedule v))"
  then show "\<exists>t. unmarshalSchedule codec_ext (marshalSchedule codec_ext s) = Inr t \<and> (\<forall>k. mget (Infos t) k = mget (Infos s) k)"
    using get_put_infos [of "Infos s" "length (put_infos (Infos s) [])" "[]"] length_put [of "Infos s" "[]"]
    by (simp add: codec_ext_def)
qed

section \<open>Three regions\<close>

text \<open>
  Region \<open>r1\<close> has failed with three replicas; \<open>r2\<close> runs one replica and has room for four
  more, the empty \<open>r3\<close> has room for three.
\<close>

definition app3 :: extended_deployment where
  "app3 = zero_ED\<lparr>Spec := zero_ed_spec\<lparr>Replicas := Some 4,
     Regions := [\<lparr>RegionName = ''r1'', RegionReplicas = Some (IntVal 3)\<rparr>,
       \<lparr>RegionName = ''r2'', RegionReplicas = Some (IntVal 1)\<rparr>, \<lparr>RegionName = ''r3'', RegionReplicas = Some (IntVal 0)\<rparr>],
     Template := zero_template\<lparr>TemplateSpec := zero_pod_spec\<lparr>Containers :=
       [\<lparr>CName = ''c'', CImage = [], CRequests = small_request, CLimits = [], CRest = []\<rparr>]\<rparr>\<rparr>\<rparr>,
   Status := (Status zero_ED)\<lparr>StatusRegions := [\<lparr>StRegionName = ''r2'', StReplicas = 0, StUpdatedReplicas = 1, StReadyReplicas = 0, StAvailableReplicas = 0, StUnavailableReplicas = 0\<rparr>]\<rparr>\<rparr>"

definition node_of :: "int \<Rightarrow> node_cache" where
  "node_of n = \<lparr>NCName = ''n'', IsReady = True, Allocatable = \<lparr>MilliCPU = 100000, Memory = 1000000, EphemeralStorage = 0, AllowedPodNumber = n\<rparr>,
         Allocated = EmptyResource, NCPods = []\<rparr>"

definition cache3 :: cache where
  "cache3 = \<lparr>Synced = True, CRegions = [
     (''r2'', \<lparr>RCName = ''r2'', RCMatchLabels = [], RCNodes = [(''n2'', node_of 4)], RCStatus = regionStatusOK\<rparr>),
     (''r3'', \<lparr>RCName = ''r3'', RCMatchLabels = [], RCNodes = [(''n3'', node_of 3)], RCStatus = regionStatusOK\<rparr>)],
     NodeToRegion = [(''n2'', ''r2''), (''n3'', ''r3'')]\<rparr>"

definition codec_ctl :: ctl where "codec_ctl = sample_ctl\<lparr>Ext := codec_ext\<rparr>"

definition no_subsets :: subset_control where
  "no_subsets = \<lparr>regionInfoMap = [], autoScheduleSpec = None, allSubsets = [], unusedSubsets = []\<rparr>"


abbreviation request3 :: resource where
  "request3 \<equiv> \<lparr>MilliCPU = 1000, Memory = 1024, EphemeralStorage = 0, AllowedPodNumber = 0\<rparr>"

lemma request3: "RequestResourceByRegion codec_ext app3 r h = (Ok request3, h)"
proof -
  have "ApplyOverridePolicies codec_ext r app3 = Some (Template (Spec app3))"
    by (simp add: ApplyOverridePolicies_def app3_def zero_values)
  moreover have "Containers (TemplateSpec (Template (Spec app3))) =
      [\<lparr>CName = ''c'', CImage = [], CRequests = small_request, CLimits = [], CRest = []\<rparr>]"
    by (simp add: app3_def)
  moreover have "Add EmptyResource small_request = request3"
    by (simp add: Add_def small_request_def EmptyResource_def ResourceCPU_def ResourceMemory_def i64_def)
  ultimately show ?thesis by (simp add: RequestResourceByRegion_def io_defs i64_def)
qed

lemma capacity3:
  "GetRegionAllocatablePodNum cache3 ''r1'' request3 = 0" "GetRegionAllocatablePodNum cache3 ''r2'' request3 = 4"
  "GetRegionAllocatablePodNum cache3 ''r3'' request3 = 3"
proof -
  have sub: "SubResource (Allocatable (node_of n)) request3 =
      \<lparr>MilliCPU = 99000, Memory = 998976, EphemeralStorage = 0, AllowedPodNumber = i64 n\<rparr>" for n
    by (simp add: SubResource_def node_of_def i64_def)
  have "MaxDivided (SubResource (Allocatable (node_of n)) request3) (ResourceList request3) = min 99 (i64 n)" for n
    unfolding sub by (simp add: ResourceList_def MaxDivided_def NewMilliQuantity_def NewQuantity_def quot_def MaxInt64_def)
  then show "GetRegionAllocatablePodNum cache3 ''r1'' request3 = 0"
    "GetRegionAllocatablePodNum cache3 ''r2'' request3 = 4" "GetRegionAllocatablePodNum cache3 ''r3'' request3 = 3"
    by (simp_all add: GetRegionAllocatablePodNum_def cache3_def i64_def)
qed

definition plan3 :: "int \<Rightarrow> int \<Rightarrow> int \<Rightarrow> int \<Rightarrow> int \<Rightarrow> scheduleRegionInfo gomap" where
  "plan3 a b c p q = [
     (''r1'', \<lparr>SName = ''r1'', configReplicas = 3, scheduleReplicas = 0, rescheduleReplicas = a, AllocatablePod = 0\<rparr>),
     (''r2'', \<lparr>SName = ''r2'', configReplicas = 1, scheduleReplicas = 1, rescheduleReplicas = b, AllocatablePod = p\<rparr>),
     (''r3'', \<lparr>SName = ''r3'', configReplicas = 0, scheduleReplicas = 0, rescheduleReplicas = c, AllocatablePod = q\<rparr>)]"

lemma new3: "NewScheduleRegionInfo codec_ext cache3 app3 h = (Ok \<lparr>regionsInfo = plan3 3 1 0 4 3, failedRegions = []\<rparr>, h)"
proof -
  have spec: "Replicas (Spec app3) = Some 4" "IsSynced cache3" "Regions (Spec app3) = [\<lparr>RegionName = ''r1'', RegionReplicas = Some (IntVal 3)\<rparr>,
       \<lparr>RegionName = ''r2'', RegionReplicas = Some (IntVal 1)\<rparr>, \<lparr>RegionName = ''r3'', RegionReplicas = Some (IntVal 0)\<rparr>]"
    "StatusRegions (Status app3) = [\<lparr>StRegionName = ''r2'', StReplicas = 0, StUpdatedReplicas = 1, StReadyReplicas = 0,
       StAvailableReplicas = 0, StUnavailableReplicas = 0\<rparr>]"
    by (simp_all add: app3_def cache3_def IsSynced_def)
  have parse: "ParseRegionReplicas 4 (IntVal 3) = Inr 3" "ParseRegionReplicas 4 (IntVal 1) = Inr 1"
    "ParseRegionReplicas 4 (IntVal 0) = Inr 0" by (simp_all add: ParseRegionReplicas_def)
  show ?thesis
    by (simp add: NewScheduleRegionInfo_def scheduleRegion_def spec parse bind_Ok [OF request3] capacity3 mset_key_def)
      (simp add: io_defs plan3_def)
qed

lemma failed3: "RescheduleFailedRegions [(''r1'', True)] \<lparr>regionsInfo = plan3 3 1 0 4 3, failedRegions = []\<rparr> h =
    (Ok \<lparr>regionsInfo = plan3 0 3 1 2 2, failedRegions = []\<rparr>, h)"
  by (simp add: RescheduleFailedRegions_def failRegion_def plan3_def reschedule_def mset_key_def mhas_def
      eval_nat_numeral i32_def i64_def)

lemma short3: "RescheduleInsufficientPods [(''r2'', [p])] \<lparr>regionsInfo = plan3 0 3 1 2 2, failedRegions = []\<rparr> h =
    (Ok \<lparr>regionsInfo = plan3 0 0 2 2 1, failedRegions = []\<rparr>, h)"
  by (simp add: RescheduleInsufficientPods_def handOver_def plan3_def reschedule_def mset_key_def mhas_def
      eval_nat_numeral i32_def i64_def)

lemma planned3: "planTransfer codec_ext cache3 [(''r1'', True)] [] app3 h =
    (Ok (SetRescheduleAnnotation codec_ext \<lparr>regionsInfo = plan3 0 3 1 2 2, failedRegions = []\<rparr> app3), h)"
  by (simp add: planTransfer_def reportFailure_def bind_io_def attempt_def new3 failed3 no_shortage ret_def)

lemma followed3: "\<exists>m'. groupSubset codec_ctl (SetRescheduleAnnotation codec_ext
    \<lparr>regionsInfo = plan3 0 3 1 2 2, failedRegions = []\<rparr> app3) [] no_subsets h = (Ok m', h)"
proof -
  let ?d = "SetRescheduleAnnotation codec_ext \<lparr>regionsInfo = plan3 0 3 1 2 2, failedRegions = []\<rparr> app3"
  have "\<exists>mp. buildRegionInfo ?d [] h = (Ok mp, h)"
    by (simp add: buildRegionInfo_def SetRescheduleAnnotation_def app3_def ParseRegionReplicas_def)
  then obtain mp where mp: "buildRegionInfo ?d [] h = (Ok mp, h)" by blast
  have "\<exists>t. GetAutoScheduleSpec codec_ext (Annotations ?d) = Inr (Some t)"
    by (simp add: SetRescheduleAnnotation_def GetAutoScheduleSpec_Set codec_ext_def split: prod.split)
  then obtain t where "GetAutoScheduleSpec codec_ext (Annotations ?d) = Inr (Some t)" by blast
  then show ?thesis
    by (simp add: groupSubset_def bind_Ok [where m = "buildRegionInfo ?d []", OF mp] no_subsets_def codec_ctl_def ret_def Let_def)
qed

lemma configured3: "configured app3 = [(''r1'', 3), (''r2'', 1), (''r3'', 0)]"
  by (simp add: configured_def count_of_def app3_def ParseRegionReplicas_def mset_key_def)


text \<open>
  When a region that takes over replicas of a failed region has itself a pod that waits for
  resources, both transfers are planned one after the other, and the second forgets what the first
  has moved into the region: of four replicas two are lost. The comment at the end of
  \<open>RescheduleFailedRegions\<close> says that no transfer for lack of resources is made during a failure.
\<close>

theorem combined_transfer_loses_replicas:
  "\<exists>info. planTransfer codec_ext cache3 [(''r1'', True)] [(''r2'', [pod])] app3 h =
      (Ok (SetRescheduleAnnotation codec_ext info app3), h) \<and>
    (\<Sum>(_, r) \<leftarrow> regionsInfo info. configReplicas r) = 4 \<and> (\<Sum>(_, r) \<leftarrow> regionsInfo info. rescheduleReplicas r) = 2"
proof -
  have "planTransfer codec_ext cache3 [(''r1'', True)] [(''r2'', [pod])] app3 h =
      (Ok (SetRescheduleAnnotation codec_ext \<lparr>regionsInfo = plan3 0 0 2 2 1, failedRegions = []\<rparr> app3), h)"
    by (simp add: planTransfer_def reportFailure_def bind_io_def attempt_def new3 failed3 short3 ret_def)
  then show ?thesis by (intro exI conjI) (auto simp: plan3_def)
qed

end
