(* ===== verification/RegionSync.thy ===== *)
theory RegionSync
  imports Rollout
begin

text \<open>
  What one synchronisation of a region (\<open>regionSyncOnce\<close>) leaves available. The pass cleans up
  unhealthy replicas of the old subsets, scales old subsets down by what is then still too much, and
  moves the new subset by one step. Whatever the API server answers and wherever the pass ends, every
  write it sends keeps enough replicas for the region to have its desired number available, or as
  many as it had.
\<close>

section \<open>The requests of one run\<close>

definition sends :: "('q \<Rightarrow> bool) \<Rightarrow> ('q, 'a) io \<Rightarrow> 'q list \<Rightarrow> bool" where
  "sends P m h \<longleftrightarrow> (\<exists>l. snd (m h) = h @ l \<and> list_all P l)"

lemma sends_emits: "emits P m \<Longrightarrow> sends P m h"
  by (simp add: emits_def sends_def)

lemma sendsD: "sends P m h \<Longrightarrow> m h = (r, h') \<Longrightarrow> \<exists>l. h' = h @ l \<and> list_all P l"
  by (auto simp: sends_def)

lemma sends_bind:
  assumes "sends P m h" and "\<And>x h1. m h = (Ok x, h1) \<Longrightarrow> sends P (f x) h1"
  shows "sends P (bind_io m f) h"
proof -
  obtain r h1 where m: "m h = (r, h1)" by (cases "m h")
  obtain l where l: "h1 = h @ l" "list_all P l" using sendsD [OF assms(1) m] by blast
  show ?thesis
  proof (cases r)
    case (Ok x)
    with m assms(2) obtain l' where "snd (f x h1) = h1 @ l'" "list_all P l'" by (auto simp: sends_def)
    with l m Ok show ?thesis by (auto simp: sends_def bind_io_def intro!: exI [of _ "l @ l'"])
  qed (use m l in \<open>auto simp: sends_def bind_io_def\<close>)
qed

section \<open>Writes that leave a number of replicas\<close>

text \<open>
  What the requests for workloads aim at: a write at a name and a count with \<open>P\<close>, a deletion at a
  name with \<open>D\<close>; no workload is created.
\<close>

definition aims :: "ctl \<Rightarrow> (nskey \<Rightarrow> int \<Rightarrow> bool) \<Rightarrow> (nskey \<Rightarrow> bool) \<Rightarrow> req \<Rightarrow> bool" where
  "aims C P D q = (case q of
     UpdateSet u \<Rightarrow> (\<exists>s. convertToSubset (Adp C) u = ret s \<and> P (objectKey s) (SpecReplicas s))
   | DeleteSet w \<Rightarrow> D (objectKey (meta_of w))
   | CreateSet _ \<Rightarrow> False
   | _ \<Rightarrow> True)"

lemma aims_simps [simp]:
  "aims C P D (GetSet k)" "aims C P D (Event e)" "aims C P D (DeleteSet w) \<longleftrightarrow> D (objectKey (meta_of w))"
  by (simp_all add: aims_def)

text \<open>
  A request leaves each workload at least the replicas the floor allows: a write carries at least
  that count, a workload is deleted only when its floor is 0.
\<close>

definition leaves :: "ctl \<Rightarrow> (nskey \<Rightarrow> int) \<Rightarrow> req \<Rightarrow> bool" where
  "leaves C keep = aims C (\<lambda>k n. keep k \<le> n) (\<lambda>k. keep k \<le> 0)"

lemma leaves_simps [simp]:
  "leaves C keep (GetSet k)" "leaves C keep (Event e)"
  "leaves C keep (DeleteSet w) \<longleftrightarrow> keep (objectKey (meta_of w)) \<le> 0"
  by (simp_all add: leaves_def)

text \<open>The API server returns a workload of the right kind under the name it was asked for.\<close>

definition gets_by_name :: "ctl \<Rightarrow> subset_type \<Rightarrow> bool" where
  "gets_by_name C t \<longleftrightarrow>
     (\<forall>g k w. ansGetSet (Srv C) g k = Inr w \<longrightarrow> is_kind t w \<and> objectKey (meta_of w) = k)"

lemma gets_by_nameD:
  "gets_by_name C t \<Longrightarrow> ansGetSet (Srv C) g k = Inr w \<Longrightarrow> is_kind t w \<and> objectKey (meta_of w) = k"
  unfolding gets_by_name_def by blast

lemma objectKey_truncate: "objectKey (object_meta.truncate s) = objectKey s"
  by (simp add: objectKey_def object_meta.defs)

lemma written_aims:
  assumes "subSetControls X t = Some (Adp C)" and "gets_by_name C t"
    and "ansGetSet (Srv C) g k = Inr w" and "SetReplicas (Adp C) w n g1 = (Ok u, g2)" and "P k n"
  shows "aims C P D (UpdateSet u)"
proof -
  note A = registered_adapter [OF assms(1)]
  have w: "is_kind t w" "objectKey (meta_of w) = k" using gets_by_nameD [OF assms(2,3)] by simp_all
  obtain s where s: "convertToSubset (Adp C) w = ret s" "object_meta.truncate s = meta_of w"
    using adapter_contract.convert_total [OF A w(1)] by blast
  obtain w' where w': "SetReplicas (Adp C) w n = ret w'"
    "convertToSubset (Adp C) w' = ret (s\<lparr>SpecReplicas := n, SubsetRef := w'\<rparr>)"
    using adapter_contract.convert_set_replicas [OF A w(1) s(1), of n] by blast
  have "objectKey s = k" using s(2) w(2) objectKey_truncate [of s] by simp
  then have "objectKey (s\<lparr>SpecReplicas := n, SubsetRef := w'\<rparr>) = k" by (simp add: objectKey_def)
  with w' assms(4,5) show ?thesis by (auto simp: aims_def)
qed

lemma updateLoop_aims:
  assumes "subSetControls X t = Some (Adp C)" and "gets_by_name C t" and "P k n"
  shows "emits (aims C P D) (updateLoop C k (\<lambda>w. SetReplicas (Adp C) w n) i)"
proof (induction i)
  case (Suc i)
  have valid: "valid_ctl C" using assms(1) by (auto simp: valid_ctl_def)
  have upd: "emits (aims C P D) (bind_io (attempt (updateSet C u)) (\<lambda>r. case r of
        Inr w' \<Rightarrow> ret w' | Inl e \<Rightarrow> if i = 0 then fail e else updateLoop C k (\<lambda>w. SetReplicas (Adp C) w n) i))"
    if "aims C P D (UpdateSet u)" for u
    using that Suc by (auto simp: updateSet_def intro!: emits_intros split: sum.split)
  have "emits (aims C P D) (bind_io (SetReplicas (Adp C) w n) (\<lambda>w. bind_io (attempt (updateSet C w)) (\<lambda>r. case r of
        Inr w' \<Rightarrow> ret w' | Inl e \<Rightarrow> if i = 0 then fail e else updateLoop C k (\<lambda>w. SetReplicas (Adp C) w n) i)))"
    if "getSet C k h = (Ok w, h1)" for w h h1
  proof (rule emits_bind_ok [OF emits_adapter(1) [OF valid]], rule upd)
    fix u g1 g2 assume "SetReplicas (Adp C) w n g1 = (Ok u, g2)"
    moreover have "ansGetSet (Srv C) h k = Inr w" using that by (simp add: getSet_def)
    ultimately show "aims C P D (UpdateSet u)" using written_aims assms by blast
  qed
  moreover have "emits (aims C P D) (getSet C k)" by (simp add: getSet_def emits_call)
  ultimately show ?case unfolding updateLoop.simps by (blast intro: emits_bind_ok)
qed (simp add: emits_intros)

lemma ScaleSubset_aims:
  assumes "subSetControls X t = Some (Adp C)" and "gets_by_name C t" and "P (objectKey ss) n"
  shows "emits (aims C P D) (ScaleSubset C cd ss n)"
  unfolding ScaleSubset_def
  using updateLoop_aims [OF assms(1,2), where P = P and k = "objectKey ss" and n = n] assms(3)
  by (auto intro!: emits_intros)

lemma ScaleSubset_leaves:
  assumes "subSetControls X t = Some (Adp C)" and "gets_by_name C t" and "keep (objectKey ss) \<le> n"
  shows "emits (leaves C keep) (ScaleSubset C cd ss n)"
  unfolding leaves_def by (rule ScaleSubset_aims [OF assms(1,2)]) (rule assms(3))

section \<open>Cleaning up\<close>

text \<open>A subset that stands for its workload.\<close>

definition refers :: "subset \<Rightarrow> bool" where
  "refers ss \<longleftrightarrow> objectKey (meta_of (SubsetRef ss)) = objectKey ss"

lemma cleanupLoop_leaves:
  assumes "subSetControls X t = Some (Adp C)" and "gets_by_name C t"
    and "list_all healthy_counts xs" and "list_all refers xs" and "\<forall>ss \<in> set xs. keep (objectKey ss) \<le> StatusAvailable ss"
    and "0 \<le> n" and "n + spec_sum xs < 2147483648" and "m < 2147483648"
  shows "emits (leaves C keep) (cleanupLoop C cd m xs n)"
  using assms(3-7)
proof (induction xs arbitrary: n)
  case (Cons ss sss)
  define c where "c = Int32Min (i32 (SpecReplicas ss - StatusAvailable ss)) (i32 (m - n))"
  define r where "r = i32 (SpecReplicas ss - c)"
  have ss: "healthy_counts ss" "list_all healthy_counts sss" "refers ss" "keep (objectKey ss) \<le> StatusAvailable ss"
    using Cons.prems by simp_all
  have nonneg: "0 \<le> SpecReplicas ss" "0 \<le> spec_sum sss"
    using ss(1) healthy_sum_nonneg [OF ss(2)] by (simp_all add: healthy_counts_def)
  consider (stop) "n \<ge> m" | (skip) "n < m" "SpecReplicas ss = StatusAvailable ss"
    | (act) "n < m" "SpecReplicas ss \<noteq> StatusAvailable ss" by linarith
  then show ?case
  proof cases
    case skip
    then show ?thesis using Cons nonneg by (auto intro!: emits_intros)
  next
    case act
    have fits: "SpecReplicas ss < 2147483648" using Cons.prems(4,5) nonneg by simp
    note a = cleanup_arith [OF ss(1) fits Cons.prems(4) act(1) assms(8) act(2) c_def r_def]
    have c': "i32 (n + c) = n + c" using a Cons.prems(4) assms(8) act(1) by (intro i32_idI) linarith+
    have rest: "emits (leaves C keep) (cleanupLoop C cd m sss (i32 (n + c)))"
      unfolding c' using Cons.prems a ss(1) by (intro Cons.IH) (auto simp: healthy_counts_def)
    have "emits (leaves C keep) (DeleteSubset C cd ss)" if "r = 0"
      using ss(3,4) a(4) that by (intro emits_DeleteSubset) (simp_all add: refers_def)
    moreover have "emits (leaves C keep) (ScaleSubset C cd ss r)"
      using ScaleSubset_leaves [OF assms(1,2), where keep = keep and ss = ss and n = r] ss(4) a(4) by simp
    ultimately show ?thesis
      using act rest unfolding cleanupLoop.simps Let_def c_def [symmetric] r_def [symmetric]
      by (auto intro!: emits_intros)
  qed (auto intro!: emits_intros)
qed (simp add: emits_intros)

text \<open>The subsets left are those of before, with their available replicas.\<close>

lemma cleanupLoop_kept:
  assumes "cleanupLoop C cd m xs n h = (Ok (Inr k, every, kept), h')"
  shows "\<forall>ss \<in> set kept. \<exists>ss0 \<in> set xs. objectKey ss = objectKey ss0 \<and> StatusAvailable ss = StatusAvailable ss0"
  using assms
proof (induction xs arbitrary: n h every kept h')
  case (Cons ss sss)
  have key: "objectKey (ss\<lparr>SpecReplicas := r\<rparr>) = objectKey ss" for r by (simp add: objectKey_def)
  show ?case
    using Cons.prems Cons.IH
    by (fastforce simp: Let_def key elim!: bind_OkE split: if_splits sum.splits)
qed simp

text \<open>When fewer replicas were taken than allowed, the subsets left have only available ones.\<close>

lemma cleanupLoop_all:
  assumes "cleanupLoop C cd m xs n h = (Ok (Inr k, every, kept), h')" and "k < m"
    and "list_all healthy_counts xs" and "0 \<le> n" and "n + spec_sum xs < 2147483648" and "m < 2147483648"
  shows "list_all (\<lambda>ss. SpecReplicas ss = StatusAvailable ss) kept"
  using assms
proof (induction xs arbitrary: n h every kept h')
  case (Cons ss sss)
  define c where "c = Int32Min (i32 (SpecReplicas ss - StatusAvailable ss)) (i32 (m - n))"
  define r where "r = i32 (SpecReplicas ss - c)"
  have ss: "healthy_counts ss" "list_all healthy_counts sss" using Cons.prems(3) by simp_all
  have nonneg: "0 \<le> SpecReplicas ss" "0 \<le> spec_sum sss"
    using ss(1) healthy_sum_nonneg [OF ss(2)] by (simp_all add: healthy_counts_def)
  have fits: "SpecReplicas ss < 2147483648" using Cons.prems(4,5) nonneg by simp
  consider (stop) "n \<ge> m" | (skip) "n < m" "SpecReplicas ss = StatusAvailable ss"
    | (act) "n < m" "SpecReplicas ss \<noteq> StatusAvailable ss" by linarith
  then show ?case
  proof cases
    case stop
    with Cons.prems(1,2) show ?thesis by auto
  next
    case skip
    then obtain ev kp h1 where "cleanupLoop C cd m sss n h = (Ok (Inr k, ev, kp), h1)" "kept = ss # kp"
      using Cons.prems(1) by (auto elim!: bind_OkE)
    with Cons.IH [OF this(1)] skip Cons.prems nonneg show ?thesis by simp
  next
    case act
    note a = cleanup_arith [OF ss(1) fits Cons.prems(4) act(1) Cons.prems(6) act(2) c_def r_def]
    have "r \<le> SpecReplicas ss" using a by linarith
    from cleanupLoop_act [OF act c_def r_def this Cons.prems(1)] obtain h1 h2 ev kp where
      rec: "cleanupLoop C cd m sss (i32 (n + c)) h1 = (Ok (Inr k, ev, kp), h2)"
      and kept: "kept = (if r = 0 then kp else ss\<lparr>SpecReplicas := r\<rparr> # kp)" .
    have c': "i32 (n + c) = n + c" using a Cons.prems(4,6) act(1) by (intro i32_idI) linarith+
    have sum': "n + c + spec_sum sss < 2147483648" using a ss(1) Cons.prems(5) by (simp add: healthy_counts_def)
    have ih: "list_all (\<lambda>ss. SpecReplicas ss = StatusAvailable ss) kp"
      using Cons.IH [OF rec] Cons.prems(2,4,6) ss(2) c' sum' a(1) by simp
    have "n + c \<le> k"
      using cleanupLoop_counts [OF rec ss(2)] c' sum' a(1) Cons.prems(4,6) by simp
    then have "c < m - n" using Cons.prems(2) by simp
    then have "r = StatusAvailable ss" using a(3) c_def ss(1) fits Cons.prems(4,6) act
      by (auto simp: healthy_counts_def min_def i32_idI split: if_splits)
    with kept ih show ?thesis by auto
  qed
qed simp

section \<open>Scaling old subsets down\<close>

text \<open>At most one old subset is scaled, by at most the replicas that are too much.\<close>

lemma scaleDownOlds_one:
  assumes "0 \<le> need" and "list_all (\<lambda>ss. 0 \<le> SpecReplicas ss \<and> SpecReplicas ss < 2147483648) xs" and "need < 2147483648"
  shows "scaleDownOlds C cd need xs = ret () \<or> (\<exists>ss \<in> set xs. \<exists>k. 0 \<le> k \<and> k \<le> need \<and> k < SpecReplicas ss \<and>
    scaleDownOlds C cd need xs = ScaleSubset C cd ss (SpecReplicas ss - k))"
  using assms
proof (induction xs arbitrary: need)
  case (Cons ss sss)
  show ?case
  proof (cases "SpecReplicas ss > need")
    case True
    then have "i32 (SpecReplicas ss - need) = SpecReplicas ss - need" using Cons.prems by (intro i32_idI) auto
    with True Cons.prems show ?thesis by auto
  next
    case False
    then have "i32 (need - SpecReplicas ss) = need - SpecReplicas ss" using Cons.prems by (intro i32_idI) auto
    with False Cons.prems Cons.IH [of "need - SpecReplicas ss"] show ?thesis by fastforce
  qed
qed simp

section \<open>One synchronisation\<close>

text \<open>The available replicas of a workload, by its name.\<close>

definition avail_at :: "subset list \<Rightarrow> nskey \<Rightarrow> int" where
  "avail_at sss k = (case find (\<lambda>ss. objectKey ss = k) sss of Some ss \<Rightarrow> StatusAvailable ss | None \<Rightarrow> 0)"

lemma avail_at_member:
  assumes "distinct (map objectKey sss)" and "ss \<in> set sss"
  shows "avail_at sss (objectKey ss) = StatusAvailable ss"
  using assms by (induction sss) (auto simp: avail_at_def)

text \<open>The replicas that stay available in a region when its workloads keep what a floor allows.\<close>

definition kept_available :: "(nskey \<Rightarrow> int) \<Rightarrow> subset list \<Rightarrow> int" where
  "kept_available keep sss = (\<Sum>ss \<leftarrow> sss. min (StatusAvailable ss) (keep (objectKey ss)))"

lemma kept_all:
  assumes "\<forall>ss \<in> set sss. StatusAvailable ss \<le> keep (objectKey ss)"
  shows "kept_available keep sss = avail_sum sss"
  using assms by (induction sss) (auto simp: kept_available_def)

lemma kept_one:
  assumes "distinct (map objectKey sss)" and "s0 \<in> set sss" and "0 \<le> k"
    and "\<forall>ss \<in> set sss. keep (objectKey ss) = StatusAvailable ss"
  shows "kept_available (keep(objectKey s0 := StatusAvailable s0 - k)) sss = avail_sum sss - k"
  using assms
proof (induction sss)
  case (Cons ss sss)
  let ?keep = "keep(objectKey s0 := StatusAvailable s0 - k)"
  show ?case
  proof (cases "s0 = ss")
    case True
    then have "\<forall>x \<in> set sss. objectKey x \<noteq> objectKey s0" using Cons.prems(1) by (force simp: image_iff)
    then have "\<forall>x \<in> set sss. StatusAvailable x \<le> ?keep (objectKey x)" using Cons.prems(4) by simp
    from kept_all [OF this] True Cons.prems show ?thesis by (simp add: kept_available_def)
  next
    case False
    then have "objectKey ss \<noteq> objectKey s0" using Cons.prems by force
    with Cons False show ?thesis by (simp add: kept_available_def)
  qed
qed simp

lemma ScaleSubset_leaves_step:
  assumes "subSetControls X t = Some (Adp C)" and "gets_by_name C t"
    and "replica_count d" and "replica_count (SpecReplicas new)" and "known_rollout cd"
    and "0 < BatchSize (Strategy (Spec cd))" and "keep (objectKey new) = min (SpecReplicas new) d"
  shows "emits (leaves C keep) (ScaleSubset C cd new (i32 (SpecReplicas new + calculateStepSize cd d (SpecReplicas new))))"
proof -
  let ?n = "SpecReplicas new + calculateStepSize cd d (SpecReplicas new)"
  have "min (SpecReplicas new) d \<le> ?n" "?n \<le> max (SpecReplicas new) d"
    using step_never_overshoots [OF assms(3-6)] by simp_all
  moreover from this have "i32 ?n = ?n" using assms(3,4) by (intro i32_idI) auto
  ultimately show ?thesis
    using ScaleSubset_leaves [OF assms(1,2), where keep = keep and ss = new and n = "?n"] assms(7) by simp
qed

text \<open>The counts of a region, as the pass assumes them.\<close>

definition countable_region :: "region_info \<Rightarrow> subset \<Rightarrow> bool" where
  "countable_region ri new \<longleftrightarrow> list_all healthy_counts (new # Olds ri) \<and> list_all refers (Olds ri) \<and>
     distinct (map objectKey (new # Olds ri)) \<and> replica_count (DesiredReplicas ri) \<and>
     spec_sum (new # Olds ri) < 2147483648"

text \<open>The plan of a pass that goes beyond the clean-up: how many replicas which old subset loses.\<close>

lemma scale_down_plan:
  assumes "cleanupLoop C cd m xs 0 h = (Ok (Inr n, every, kept), h1)" and "n < m"
    and "list_all healthy_counts xs" and "spec_sum xs < 2147483648" and "m < 2147483648"
  shows "scaleDownOlds C cd (i32 (m - n)) kept = ret () \<or>
    (\<exists>s0 \<in> set xs. \<exists>ss k. objectKey ss = objectKey s0 \<and> 0 \<le> k \<and> k \<le> m - n \<and> k \<le> StatusAvailable s0 \<and>
       n = spec_sum xs - avail_sum xs \<and>
       scaleDownOlds C cd (i32 (m - n)) kept = ScaleSubset C cd ss (StatusAvailable s0 - k))"
proof -
  have c: "0 \<le> n" "spec_sum kept = spec_sum xs - n" "avail_sum kept = avail_sum xs" "list_all healthy_counts kept"
    using cleanupLoop_counts [OF assms(1,3)] assms(4,5) by auto
  have all: "list_all (\<lambda>ss. SpecReplicas ss = StatusAvailable ss) kept"
    using cleanupLoop_all [OF assms(1,2,3)] assms(4,5) by simp
  then have "spec_sum kept = avail_sum kept" by (induction kept) auto
  with c have n: "n = spec_sum xs - avail_sum xs" by linarith
  have fits: "list_all (\<lambda>ss. 0 \<le> SpecReplicas ss \<and> SpecReplicas ss < 2147483648) kept"
  proof -
    have "SpecReplicas ss \<le> spec_sum kept" if "ss \<in> set kept" for ss
      using that c(4) by (intro member_le_sum_list) (auto simp: list_all_iff healthy_counts_def)
    with c assms(4) show ?thesis by (force simp: list_all_iff healthy_counts_def)
  qed
  have i: "i32 (m - n) = m - n" using assms(2,5) c(1) by (intro i32_idI) auto
  from scaleDownOlds_one [OF _ fits, of "m - n" C cd] assms(2,5) c(1)
  consider "scaleDownOlds C cd (m - n) kept = ret ()" | ss k where "ss \<in> set kept" "0 \<le> k" "k \<le> m - n"
    "k < SpecReplicas ss" "scaleDownOlds C cd (m - n) kept = ScaleSubset C cd ss (SpecReplicas ss - k)"
    by auto
  then show ?thesis
  proof cases
    case (2 ss k)
    obtain s0 where s0: "s0 \<in> set xs" "objectKey ss = objectKey s0" "StatusAvailable ss = StatusAvailable s0"
      using cleanupLoop_kept [OF assms(1)] 2(1) by blast
    moreover have "SpecReplicas ss = StatusAvailable s0" using all 2(1) s0(3) by (simp add: list_all_iff)
    ultimately show ?thesis using 2 n i by (intro disjI2 bexI [of _ s0] exI [of _ ss] exI [of _ k]) auto
  qed (simp add: i)
qed

text \<open>The requests of a pass, from those of its three parts.\<close>

abbreviation excess :: "region_info \<Rightarrow> subset \<Rightarrow> int" where
  "excess ri new \<equiv> i32 (i32 (sum32 SpecReplicas (Olds ri) + StatusAvailable new) - DesiredReplicas ri)"

abbreviation sorted_olds :: "region_info \<Rightarrow> subset list" where
  "sorted_olds ri \<equiv> sort_by SubSetsByCreationTimestamp_Less (Olds ri)"

lemma regionSync_sends:
  assumes ri: "mget (regionInfoMap m) name = Some ri" and new: "New ri = Some new"
    and cl: "emits P (cleanupLoop C cd (excess ri new) (sorted_olds ri) 0)"
    and sd: "\<And>n every kept h1. cleanupLoop C cd (excess ri new) (sorted_olds ri) 0 h = (Ok (Inr n, every, kept), h1) \<Longrightarrow>
      0 < i32 (excess ri new - n) \<Longrightarrow> emits P (scaleDownOlds C cd (i32 (excess ri new - n)) kept)"
    and st: "emits P (ScaleSubset C cd new (i32 (SpecReplicas new +
      calculateStepSize cd (DesiredReplicas ri) (SpecReplicas new))))"
  shows "sends P (regionSyncOnce C cd m name upd) h"
proof -
  let ?mx = "excess ri new"
  let ?rest = "\<lambda>(r, every, m'). bind_io (of_sum r) (\<lambda>cleanupCount.
        bind_io (deref (mget (regionInfoMap m') name)) (\<lambda>info.
        let needScaleDown = i32 (?mx - cleanupCount)
        in bind_io (if needScaleDown > 0 then scaleDownOlds C cd needScaleDown (Olds info) else ret ()) (\<lambda>_.
           if \<not> upd then ret (True, m')
           else (let stepSize = calculateStepSize cd (DesiredReplicas info) (SpecReplicas new)
              in bind_io (ScaleSubset C cd new (i32 (SpecReplicas new + stepSize))) (\<lambda>_. ret (True, m'))))))
        :: (bool \<times> subset_control) action"
  have run: "regionSyncOnce C cd m name upd h = bind_io (cleanupUnhealthyReplicas C cd m name ?mx) ?rest h"
    by (simp add: regionSyncOnce_def ri new deref_def ret_def bind_io_def Let_def)
  have clean: "emits P (cleanupUnhealthyReplicas C cd m name ?mx)"
    unfolding cleanupUnhealthyReplicas_def ri deref_def using cl by (auto intro!: emits_intros)
  have "sends P (?rest (r, every, m')) h1"
    if run: "cleanupUnhealthyReplicas C cd m name ?mx h = (Ok (r, every, m'), h1)" for r every m' h1
  proof (cases r)
    case (Inl e)
    then show ?thesis by (auto simp: of_sum_def intro!: sends_emits emits_intros)
  next
    case (Inr n)
    then obtain kept where loop: "cleanupLoop C cd ?mx (sorted_olds ri) 0 h = (Ok (Inr n, every, kept), h1)"
      and m': "mget (regionInfoMap m') name = Some (ri\<lparr>Olds := kept\<rparr>)"
      using run ri by (auto simp: cleanupUnhealthyReplicas_def put_region_def elim!: bind_OkE split: sum.splits)
    show ?thesis using Inr m' sd [OF loop] st
      by (auto simp: of_sum_def deref_def Let_def intro!: sends_emits emits_intros)
  qed
  then have "sends P (bind_io (cleanupUnhealthyReplicas C cd m name ?mx) ?rest) h"
    by (intro sends_bind sends_emits [OF clean]) auto
  then show ?thesis by (simp add: sends_def run)
qed

lemma excess_exact:
  assumes "countable_region ri new"
  shows "excess ri new = spec_sum (Olds ri) + StatusAvailable new - DesiredReplicas ri"
proof -
  have "0 \<le> spec_sum (Olds ri)" using assms healthy_sum_nonneg by (simp add: countable_region_def)
  then show ?thesis
    using assms by (simp add: countable_region_def healthy_counts_def sum32_eq i32_idI)
qed

text \<open>The floor of a pass: old subsets keep what is available, the new one what it has or shall have.\<close>

definition base_floor :: "region_info \<Rightarrow> subset \<Rightarrow> nskey \<Rightarrow> int" where
  "base_floor ri new = (avail_at (Olds ri))(objectKey new := min (SpecReplicas new) (DesiredReplicas ri))"

lemma base_floor_new [simp]: "base_floor ri new (objectKey new) = min (SpecReplicas new) (DesiredReplicas ri)"
  by (simp add: base_floor_def)

lemma base_floor_old:
  assumes "countable_region ri new" and "ss \<in> set (Olds ri)"
  shows "base_floor ri new (objectKey ss) = StatusAvailable ss" and "objectKey ss \<noteq> objectKey new"
proof -
  have "objectKey new \<notin> objectKey ` set (Olds ri)" using assms(1) by (simp add: countable_region_def)
  then show ne: "objectKey ss \<noteq> objectKey new" using assms(2) by (metis imageI)
  show "base_floor ri new (objectKey ss) = StatusAvailable ss"
    using assms ne avail_at_member [of "Olds ri" ss] by (simp add: base_floor_def countable_region_def)
qed

lemma sorted_sums: "sum_list (map f (sorted_olds ri)) = sum_list (map (f :: subset \<Rightarrow> int) (Olds ri))"
proof -
  have "mset (map f (sorted_olds ri)) = mset (map f (Olds ri))" by (simp only: mset_map mset_sort_by)
  then show ?thesis by (metis sum_mset_sum_list)
qed

lemma countable_sorted:
  assumes "countable_region ri new"
  shows "list_all healthy_counts (sorted_olds ri)" "list_all refers (sorted_olds ri)"
    "spec_sum (sorted_olds ri) < 2147483648" "excess ri new < 2147483648" "replica_count (SpecReplicas new)"
    "- 2147483648 \<le> excess ri new"
proof -
  have "0 \<le> spec_sum (Olds ri)" using assms healthy_sum_nonneg by (simp add: countable_region_def)
  then show "list_all healthy_counts (sorted_olds ri)" "list_all refers (sorted_olds ri)"
    "spec_sum (sorted_olds ri) < 2147483648" "excess ri new < 2147483648" "replica_count (SpecReplicas new)"
    "- 2147483648 \<le> excess ri new"
    using assms by (simp_all add: excess_exact countable_region_def list_all_iff healthy_counts_def sorted_sums)
qed

lemma pass_with_floor:
  assumes "mget (regionInfoMap m) name = Some ri" and "New ri = Some new" and c: "countable_region ri new"
    and "known_rollout cd" and "0 < BatchSize (Strategy (Spec cd))"
    and A: "subSetControls X t = Some (Adp C)" and G: "gets_by_name C t"
    and k: "keep (objectKey new) = min (SpecReplicas new) (DesiredReplicas ri)"
      "\<forall>ss \<in> set (Olds ri). keep (objectKey ss) \<le> StatusAvailable ss"
    and "\<And>n every kept h1. cleanupLoop C cd (excess ri new) (sorted_olds ri) 0 h = (Ok (Inr n, every, kept), h1) \<Longrightarrow>
      n < excess ri new \<Longrightarrow> emits (leaves C keep) (scaleDownOlds C cd (i32 (excess ri new - n)) kept)"
  shows "sends (leaves C keep) (regionSyncOnce C cd m name upd) h"
proof (rule regionSync_sends [OF assms(1,2)])
  note xs = countable_sorted [OF c]
  show "emits (leaves C keep) (cleanupLoop C cd (excess ri new) (sorted_olds ri) 0)"
    using cleanupLoop_leaves [OF A G xs(1,2), where keep = keep and n = 0] xs(3,4) k(2) by simp
  show "emits (leaves C keep) (ScaleSubset C cd new (i32 (SpecReplicas new +
      calculateStepSize cd (DesiredReplicas ri) (SpecReplicas new))))"
    using ScaleSubset_leaves_step [OF A G _ xs(5) assms(4,5), where keep = keep] k(1) c
    by (simp add: countable_region_def)
  fix n every kept h1
  assume loop: "cleanupLoop C cd (excess ri new) (sorted_olds ri) 0 h = (Ok (Inr n, every, kept), h1)"
    and pos: "0 < i32 (excess ri new - n)"
  have "n < excess ri new"
  proof (rule ccontr)
    assume "\<not> n < excess ri new"
    moreover have "n \<le> max 0 (excess ri new)" "0 \<le> n"
      using cleanupLoop_counts [OF loop xs(1)] xs(3,4) by simp_all
    ultimately have "excess ri new - n \<le> 0" "- 2147483648 \<le> excess ri new - n" using xs(6) by auto
    then have "i32 (excess ri new - n) = excess ri new - n" by (intro i32_idI) auto
    with pos \<open>excess ri new - n \<le> 0\<close> show False by simp
  qed
  then show "emits (leaves C keep) (scaleDownOlds C cd (i32 (excess ri new - n)) kept)"
    by (rule assms(10) [OF loop])
qed

lemma kept_available_new:
  assumes "countable_region ri new" and "keep (objectKey new) = min (SpecReplicas new) (DesiredReplicas ri)"
  shows "kept_available keep (new # Olds ri) = min (StatusAvailable new) (DesiredReplicas ri) + kept_available keep (Olds ri)"
  using assms by (auto simp: kept_available_def countable_region_def healthy_counts_def)

text \<open>The floor when one old subset loses available replicas.\<close>

lemma lowered_floor:
  assumes c: "countable_region ri new" and s0: "s0 \<in> set (Olds ri)" and k: "0 \<le> k"
  defines "keep \<equiv> (base_floor ri new)(objectKey s0 := StatusAvailable s0 - k)"
  shows "keep (objectKey new) = min (SpecReplicas new) (DesiredReplicas ri)"
    and "\<forall>ss \<in> set (Olds ri). keep (objectKey ss) \<le> StatusAvailable ss"
    and "kept_available keep (Olds ri) = avail_sum (Olds ri) - k"
proof -
  show "keep (objectKey new) = min (SpecReplicas new) (DesiredReplicas ri)"
    using base_floor_old(2) [OF c s0] by (simp add: keep_def)
  show "\<forall>ss \<in> set (Olds ri). keep (objectKey ss) \<le> StatusAvailable ss"
    using base_floor_old(1) [OF c] base_floor_old(1) [OF c s0] k by (simp add: keep_def) force
  show "kept_available keep (Olds ri) = avail_sum (Olds ri) - k"
    using base_floor_old(1) [OF c] s0 k c unfolding keep_def by (intro kept_one) (auto simp: countable_region_def)
qed

text \<open>
  C4: one synchronisation of a region keeps it available. Whatever the API server answers and
  however the pass ends, each workload has a floor such that every write of the pass leaves it at
  least that many replicas and a workload is deleted only when its floor is 0; and with every
  workload at its floor the region still has its desired replicas available, or as many as it had
  when it had fewer.
\<close>

theorem region_sync_keeps_available:
  assumes ri: "mget (regionInfoMap m) name = Some ri" and new: "New ri = Some new"
    and c: "countable_region ri new" and cd: "known_rollout cd" "0 < BatchSize (Strategy (Spec cd))"
    and A: "subSetControls X t = Some (Adp C)" and G: "gets_by_name C t"
    and run: "regionSyncOnce C cd m name upd h = (r, h')"
  shows "\<exists>keep l. h' = h @ l \<and> list_all (leaves C keep) l \<and>
    min (DesiredReplicas ri) (avail_sum (new # Olds ri)) \<le> kept_available keep (new # Olds ri)"
proof -
  let ?goal = "\<lambda>keep. sends (leaves C keep) (regionSyncOnce C cd m name upd) h \<and>
    min (DesiredReplicas ri) (avail_sum (new # Olds ri)) \<le> kept_available keep (new # Olds ri)"
  note floor = pass_with_floor [OF ri new c cd A G]
  have av: "0 \<le> avail_sum (Olds ri)" "0 \<le> StatusAvailable new"
    using c by (auto simp: countable_region_def healthy_counts_def list_all_iff intro!: sum_list_nonneg)
  have "\<exists>keep. ?goal keep"
  proof (cases "\<exists>n every kept h1. cleanupLoop C cd (excess ri new) (sorted_olds ri) 0 h = (Ok (Inr n, every, kept), h1) \<and>
      n < excess ri new \<and> scaleDownOlds C cd (i32 (excess ri new - n)) kept \<noteq> ret ()")
    case False
    have "sends (leaves C (base_floor ri new)) (regionSyncOnce C cd m name upd) h"
      using False base_floor_old(1) [OF c] by (intro floor) (auto intro: emits_intros)
    moreover have "kept_available (base_floor ri new) (Olds ri) = avail_sum (Olds ri)"
      using base_floor_old(1) [OF c] by (intro kept_all) auto
    ultimately show ?thesis
      using kept_available_new [OF c, of "base_floor ri new"] av by (intro exI [of _ "base_floor ri new"]) auto
  next
    case True
    then obtain n every kept h1 where
      loop: "cleanupLoop C cd (excess ri new) (sorted_olds ri) 0 h = (Ok (Inr n, every, kept), h1)"
      and n: "n < excess ri new" and some: "scaleDownOlds C cd (i32 (excess ri new - n)) kept \<noteq> ret ()" by blast
    obtain s0 ss k where s0: "s0 \<in> set (sorted_olds ri)" "objectKey ss = objectKey s0" "0 \<le> k"
      "k \<le> excess ri new - n" "k \<le> StatusAvailable s0" "n = spec_sum (sorted_olds ri) - avail_sum (sorted_olds ri)"
      "scaleDownOlds C cd (i32 (excess ri new - n)) kept = ScaleSubset C cd ss (StatusAvailable s0 - k)"
      using scale_down_plan [OF loop n countable_sorted(1,3,4) [OF c]] some by blast
    let ?keep = "(base_floor ri new)(objectKey s0 := StatusAvailable s0 - k)"
    have mem: "s0 \<in> set (Olds ri)" using s0(1) by simp
    have "emits (leaves C ?keep) (ScaleSubset C cd ss (StatusAvailable s0 - k))"
      using ScaleSubset_leaves [OF A G, where keep = ?keep and ss = ss and n = "StatusAvailable s0 - k"] s0(2) by simp
    then have "sends (leaves C ?keep) (regionSyncOnce C cd m name upd) h"
      using lowered_floor(1,2) [OF c mem s0(3)] s0(7) loop by (intro floor) auto
    moreover note lowered_floor(3) [OF c mem s0(3)]
    moreover have "StatusAvailable s0 \<le> avail_sum (Olds ri)"
      using mem c by (intro member_le_sum_list) (auto simp: countable_region_def list_all_iff healthy_counts_def)
    ultimately show ?thesis
      using kept_available_new [OF c, of ?keep] lowered_floor(1) [OF c mem s0(3)] excess_exact [OF c] s0(4-6) av
      by (intro exI [of _ ?keep]) (auto simp: sorted_sums)
  qed
  then obtain keep where keep: "?goal keep" by blast
  then obtain l where "h' = h @ l" "list_all (leaves C keep) l" using run by (auto simp: sends_def)
  with keep show ?thesis by blast
qed

text \<open>
  A region that asks for nine replicas, with two of the new template and an old subset of ten, eight
  of them available: two are cleaned up, one more is scaled down, the new subset goes up.
\<close>

definition named_ctl :: ctl where
  "named_ctl = sample_ctl\<lparr>Srv := sample_server\<lparr>ansGetSet := \<lambda>_ k.
     Inr (WReplicaSet (zero_native_set\<lparr>Namespace := fst k, Name := snd k\<rparr>))\<rparr>\<rparr>"

definition new_two :: subset where
  "new_two = zero_subset\<lparr>Name := ''new'', SpecReplicas := 2, StatusAvailable := 2\<rparr>"

definition old_eight :: subset where
  "old_eight = zero_subset\<lparr>Name := ''old'', SpecReplicas := 10, StatusAvailable := 8,
     SubsetRef := WReplicaSet (zero_native_set\<lparr>Name := ''old''\<rparr>)\<rparr>"

definition region_of_nine :: region_info where
  "region_of_nine = zero_region_info\<lparr>New := Some new_two, Olds := [old_eight], DesiredReplicas := 9\<rparr>"

lemma named_ctl_gets: "gets_by_name named_ctl ReplicaSetSubsetType"
  by (auto simp: gets_by_name_def named_ctl_def meta_of_def objectKey_def object_meta.defs)

lemma region_of_nine_countable: "countable_region region_of_nine new_two"
  by (simp add: countable_region_def region_of_nine_def new_two_def old_eight_def healthy_counts_def refers_def
      meta_of_def objectKey_def object_meta.defs zero_values)

theorem region_sync_keeps_available_witness:
  "\<exists>keep l. snd (regionSyncOnce named_ctl beta_of_three (sick_region\<lparr>regionInfoMap := [(''r1'', region_of_nine)]\<rparr>) ''r1'' True []) = l \<and>
     list_all (leaves named_ctl keep) l \<and> 9 \<le> kept_available keep [new_two, old_eight]"
proof -
  let ?m = "sick_region\<lparr>regionInfoMap := [(''r1'', region_of_nine)]\<rparr>"
  obtain r h' where run: "regionSyncOnce named_ctl beta_of_three ?m ''r1'' True [] = (r, h')"
    by (cases "regionSyncOnce named_ctl beta_of_three ?m ''r1'' True []")
  have f: "New region_of_nine = Some new_two" "Olds region_of_nine = [old_eight]" "DesiredReplicas region_of_nine = 9"
    "StatusAvailable new_two = 2" "StatusAvailable old_eight = 8"
    by (simp_all add: region_of_nine_def new_two_def old_eight_def)
  have A: "subSetControls sample_ext ReplicaSetSubsetType = Some (Adp named_ctl)"
    by (simp add: named_ctl_def)
  show ?thesis
    using region_sync_keeps_available [OF _ f(1) region_of_nine_countable _ _ A named_ctl_gets run] f run by simp
qed

end
