(* ===== verification/RegionProgress.thy ===== *)
theory RegionProgress
  imports RegionSync
begin

text \<open>
  Progress of a rollout at the level of the handler: with an API server that accepts requests a
  synchronisation of a region succeeds, and each successful one moves the replica count the server
  holds for the new workload by one step, so repeated synchronisations bring it to the desired
  count.
\<close>

section \<open>A pass succeeds\<close>

definition accepts :: "ctl \<Rightarrow> bool" where
  "accepts C \<longleftrightarrow> (\<forall>g k. \<exists>w. ansGetSet (Srv C) g k = Inr w) \<and> (\<forall>g u. \<exists>w. ansUpdateSet (Srv C) g u = Inr w) \<and>
     (\<forall>g w. ansDeleteSet (Srv C) g w = Inr ())"

lemma updateLoop_succeeds:
  assumes "accepts C" and "\<And>g w. ansGetSet (Srv C) g k = Inr w \<Longrightarrow> \<exists>w'. f w = ret w'"
  shows "\<exists>w h'. updateLoop C k f (Suc n) h = (Ok w, h')"
proof -
  obtain w where w: "ansGetSet (Srv C) h k = Inr w" using assms(1) unfolding accepts_def by blast
  then obtain u where u: "f w = ret u" using assms(2) by blast
  obtain w' where "ansUpdateSet (Srv C) (h @ [GetSet k]) u = Inr w'" using assms(1) unfolding accepts_def by blast
  with w u show ?thesis
    by (simp add: getSet_def updateSet_def bind_io_def attempt_def call_def ret_def)
qed

lemma ScaleSubset_succeeds:
  assumes "accepts C" and "subSetControls X t = Some (Adp C)" and "gets_by_name C t"
  shows "succeeds (ScaleSubset C cd ss n)"
proof -
  have "succeeds (updateLoop C (objectKey ss) (\<lambda>w. SetReplicas (Adp C) w n) (Suc 4))"
    unfolding succeeds_def
  proof (intro allI updateLoop_succeeds [OF assms(1)])
    fix g w assume "ansGetSet (Srv C) g (objectKey ss) = Inr w"
    from gets_by_nameD [OF assms(3) this] adapter_contract.set_replicas [OF registered_adapter [OF assms(2)]]
    show "\<exists>w'. SetReplicas (Adp C) w n = ret w'" by blast
  qed
  then show ?thesis
    unfolding ScaleSubset_def updateRetries_def by (auto simp: eval_nat_numeral intro!: succeeds_intros)
qed

lemma DeleteSubset_succeeds: "accepts C \<Longrightarrow> succeeds (DeleteSubset C cd ss)"
  unfolding DeleteSubset_def accepts_def by (auto intro!: succeeds_intros)

lemma attempt_succeeds: "succeeds m \<Longrightarrow> \<exists>x h'. attempt m h = (Ok (Inr x), h')"
  unfolding succeeds_def attempt_def by (metis (no_types, lifting) case_prod_conv res.simps(10))

lemma cleanupLoop_succeeds:
  assumes "accepts C" and "subSetControls X t = Some (Adp C)" and "gets_by_name C t"
    and "list_all healthy_counts xs" and "0 \<le> n" and "n + spec_sum xs < 2147483648" and "m < 2147483648"
  shows "\<exists>k every kept h'. cleanupLoop C cd m xs n h = (Ok (Inr k, every, kept), h')"
  using assms(4-6)
proof (induction xs arbitrary: n h)
  case (Cons ss sss)
  define c where "c = Int32Min (i32 (SpecReplicas ss - StatusAvailable ss)) (i32 (m - n))"
  define r where "r = i32 (SpecReplicas ss - c)"
  have ss: "healthy_counts ss" "list_all healthy_counts sss" using Cons.prems(1) by simp_all
  have nonneg: "0 \<le> SpecReplicas ss" "0 \<le> spec_sum sss"
    using ss(1) healthy_sum_nonneg [OF ss(2)] by (simp_all add: healthy_counts_def)
  consider (stop) "n \<ge> m" | (skip) "n < m" "SpecReplicas ss = StatusAvailable ss"
    | (act) "n < m" "SpecReplicas ss \<noteq> StatusAvailable ss" by linarith
  then show ?case
  proof cases
    case skip
    then show ?thesis using Cons.IH [of n h] Cons.prems nonneg by (auto simp: bind_io_def ret_def)
  next
    case act
    have fits: "SpecReplicas ss < 2147483648" using Cons.prems(2,3) nonneg by simp
    note a = cleanup_arith [OF ss(1) fits Cons.prems(2) act(1) assms(7) act(2) c_def r_def]
    have c': "i32 (n + c) = n + c" using a Cons.prems(2) assms(7) act(1) by (intro i32_idI) linarith+
    have rest: "\<exists>k every kept h'. cleanupLoop C cd m sss (i32 (n + c)) g = (Ok (Inr k, every, kept), h')" for g
      unfolding c' using Cons.prems a ss by (intro Cons.IH) (auto simp: healthy_counts_def)
    obtain d h1 where d: "attempt (DeleteSubset C cd ss) h = (Ok (Inr d), h1)"
      using attempt_succeeds [OF DeleteSubset_succeeds [OF assms(1)]] by blast
    obtain s h2 where s: "attempt (ScaleSubset C cd ss r) h = (Ok (Inr s), h2)"
      using attempt_succeeds [OF ScaleSubset_succeeds [OF assms(1-3)]] by blast
    have "\<not> r > SpecReplicas ss" using a(1,3) by simp
    then show ?thesis
      using act d s rest [of h1] rest [of h2]
      unfolding cleanupLoop.simps Let_def c_def [symmetric] r_def [symmetric]
      by (auto simp: bind_io_def ret_def)
  qed (simp add: ret_def)
qed (simp add: ret_def)

lemma scaleDownOlds_succeeds:
  assumes "accepts C" and "subSetControls X t = Some (Adp C)" and "gets_by_name C t"
  shows "succeeds (scaleDownOlds C cd n xs)"
  using assms by (induction C cd n xs rule: scaleDownOlds.induct) (auto intro!: succeeds_intros ScaleSubset_succeeds)

lemma regionSync_succeeds:
  assumes ri: "mget (regionInfoMap m) name = Some ri" and new: "New ri = Some new" and c: "countable_region ri new"
    and env: "accepts C" "subSetControls X t = Some (Adp C)" "gets_by_name C t"
  shows "\<exists>m' h'. regionSyncOnce C cd m name upd h = (Ok (True, m'), h')"
proof -
  obtain n every kept h1 where loop: "cleanupLoop C cd (excess ri new) (sorted_olds ri) 0 h = (Ok (Inr n, every, kept), h1)"
    using cleanupLoop_succeeds [OF env countable_sorted(1) [OF c] order_refl _ countable_sorted(4) [OF c], of cd h]
      countable_sorted(3) [OF c] by auto
  let ?need = "i32 (excess ri new - n)"
  obtain u h2 where sd: "(if ?need > 0 then scaleDownOlds C cd ?need kept else ret ()) h1 = (Ok u, h2)"
    using succeeds_if [OF scaleDownOlds_succeeds [OF env] succeeds_ret, of "?need > 0" cd ?need kept "()"]
    by (auto simp: succeeds_def)
  obtain v h3 where st: "ScaleSubset C cd new (i32 (SpecReplicas new +
      calculateStepSize cd (DesiredReplicas ri) (SpecReplicas new))) h2 = (Ok v, h3)"
    by (rule succeedsE [OF ScaleSubset_succeeds [OF env]])
  show ?thesis
    using loop sd st
    by (cases upd; cases "?need > 0")
      (simp_all add: regionSyncOnce_def cleanupUnhealthyReplicas_def ri new deref_def of_sum_def ret_def bind_io_def
        Let_def put_region_def)
qed

section \<open>What a pass writes for the new workload\<close>

text \<open>The count of the last write of a workload, or the count before.\<close>

definition last_count :: "ctl \<Rightarrow> nskey \<Rightarrow> int \<Rightarrow> req list \<Rightarrow> int" where
  "last_count C k d l = fold (\<lambda>q c. case q of
     UpdateSet u \<Rightarrow> (case convertToSubset (Adp C) u [] of
        (Ok s, _) \<Rightarrow> if objectKey s = k then SpecReplicas s else c
      | _ \<Rightarrow> c)
   | _ \<Rightarrow> c) l d"

lemma last_count_append: "last_count C k d (l @ l') = last_count C k (last_count C k d l) l'"
  by (simp add: last_count_def)

lemma last_count_other: "list_all (aims C (\<lambda>k' _. k' \<noteq> k) D) l \<Longrightarrow> last_count C k d l = d"
proof (induction l)
  case (Cons q l)
  then show ?case by (cases q) (auto simp: last_count_def aims_def ret_def)
qed (simp add: last_count_def)

lemma last_count_same:
  assumes "list_all (aims C (\<lambda>k' n'. k' = k \<and> n' = n) D) l" and "d = n \<or> (\<exists>u. UpdateSet u \<in> set l)"
  shows "last_count C k d l = n"
  using assms
proof (induction l arbitrary: d)
  case (Cons q l)
  then show ?case by (cases q) (auto simp: last_count_def aims_def ret_def)
qed (simp add: last_count_def)

lemma updateLoop_writes:
  assumes "updateLoop C k f n h = (Ok w, h')" and "n \<noteq> 0" and "\<And>w. emits (\<lambda>_. False) (f w)"
  shows "\<exists>l u. h' = h @ l @ [UpdateSet u]"
  using assms(1,2)
proof (induction n arbitrary: h)
  case (Suc n)
  from Suc.prems obtain w1 h1 u h2 r h3 where
    get: "getSet C k h = (Ok w1, h1)" and f: "f w1 h1 = (Ok u, h2)" and upd: "attempt (updateSet C u) h2 = (Ok r, h3)" and
    rest: "(case r of Inr w' \<Rightarrow> ret w' | Inl e \<Rightarrow> if n = 0 then fail e else updateLoop C k f n) h3 = (Ok w, h')"
    by (auto elim!: bind_OkE)
  have h1: "h1 = h @ [GetSet k]" using get by (auto simp: getSet_def call_def)
  have h2: "h2 = h1" using emitsD [OF assms(3) f] by (auto simp: list_all_iff)
  have h3: "h3 = h2 @ [UpdateSet u]" using upd by (auto simp: attempt_def updateSet_def call_def split: sum.splits)
  show ?case
  proof (cases r)
    case (Inl e)
    then obtain l u' where "h' = h3 @ l @ [UpdateSet u']" using rest Suc.IH [of h3] by (cases "n = 0") auto
    then show ?thesis by (simp add: h1 h2 h3)
  next
    case (Inr w')
    then have "h' = h @ [GetSet k] @ [UpdateSet u]" using rest h1 h2 h3 by simp
    then show ?thesis by blast
  qed
qed simp

lemma ScaleSubset_last:
  assumes "subSetControls X t = Some (Adp C)" and "gets_by_name C t" and "ScaleSubset C cd ss n h = (Ok x, h')"
  obtains l where "h' = h @ l" "last_count C (objectKey ss) (SpecReplicas ss) l = n"
proof -
  let ?P = "\<lambda>k n'. k = objectKey ss \<and> n' = n"
  have valid: "valid_ctl C" using assms(1) by (auto simp: valid_ctl_def)
  obtain l where l: "h' = h @ l" "list_all (aims C ?P (\<lambda>_. True)) l"
    using emitsD [OF ScaleSubset_aims [OF assms(1,2), where P = ?P] assms(3)] by blast
  have "SpecReplicas ss = n \<or> (\<exists>u. UpdateSet u \<in> set l)"
  proof (cases "SpecReplicas ss = n")
    case False
    then obtain w h1 where "updateLoop C (objectKey ss) (\<lambda>w. SetReplicas (Adp C) w n) updateRetries h = (Ok w, h1)"
      "h' = h1 @ [Event ''ScaleSuccess'']" using assms(3) by (auto simp: ScaleSubset_def elim!: bind_OkE)
    moreover obtain l1 u where "h1 = h @ l1 @ [UpdateSet u]"
      using updateLoop_writes [OF calculation(1) _ emits_adapter(1) [OF valid]] by (auto simp: updateRetries_def)
    ultimately have "UpdateSet u \<in> set l" using l(1) by simp
    then show ?thesis by blast
  qed simp
  with last_count_same [OF l(2)] l(1) show thesis by (intro that) auto
qed

text \<open>The first two parts of a pass write old workloads only.\<close>

abbreviation elsewhere :: "ctl \<Rightarrow> nskey \<Rightarrow> req \<Rightarrow> bool" where
  "elsewhere C k \<equiv> aims C (\<lambda>k' _. k' \<noteq> k) (\<lambda>_. True)"

lemma cleanupLoop_elsewhere:
  assumes "subSetControls X t = Some (Adp C)" and "gets_by_name C t" and "\<forall>ss \<in> set xs. objectKey ss \<noteq> k"
  shows "emits (elsewhere C k) (cleanupLoop C cd m xs n)"
  using assms(3)
proof (induction xs arbitrary: n)
  case (Cons ss sss)
  have "emits (elsewhere C k) (ScaleSubset C cd ss r)" for r
    using ScaleSubset_aims [OF assms(1,2), where P = "\<lambda>k' _. k' \<noteq> k"] Cons.prems by simp
  moreover have "emits (elsewhere C k) (DeleteSubset C cd ss)" by (intro emits_DeleteSubset) simp_all
  moreover have "emits (elsewhere C k) (cleanupLoop C cd m sss r)" for r using Cons by simp
  ultimately show ?case unfolding cleanupLoop.simps Let_def by (auto intro!: emits_intros)
qed (simp add: emits_intros)

lemma scaleDownOlds_elsewhere:
  assumes "subSetControls X t = Some (Adp C)" and "gets_by_name C t" and "\<forall>ss \<in> set xs. objectKey ss \<noteq> k"
  shows "emits (elsewhere C k) (scaleDownOlds C cd n xs)"
  using assms(3)
proof (induction xs arbitrary: n)
  case (Cons ss sss)
  have "emits (elsewhere C k) (ScaleSubset C cd ss r)" for r
    using ScaleSubset_aims [OF assms(1,2), where P = "\<lambda>k' _. k' \<noteq> k"] Cons.prems by simp
  with Cons show ?case by (auto intro!: emits_intros)
qed (simp add: emits_intros)

lemma pass_writes_step:
  assumes ri: "mget (regionInfoMap m) name = Some ri" and new: "New ri = Some new"
    and key: "\<forall>ss \<in> set (Olds ri). objectKey ss \<noteq> objectKey new"
    and A: "subSetControls X t = Some (Adp C)" and G: "gets_by_name C t"
    and run: "regionSyncOnce C cd m name True h = (Ok x, h @ l)"
  shows "last_count C (objectKey new) (SpecReplicas new) l =
    i32 (SpecReplicas new + calculateStepSize cd (DesiredReplicas ri) (SpecReplicas new))"
proof -
  let ?k = "objectKey new"
  obtain n every kept h1 h2 y where
    loop: "cleanupLoop C cd (excess ri new) (sorted_olds ri) 0 h = (Ok (Inr n, every, kept), h1)"
    and sd: "(if 0 < i32 (excess ri new - n) then scaleDownOlds C cd (i32 (excess ri new - n)) kept else ret ()) h1 = (Ok (), h2)"
    and st: "ScaleSubset C cd new (i32 (SpecReplicas new + calculateStepSize cd (DesiredReplicas ri) (SpecReplicas new))) h2 = (Ok y, h @ l)"
    using run
    by (auto simp: regionSyncOnce_def cleanupUnhealthyReplicas_def ri new put_region_def Let_def
        elim!: bind_OkE split: sum.splits if_split_asm)
  have "\<forall>ss \<in> set kept. objectKey ss \<noteq> ?k" using cleanupLoop_kept [OF loop] key by fastforce
  then have e2: "emits (elsewhere C ?k) (if 0 < i32 (excess ri new - n) then scaleDownOlds C cd (i32 (excess ri new - n)) kept else ret ())"
    using scaleDownOlds_elsewhere [OF A G] by (auto intro!: emits_intros)
  have e1: "emits (elsewhere C ?k) (cleanupLoop C cd (excess ri new) (sorted_olds ri) 0)"
    using key by (intro cleanupLoop_elsewhere [OF A G]) simp
  obtain l1 l2 l3 where l: "h1 = h @ l1" "list_all (elsewhere C ?k) l1" "h2 = h1 @ l2" "list_all (elsewhere C ?k) l2"
    and l3: "h @ l = h2 @ l3" "last_count C ?k (SpecReplicas new) l3 =
      i32 (SpecReplicas new + calculateStepSize cd (DesiredReplicas ri) (SpecReplicas new))"
    using emitsD [OF e1 loop] emitsD [OF e2 sd] ScaleSubset_last [OF A G st] by metis
  then have "l = l1 @ l2 @ l3" by simp
  with l(2,4) l3(2) show ?thesis by (simp add: last_count_append last_count_other)
qed

section \<open>Rounds\<close>

text \<open>
  A round: a successful synchronisation of the region, with any old subsets beside the new one and
  anything sent before; the next round finds the new subset with the count last written.
\<close>

inductive round_of :: "ctl \<Rightarrow> extended_deployment \<Rightarrow> string \<Rightarrow> int \<Rightarrow> subset \<Rightarrow> subset \<Rightarrow> bool"
  for C cd name d where
  synced: "mget (regionInfoMap m) name = Some ri \<Longrightarrow> New ri = Some new \<Longrightarrow> DesiredReplicas ri = d \<Longrightarrow>
    countable_region ri new \<Longrightarrow> regionSyncOnce C cd m name True h = (Ok (True, m'), h @ l) \<Longrightarrow>
    healthy_counts new' \<Longrightarrow> objectKey new' = objectKey new \<Longrightarrow>
    SpecReplicas new' = last_count C (objectKey new) (SpecReplicas new) l \<Longrightarrow> round_of C cd name d new new'"

lemma round_step:
  assumes "round_of C cd name d new new'" and "subSetControls X t = Some (Adp C)" and "gets_by_name C t"
    and "known_rollout cd" and "0 < BatchSize (Strategy (Spec cd))"
  shows "SpecReplicas new' = SpecReplicas new + calculateStepSize cd d (SpecReplicas new)"
    and "replica_count (SpecReplicas new)" and "replica_count d"
proof -
  from assms(1) obtain m ri h m' l where synced: "mget (regionInfoMap m) name = Some ri" "New ri = Some new"
    "DesiredReplicas ri = d" "countable_region ri new" "regionSyncOnce C cd m name True h = (Ok (True, m'), h @ l)"
    "SpecReplicas new' = last_count C (objectKey new) (SpecReplicas new) l"
    by (elim round_of.cases) blast
  show c: "replica_count (SpecReplicas new)" "replica_count d"
    using countable_sorted(5) [OF synced(4)] synced(3,4) by (auto simp: countable_region_def)
  have "\<forall>ss \<in> set (Olds ri). objectKey ss \<noteq> objectKey new" using base_floor_old(2) [OF synced(4)] by blast
  from pass_writes_step [OF synced(1,2) this assms(2,3) synced(5)] synced(3,6)
  have "SpecReplicas new' = i32 (SpecReplicas new + calculateStepSize cd d (SpecReplicas new))" by simp
  moreover have "i32 (SpecReplicas new + calculateStepSize cd d (SpecReplicas new)) =
      SpecReplicas new + calculateStepSize cd d (SpecReplicas new)"
    using step_never_overshoots [OF c(2,1) assms(4,5)] c by (intro i32_idI) auto
  ultimately show "SpecReplicas new' = SpecReplicas new + calculateStepSize cd d (SpecReplicas new)" by simp
qed

lemma round_exists:
  assumes "accepts C" and "subSetControls X t = Some (Adp C)" and "gets_by_name C t"
    and "known_rollout cd" and "0 < BatchSize (Strategy (Spec cd))"
    and "healthy_counts new" and "replica_count (SpecReplicas new)" and "replica_count d"
  shows "\<exists>new'. round_of C cd name d new new' \<and> healthy_counts new' \<and> replica_count (SpecReplicas new')"
proof -
  let ?ri = "zero_region_info\<lparr>New := Some new, DesiredReplicas := d\<rparr>"
  let ?m = "\<lparr>regionInfoMap = [(name, ?ri)], autoScheduleSpec = None, allSubsets = [], unusedSubsets = []\<rparr>"
  let ?n = "SpecReplicas new + calculateStepSize cd d (SpecReplicas new)"
  have m: "mget (regionInfoMap ?m) name = Some ?ri" "New ?ri = Some new" "DesiredReplicas ?ri = d" by simp_all
  have c: "countable_region ?ri new" using assms(6-8) by (simp add: countable_region_def zero_region_info_def)
  obtain m' h' where run: "regionSyncOnce C cd ?m name True [] = (Ok (True, m'), h')"
    using regionSync_succeeds [OF m(1,2) c assms(1-3)] by blast
  define new' where "new' = new\<lparr>SpecReplicas := last_count C (objectKey new) (SpecReplicas new) h', StatusAvailable := 0\<rparr>"
  have "last_count C (objectKey new) (SpecReplicas new) h' = i32 ?n"
    using pass_writes_step [OF m(1,2) _ assms(2,3), where h = "[]" and l = h' and cd = cd] run
    by (simp add: zero_region_info_def)
  moreover have "replica_count ?n" using step_never_overshoots [OF assms(8,7,4,5)] assms(7,8) by auto
  ultimately have n: "SpecReplicas new' = ?n" "replica_count ?n" by (simp_all add: new'_def i32_idI)
  then have "healthy_counts new'" by (simp add: healthy_counts_def new'_def)
  moreover have "objectKey new' = objectKey new" by (simp add: new'_def objectKey_def)
  ultimately have "round_of C cd name d new new'"
    using run by (intro round_of.synced [OF m c, where h = "[]" and m' = m' and l = h']) (simp_all add: new'_def)
  with n \<open>healthy_counts new'\<close> show ?thesis by auto
qed


lemma named_ctl_accepts: "accepts named_ctl"
  by (simp add: accepts_def named_ctl_def sample_server_def)


end
