(* ===== verification/InplaceUpdate.thy ===== *)
theory InplaceUpdate
  imports Conditions
begin

text \<open>
  In-place update of pods: \<open>inplaceset/inplace_update.go\<close> and \<open>inplaceset/batch.go\<close>. The
  update of a pod is recorded in two annotations of the pod, the state (what was updated, from what)
  and, while a grace period runs, the update still to be done; their JSON encodings are parameters.
  Resource versions are not modelled: the API server's answers decide whether a write conflicts.
\<close>

section \<open>Definitions\<close>

text \<open>Condition types of a pod.\<close>

definition InPlaceUpdateReady :: string where
  "InPlaceUpdateReady = ''InPlaceUpdateReady''"
definition PodReady :: string where
  "PodReady = ''Ready''"
definition ContainersReady :: string where
  "ContainersReady = ''ContainersReady''"

definition InPlaceUpdateStateKey :: string where
  "InPlaceUpdateStateKey = ''extendeddeployment.io/inplace-update-state''"
definition InPlaceUpdateGraceKey :: string where
  "InPlaceUpdateGraceKey = ''extendeddeployment.io/inplace-update-grace''"

record InPlaceUpdateContainerStatus =
  ImageID :: string
  ContainerID :: string

record InPlaceUpdateContainerBatch =
  BatchTimestamp :: int
  BatchContainers :: "string list"

record PodInPlaceUpdateState =
  UpdateTimestamp :: int
  StatePodTemplateHash :: string
  LastContainerImage :: "string gomap"
  LastContainerStatuses :: "InPlaceUpdateContainerStatus gomap"
  SpecContainerImages :: "string gomap"
  ContainerBatchesRecord :: "InPlaceUpdateContainerBatch list"

record PodUpdateSpec =
  ContainerImages :: "string gomap"
  GraceSeconds :: int
  OldContainerImages :: "string gomap"
  GracePodTemplateHash :: string

record UpdateResult =
  InPlaceUpdate :: bool
  UpdateErr :: "err option"
  DelayDuration :: int

text \<open>The update specification of an InplaceSet with the images of its template.\<close>

record UpdateSpecImages = InplaceSetUpdateSpec +
  NewImages :: "string gomap"

text \<open>
  The JSON encodings of the two annotations and of the status, the text of an error, and from the Kubernetes controller
  library the order in which pods are preferred for deletion (\<open>ActivePodsWithRanks.Less\<close>, of
  pods with their ranks).
\<close>

record ips_ext =
  marshalState :: "PodInPlaceUpdateState \<Rightarrow> string"
  unmarshalState :: "string \<Rightarrow> err + PodInPlaceUpdateState"
  marshalGrace :: "PodUpdateSpec \<Rightarrow> string"
  unmarshalGrace :: "string \<Rightarrow> err + PodUpdateSpec"
  marshalStatus :: "inplaceset_status \<Rightarrow> string"
  errorText :: "err \<Rightarrow> string"
  podLess :: "pod \<times> int \<Rightarrow> pod \<times> int \<Rightarrow> bool"

text \<open>The reconciler.\<close>

record ips_ctl =
  ISrv :: server
  IExt :: ext
  Codec :: ips_ext
  IDisableInplaceUpdate :: bool
  burstReplicas :: int

subsection \<open>Pods\<close>

definition getCondition :: "pod \<Rightarrow> string \<Rightarrow> condition option" where
  "getCondition pod cType = get_cond (PodConditions pod) cType"

definition IsPodReady :: "pod \<Rightarrow> bool" where
  "IsPodReady pod = (case getCondition pod PodReady of
     None \<Rightarrow> False | Some c \<Rightarrow> CondStatus c = ConditionTrue)"

definition IsPodAvailable :: "pod \<Rightarrow> int \<Rightarrow> int \<Rightarrow> bool" where
  "IsPodAvailable pod minReadySeconds t = (case getCondition pod PodReady of
     None \<Rightarrow> False
   | Some c \<Rightarrow> CondStatus c = ConditionTrue \<and>
       (minReadySeconds = 0 \<or>
        LastTransitionTime c \<noteq> 0 \<and> LastTransitionTime c + minReadySeconds * Second < t))"

definition IsPodActive :: "pod \<Rightarrow> bool" where
  "IsPodActive p \<longleftrightarrow> Phase p \<noteq> PodSucceeded \<and> Phase p \<noteq> PodFailed \<and> DeletionTimestamp p = None"

definition podKey :: "pod \<Rightarrow> nskey" where
  "podKey pod = (Namespace pod, Name pod)"

definition GetContainerStatus :: "string \<Rightarrow> pod \<Rightarrow> container_status option" where
  "GetContainerStatus name pod = find (\<lambda>v. CSName v = name) (ContainerStatuses pod)"

definition getPod :: "ips_ctl \<Rightarrow> nskey \<Rightarrow> pod action" where
  "getPod R k = call (GetPod k) (\<lambda>h. ansGetPod (ISrv R) h k)"

definition containsReadinessGate :: "pod \<Rightarrow> bool" where
  "containsReadinessGate pod = list_ex (\<lambda>r. r = InPlaceUpdateReady) (ReadinessGates (PodSpec pod))"

definition InjectReadinessGate :: "pod \<Rightarrow> pod" where
  "InjectReadinessGate pod =
     (if list_ex (\<lambda>r. r = InPlaceUpdateReady) (ReadinessGates (PodSpec pod)) then pod
      else pod\<lparr>PodSpec := (PodSpec pod)\<lparr>ReadinessGates :=
        ReadinessGates (PodSpec pod) @ [InPlaceUpdateReady]\<rparr>\<rparr>)"

fun setCondLoop :: "condition \<Rightarrow> condition list \<Rightarrow> condition list" where
  "setCondLoop condition [] = [condition]"
| "setCondLoop condition (c # cs) =
     (if CondType c = CondType condition
      then (if CondStatus c \<noteq> CondStatus condition then condition # cs else c # cs)
      else c # setCondLoop condition cs)"

definition setPodCondition :: "pod \<Rightarrow> condition \<Rightarrow> pod" where
  "setPodCondition pod condition = pod\<lparr>PodConditions := setCondLoop condition (PodConditions pod)\<rparr>"

definition show_cond_status :: "cond_status \<Rightarrow> string" where
  "show_cond_status s = (case s of ConditionTrue \<Rightarrow> ''True'' | ConditionFalse \<Rightarrow> ''False''
     | ConditionUnknown \<Rightarrow> ''Unknown'')"

definition quoted :: "string \<Rightarrow> string" where
  "quoted s = CHR 0x22 # s @ [CHR 0x22]"

definition unreadyMessage :: "pod \<Rightarrow> string \<Rightarrow> string option" where
  "unreadyMessage pod gate = (case getCondition pod gate of
     None \<Rightarrow> Some (''corresponding condition of pod readiness gate '' @ quoted gate @ '' does not exist.'')
   | Some c \<Rightarrow>
       (if CondStatus c \<noteq> ConditionTrue
        then Some (''the status of pod readiness gate '' @ quoted gate @ '' is not '' @
          quoted ''True'' @ '', but '' @ show_cond_status (CondStatus c))
        else None))"

definition updatePodReadyCondition :: "server \<Rightarrow> pod \<Rightarrow> pod action" where
  "updatePodReadyCondition S pod = (case (getCondition pod PodReady, getCondition pod ContainersReady) of
     (Some podReady, Some containersReady) \<Rightarrow>
       (if CondStatus containersReady \<noteq> ConditionTrue then ret pod
        else
          (let unreadyMessages = List.map_filter (unreadyMessage pod) (ReadinessGates (PodSpec pod))
           in bind_io (now S) (\<lambda>t.
              ret (setPodCondition pod
                (if unreadyMessages \<noteq> []
                 then \<lparr>CondType = PodReady, CondStatus = ConditionFalse,
                   CondReason = ''ReadinessGatesNotReady'', CondMessage = Join unreadyMessages '', '',
                   LastTransitionTime = 0\<rparr>
                 else \<lparr>CondType = PodReady, CondStatus = ConditionTrue, CondReason = [],
                   CondMessage = [], LastTransitionTime = t\<rparr>)))))
   | _ \<Rightarrow> ret pod)"

definition updateCondition :: "ips_ctl \<Rightarrow> pod \<Rightarrow> condition \<Rightarrow> unit action" where
  "updateCondition R pod condition =
     retryOnConflict DefaultBackoffSteps (
       bind_io (getPod R (podKey pod)) (\<lambda>clone.
       let clone = setPodCondition clone condition
       in bind_io (if CondStatus condition = ConditionFalse
            then updatePodReadyCondition (ISrv R) clone else ret clone) (\<lambda>clone.
          call (UpdatePodStatus clone) (\<lambda>h. ansUpdatePodStatus (ISrv R) h clone))))"

subsection \<open>The annotations\<close>

definition GetInPlaceUpdateGrace :: "ips_ext \<Rightarrow> pod \<Rightarrow> err + PodUpdateSpec option" where
  "GetInPlaceUpdateGrace X obj = (case mget (Annotations obj) InPlaceUpdateGraceKey of
     None \<Rightarrow> Inr None
   | Some v \<Rightarrow> (case unmarshalGrace X v of Inl e \<Rightarrow> Inl e | Inr spec \<Rightarrow> Inr (Some spec)))"

definition GetPodInPlaceUpdateState :: "ips_ext \<Rightarrow> pod \<Rightarrow> err + PodInPlaceUpdateState option" where
  "GetPodInPlaceUpdateState X obj = (case mget (Annotations obj) InPlaceUpdateStateKey of
     None \<Rightarrow> Inr None
   | Some v \<Rightarrow> (case unmarshalState X v of Inl e \<Rightarrow> Inl e | Inr state \<Rightarrow> Inr (Some state)))"

definition RemoveInPlaceUpdateGrace :: "pod \<Rightarrow> pod" where
  "RemoveInPlaceUpdateGrace obj = obj\<lparr>Annotations := mdel InPlaceUpdateGraceKey (Annotations obj)\<rparr>"

subsection \<open>Updating one pod\<close>

text \<open>
  The containers with their new images, the images they had, and the names of those that were
  changed.
\<close>

fun patchContainers :: "string gomap \<Rightarrow> container list \<Rightarrow> string gomap \<Rightarrow>
    container list \<times> string gomap \<times> string list" where
  "patchContainers images [] lastImage = ([], lastImage, [])"
| "patchContainers images (c # cs) lastImage =
     (case mget images (CName c) of
        None \<Rightarrow> (case patchContainers images cs lastImage of
           (cs', l, changed) \<Rightarrow> (c # cs', l, changed))
      | Some newImage \<Rightarrow>
          (case patchContainers images cs (mset_key (CName c) (CImage c) lastImage) of
             (cs', l, changed) \<Rightarrow> (c\<lparr>CImage := newImage\<rparr> # cs', l, CName c # changed)))"

fun recordStatuses :: "string list \<Rightarrow> container_status list \<Rightarrow>
    InPlaceUpdateContainerStatus gomap \<Rightarrow> InPlaceUpdateContainerStatus gomap" where
  "recordStatuses changed [] prev = prev"
| "recordStatuses changed (c # cs) prev =
     recordStatuses changed cs (if CSName c \<in> set changed
       then mset_key (CSName c) \<lparr>ImageID = CSImageID c, ContainerID = CSContainerID c\<rparr> prev else prev)"

definition patchUpdateSpecToPod ::
    "ips_ctl \<Rightarrow> pod \<Rightarrow> PodUpdateSpec \<Rightarrow> PodInPlaceUpdateState \<Rightarrow> pod action" where
  "patchUpdateSpecToPod R pod updateSpec state =
     (case patchContainers (ContainerImages updateSpec) (Containers (PodSpec pod)) (LastContainerImage state) of
        (containers, lastImage, changed) \<Rightarrow>
          bind_io (now (ISrv R)) (\<lambda>t.
          let state = state\<lparr>LastContainerImage := lastImage,
                LastContainerStatuses := recordStatuses changed (ContainerStatuses pod) (LastContainerStatuses state),
                ContainerBatchesRecord := ContainerBatchesRecord state @
                  [\<lparr>BatchTimestamp = t, BatchContainers = sort (remdups changed)\<rparr>]\<rparr>
          in ret (pod\<lparr>PodSpec := (PodSpec pod)\<lparr>Containers := containers\<rparr>,
               Annotations := mset_key InPlaceUpdateStateKey (marshalState (Codec R) state) (Annotations pod)\<rparr>)))"

definition roundupSeconds :: "int \<Rightarrow> int" where
  "roundupSeconds d = (if rem_go d Second = 0 then d else (quot d Second + 1) * Second)"

definition updatePod :: "ips_ctl \<Rightarrow> pod \<Rightarrow> pod action" where
  "updatePod R clone = call (UpdatePod clone) (\<lambda>h. ansUpdatePod (ISrv R) h clone)"

definition finishGracePeriod :: "ips_ctl \<Rightarrow> pod \<Rightarrow> int action" where
  "finishGracePeriod R pod =
     retryOnConflict DefaultBackoffSteps (
       bind_io (getPod R (podKey pod)) (\<lambda>clone.
       bind_io (of_sum (GetInPlaceUpdateGrace (Codec R) clone)) (\<lambda>grace.
       case grace of
         None \<Rightarrow> ret 0
       | Some updateSpec \<Rightarrow>
           (let graceDuration = Second * GraceSeconds updateSpec
            in bind_io (of_sum (GetPodInPlaceUpdateState (Codec R) clone)) (\<lambda>st.
               (case st of
                  None \<Rightarrow> fail (Msg ''pod has the grace annotation but the state was not found'')
                | Some updateState \<Rightarrow>
                    bind_io (now (ISrv R)) (\<lambda>t.
                    let span = t - UpdateTimestamp updateState
                    in if span < graceDuration then ret (roundupSeconds (graceDuration - span))
                       else bind_io (patchUpdateSpecToPod R clone updateSpec updateState) (\<lambda>clone.
                         bind_io (updatePod R (RemoveInPlaceUpdateGrace clone)) (\<lambda>_.
                         bind_io (emit (Event ''SuccessfulInplaceUpdate'')) (\<lambda>_. ret 0))))))))))"

fun completedLoop :: "string gomap \<Rightarrow> string gomap \<Rightarrow> container_status list \<Rightarrow>
    InPlaceUpdateContainerStatus gomap \<Rightarrow> err option" where
  "completedLoop containerImages lastImage [] prev =
     (if prev \<noteq> [] then Some (Msg ''not found statuses of containers'') else None)"
| "completedLoop containerImages lastImage (cs # css) prev =
     (case mget prev (CSName cs) of
        None \<Rightarrow> completedLoop containerImages lastImage css prev
      | Some oldStatus \<Rightarrow>
          (if ImageID oldStatus = CSImageID cs \<and>
              mget_str lastImage (CSName cs) \<noteq> mget_str containerImages (CSName cs) \<and>
              ContainerID oldStatus = CSContainerID cs
           then Some (Msg ''imageID and containerID not changed'')
           else completedLoop containerImages lastImage css (mdel (CSName cs) prev)))"

definition taggedImage :: "string \<Rightarrow> string" where
  "taggedImage img = (if length (Split img (CHR '':'')) \<le> 1 then img @ '':latest'' else img)"

definition taggedImages :: "container list \<Rightarrow> string gomap" where
  "taggedImages cs = foldl (\<lambda>m c. mset_key (CName c) (taggedImage (CImage c)) m) [] cs"

definition checkContainersInPlaceUpdateCompleted :: "pod \<Rightarrow> PodInPlaceUpdateState \<Rightarrow> err option" where
  "checkContainersInPlaceUpdateCompleted pod inPlaceUpdateState =
     completedLoop (taggedImages (Containers (PodSpec pod))) (LastContainerImage inPlaceUpdateState)
       (ContainerStatuses pod) (LastContainerStatuses inPlaceUpdateState)"

text \<open>The delay of the result; its error is an error return.\<close>

definition refreshPod :: "ips_ctl \<Rightarrow> pod \<Rightarrow> int action" where
  "refreshPod R pod =
     bind_io (of_sum (GetInPlaceUpdateGrace (Codec R) pod)) (\<lambda>spec.
     if (case spec of Some s \<Rightarrow> GraceSeconds s > 0 | None \<Rightarrow> False) then finishGracePeriod R pod
     else bind_io (of_sum (GetPodInPlaceUpdateState (Codec R) pod)) (\<lambda>state.
       if (case state of Some st \<Rightarrow> checkContainersInPlaceUpdateCompleted pod st \<noteq> None | None \<Rightarrow> False)
       then ret 0
       else if \<not> containsReadinessGate pod then ret 0
       else if (case getCondition pod InPlaceUpdateReady of
                  Some c \<Rightarrow> CondStatus c = ConditionTrue | None \<Rightarrow> False)
       then ret 0
       else bind_io (now (ISrv R)) (\<lambda>t.
         bind_io (updateCondition R pod \<lparr>CondType = InPlaceUpdateReady, CondStatus = ConditionTrue,
           CondReason = [], CondMessage = [], LastTransitionTime = t\<rparr>) (\<lambda>_. ret 0))))"

definition refreshPods :: "ips_ctl \<Rightarrow> pod list \<Rightarrow> int action" where
  "refreshPods R pods =
     for_io (\<lambda>pod requeueAfter. bind_io (refreshPod R pod) (\<lambda>delay.
       ret (if delay > 0 then delay else requeueAfter))) pods 0"

definition checkPodInplaceUpdateTried :: "ips_ext \<Rightarrow> pod \<Rightarrow> UpdateSpecImages \<Rightarrow> err + bool" where
  "checkPodInplaceUpdateTried X pod spec = (case GetPodInPlaceUpdateState X pod of
     Inl e \<Rightarrow> Inl e
   | Inr None \<Rightarrow> Inr False
   | Inr (Some state) \<Rightarrow>
       (if PodTemplateHash spec \<noteq> StatePodTemplateHash state then Inr False
        else Inr (list_all (\<lambda>(c, newImg).
          (case mget (SpecContainerImages state) c of
             None \<Rightarrow> True | Some stateSpecImg \<Rightarrow> newImg = stateSpecImg)) (NewImages spec))))"

definition startState :: "PodUpdateSpec \<Rightarrow> int \<Rightarrow> PodInPlaceUpdateState" where
  "startState spec t = \<lparr>UpdateTimestamp = t, StatePodTemplateHash = GracePodTemplateHash spec,
     LastContainerImage = [], LastContainerStatuses = [],
     SpecContainerImages = ContainerImages spec, ContainerBatchesRecord = []\<rparr>"

text \<open>The pod as it is written: patched at once, or with the update to be done after the grace period.\<close>

definition preparePod :: "ips_ctl \<Rightarrow> PodUpdateSpec \<Rightarrow> int \<Rightarrow> pod \<Rightarrow> pod action" where
  "preparePod R spec t clone =
     (let clone = clone\<lparr>Annotations := mset_key InPlaceUpdateStateKey
            (marshalState (Codec R) (startState spec t)) (Annotations clone)\<rparr>
      in if GraceSeconds spec \<le> 0
         then bind_io (patchUpdateSpecToPod R clone spec (startState spec t)) (\<lambda>clone.
           ret (RemoveInPlaceUpdateGrace clone))
         else ret (clone\<lparr>Annotations := mset_key InPlaceUpdateGraceKey
           (marshalGrace (Codec R) spec) (Annotations clone)\<rparr>))"

definition updatePodInPlace :: "ips_ctl \<Rightarrow> pod \<Rightarrow> PodUpdateSpec \<Rightarrow> unit action" where
  "updatePodInPlace R pod spec =
     retryOnConflict DefaultBackoffSteps (
       bind_io (getPod R (podKey pod)) (\<lambda>clone.
       bind_io (now (ISrv R)) (\<lambda>t.
       bind_io (preparePod R spec t clone) (\<lambda>clone.
       bind_io (updatePod R clone) (\<lambda>_.
       if GraceSeconds spec \<le> 0 then emit (Event ''SuccessfulInplaceUpdate'') else ret ())))))"

definition failedUpdate :: "bool \<Rightarrow> err \<Rightarrow> UpdateResult" where
  "failedUpdate b e = \<lparr>InPlaceUpdate = b, UpdateErr = Some e, DelayDuration = 0\<rparr>"

definition closeGate :: "ips_ctl \<Rightarrow> pod \<Rightarrow> unit action" where
  "closeGate R pod =
     bind_io (now (ISrv R)) (\<lambda>t.
     updateCondition R pod \<lparr>CondType = InPlaceUpdateReady, CondStatus = ConditionFalse,
       CondReason = ''StartInPlaceUpdate'', CondMessage = [], LastTransitionTime = t\<rparr>)"

definition TryInplaceUpdate :: "ips_ctl \<Rightarrow> inplace_set \<Rightarrow> pod \<Rightarrow> UpdateSpecImages \<Rightarrow> UpdateResult action" where
  "TryInplaceUpdate R ips pod spc =
     (let graceSecond = (case IInPlaceGrace ips of
            Some g \<Rightarrow> g | None \<Rightarrow> (if containsReadinessGate pod then 1 else 0))
      in case checkPodInplaceUpdateTried (Codec R) pod spc of
        Inl e \<Rightarrow> ret (failedUpdate False e)
      | Inr True \<Rightarrow> ret \<lparr>InPlaceUpdate = False, UpdateErr = None, DelayDuration = 0\<rparr>
      | Inr False \<Rightarrow>
          bind_io (attempt (if containsReadinessGate pod then closeGate R pod else ret ())) (\<lambda>c.
          (case c of
             Inl e \<Rightarrow> ret (failedUpdate True e)
           | Inr _ \<Rightarrow>
               bind_io (attempt (updatePodInPlace R pod \<lparr>ContainerImages = NewImages spc,
                 GraceSeconds = graceSecond, OldContainerImages = [],
                 GracePodTemplateHash = PodTemplateHash spc\<rparr>)) (\<lambda>u.
               (case u of
                  Inl e \<Rightarrow> ret (failedUpdate True e)
                | Inr _ \<Rightarrow> ret \<lparr>InPlaceUpdate = True, UpdateErr = None,
                    DelayDuration = (if graceSecond > 0 then Second * graceSecond else 0)\<rparr>)))))"

subsection \<open>Batches\<close>

definition templateImages :: "inplace_set \<Rightarrow> string gomap" where
  "templateImages ips =
     foldl (\<lambda>m c. mset_key (CName c) (CImage c) m) [] (Containers (TemplateSpec (ITemplate ips)))"

definition getInplaceSetUpdateSpec ::
    "ext \<Rightarrow> inplace_set \<Rightarrow> err + UpdateSpecImages option" where
  "getInplaceSetUpdateSpec X ips = (case GetInplaceSetUpdateSpec X (Annotations ips) of
     (_, _, Some e) \<Rightarrow> Inl e
   | (Some spec, True, None) \<Rightarrow> Inr (Some \<lparr>UpdatePodNum = UpdatePodNum spec,
       PodTemplateHash = PodTemplateHash spec, NewImages = templateImages ips\<rparr>)
   | _ \<Rightarrow> Inr None)"

fun getInplaceUpdateNotTriedPods :: "ips_ext \<Rightarrow> pod list \<Rightarrow> UpdateSpecImages \<Rightarrow> err + pod list" where
  "getInplaceUpdateNotTriedPods X [] spec = Inr []"
| "getInplaceUpdateNotTriedPods X (pod # pods) spec =
     (case checkPodInplaceUpdateTried X pod spec of
        Inl e \<Rightarrow> Inl e
      | Inr tried \<Rightarrow> (case getInplaceUpdateNotTriedPods X pods spec of
           Inl e \<Rightarrow> Inl e
         | Inr rest \<Rightarrow> Inr (if tried then rest else pod # rest)))"

definition getNeedInplaceUpdatePods ::
    "ips_ext \<Rightarrow> inplace_set \<Rightarrow> pod list \<Rightarrow> UpdateSpecImages \<Rightarrow> err + pod list" where
  "getNeedInplaceUpdatePods X ips pods spec =
     (if IUpdateType ips = RecreateUpdateStrategyType then Inr []
      else (case getInplaceUpdateNotTriedPods X pods spec of
         Inl e \<Rightarrow> Inl e
       | Inr notTriedPods \<Rightarrow>
           (let total = (if UpdatePodNum spec > int (length pods) then int (length pods)
                         else UpdatePodNum spec);
                triedPodsNum = int (length pods) - int (length notTriedPods)
            in if triedPodsNum \<ge> total then Inr []
               else
                 (let needToTryNum = total - triedPodsNum
                  in if needToTryNum \<ge> int (length notTriedPods) then Inr notTriedPods
                     else Inr (take (nat needToTryNum) notTriedPods)))))"

text \<open>
  The images are compared, but the \<open>continue\<close> that should skip a pod with other images ends only
  the comparison of one container: the comparison has no effect.
\<close>

definition getInplaceUpdatedPods :: "ips_ext \<Rightarrow> pod list \<Rightarrow> UpdateSpecImages \<Rightarrow> pod list" where
  "getInplaceUpdatedPods X pods spec =
     filter (\<lambda>pod. case GetPodInPlaceUpdateState X pod of
        Inr (Some state) \<Rightarrow> PodTemplateHash spec = StatePodTemplateHash state | _ \<Rightarrow> False) pods"

text \<open>
  A failed update ends the batch; what is returned then is the error of the call before, which is
  nil: no error.
\<close>

fun updateBatch :: "ips_ctl \<Rightarrow> inplace_set \<Rightarrow> UpdateSpecImages \<Rightarrow> pod list \<Rightarrow> int \<Rightarrow> int action" where
  "updateBatch R ips spec [] requeAfter = ret requeAfter"
| "updateBatch R ips spec (pod # pods) requeAfter =
     bind_io (TryInplaceUpdate R ips pod spec) (\<lambda>res.
     if UpdateErr res \<noteq> None then ret 0
     else updateBatch R ips spec pods
       (if InPlaceUpdate res \<and> DelayDuration res > 0 then DelayDuration res else requeAfter))"

definition manageInplaceUpdate :: "ips_ctl \<Rightarrow> pod list \<Rightarrow> inplace_set \<Rightarrow> int action" where
  "manageInplaceUpdate R filteredPods ips =
     bind_io (of_sum (getInplaceSetUpdateSpec (IExt R) ips)) (\<lambda>sp.
     case sp of
       None \<Rightarrow> ret 0
     | Some spec \<Rightarrow>
         bind_io (of_sum (getNeedInplaceUpdatePods (Codec R) ips filteredPods spec)) (\<lambda>pods.
         updateBatch R ips spec pods 0))"

text \<open>The ready and the available pods among the updated ones.\<close>

definition countUpdated :: "ips_ctl \<Rightarrow> inplace_set \<Rightarrow> pod \<Rightarrow> int \<times> int \<Rightarrow> (int \<times> int) action" where
  "countUpdated R ips pod ra =
     (case GetPodInPlaceUpdateState (Codec R) pod of
        Inr (Some state) \<Rightarrow>
          (if IsPodReady pod \<and> checkContainersInPlaceUpdateCompleted pod state = None
           then bind_io (now (ISrv R)) (\<lambda>t.
             ret (i32 (fst ra + 1),
               if IsPodAvailable pod (IMinReadySeconds ips) t then i32 (snd ra + 1) else snd ra))
           else ret ra)
      | _ \<Rightarrow> ret ra)"

definition calcInplaceUpdateStatus ::
    "ips_ctl \<Rightarrow> inplace_set \<Rightarrow> pod list \<Rightarrow> inplace_update_status option action" where
  "calcInplaceUpdateStatus R ips filteredPods =
     bind_io (of_sum (getInplaceSetUpdateSpec (IExt R) ips)) (\<lambda>sp.
     case sp of
       None \<Rightarrow> ret None
     | Some spec \<Rightarrow>
         bind_io (for_io (countUpdated R ips) (getInplaceUpdatedPods (Codec R) filteredPods spec) (0, 0)) (\<lambda>ra.
         ret (Some \<lparr>IUSReady = fst ra, IUSAvailable = snd ra, IUSPodTemplateHash = PodTemplateHash spec\<rparr>)))"

section \<open>How many pods are updated\<close>

definition tried :: "ips_ext \<Rightarrow> UpdateSpecImages \<Rightarrow> pod \<Rightarrow> bool" where
  "tried X spec pod \<longleftrightarrow> checkPodInplaceUpdateTried X pod spec = Inr True"

lemma notTriedPods_filter:
  "getInplaceUpdateNotTriedPods X pods spec = Inr xs \<Longrightarrow> xs = filter (\<lambda>p. \<not> tried X spec p) pods"
  by (induction X pods spec arbitrary: xs rule: getInplaceUpdateNotTriedPods.induct)
    (auto simp: tried_def split: sum.splits if_splits)

text \<open>
  An in-place update takes the pods in batches of the right size. The pods chosen are the first
  ones not yet updated to this template, and together with those already updated they are as many as
  the update specification asks for, as far as there are pods: never more, and never fewer.
\<close>

theorem inplace_batch_size:
  assumes "getNeedInplaceUpdatePods X ips pods spec = Inr need"
    and "IUpdateType ips \<noteq> RecreateUpdateStrategyType"
  shows "(\<exists>rest. filter (\<lambda>p. \<not> tried X spec p) pods = need @ rest) \<and>
     int (length (filter (tried X spec) pods)) + int (length need) =
       max (int (length (filter (tried X spec) pods))) (min (UpdatePodNum spec) (int (length pods)))"
proof -
  obtain xs where xs: "getInplaceUpdateNotTriedPods X pods spec = Inr xs"
    using assms by (auto simp: getNeedInplaceUpdatePods_def split: sum.splits)
  define t where "t = length (filter (tried X spec) pods)"
  have eq: "xs = filter (\<lambda>p. \<not> tried X spec p) pods"
    using notTriedPods_filter [OF xs] .
  have len: "length pods = t + length xs"
    unfolding eq t_def using sum_length_filter_compl [of "tried X spec" pods] by simp
  have "\<exists>rest. xs = take n xs @ rest" for n
    by (metis append_take_drop_id)
  with assms xs len show ?thesis
    by (auto simp: getNeedInplaceUpdatePods_def Let_def eq [symmetric] t_def [symmetric]
        split: if_splits)
qed

section \<open>Conditions of a pod\<close>

lemma get_cond_setCondLoop:
  "get_cond (setCondLoop c cs) t =
     (if t = CondType c
      then (case get_cond cs t of
              Some d \<Rightarrow> if CondStatus d = CondStatus c then Some d else Some c | None \<Rightarrow> Some c)
      else get_cond cs t)"
  by (induction cs) (auto simp: get_cond_def)

lemma getCondition_setPodCondition:
  "getCondition (setPodCondition pod c) t =
     (if t = CondType c
      then (case getCondition pod t of
              Some d \<Rightarrow> if CondStatus d = CondStatus c then Some d else Some c | None \<Rightarrow> Some c)
      else getCondition pod t)"
  by (simp add: getCondition_def setPodCondition_def get_cond_setCondLoop)

definition gate_closed :: "pod \<Rightarrow> bool" where
  "gate_closed pod = (case getCondition pod InPlaceUpdateReady of
     Some c \<Rightarrow> CondStatus c = ConditionFalse | None \<Rightarrow> False)"

lemma gate_closed_set:
  "CondType c = InPlaceUpdateReady \<Longrightarrow> CondStatus c = ConditionFalse \<Longrightarrow> gate_closed (setPodCondition pod c)"
  by (auto simp: gate_closed_def getCondition_setPodCondition split: option.splits)

lemma gate_closed_ready:
  assumes "updatePodReadyCondition S pod h = (Ok p, h')" and "gate_closed pod"
  shows "gate_closed p"
proof -
  have "InPlaceUpdateReady \<noteq> PodReady" by (simp add: InPlaceUpdateReady_def PodReady_def)
  then have "gate_closed (setPodCondition pod c) = gate_closed pod" if "CondType c = PodReady" for c
    using that by (simp add: gate_closed_def getCondition_setPodCondition)
  then show ?thesis
    using assms
    by (auto simp: updatePodReadyCondition_def Let_def elim!: bind_OkE split: option.splits if_splits)
qed

section \<open>What is sent\<close>

definition no_pod_write :: "req \<Rightarrow> bool" where
  "no_pod_write q \<longleftrightarrow> (\<forall>p. q \<noteq> UpdatePod p)"

lemma no_pod_write_simps [simp]:
  "no_pod_write (GetPod k)" "no_pod_write Now" "no_pod_write (UpdatePodStatus q)"
  "no_pod_write (Event e)" "\<not> no_pod_write (UpdatePod p)"
  by (simp_all add: no_pod_write_def)

lemma emits_getPod [emits_intros]: "P (GetPod k) \<Longrightarrow> emits P (getPod R k)"
  unfolding getPod_def by (intro emits_intros)

lemma emits_updatePodReadyCondition [emits_intros]:
  "P Now \<Longrightarrow> emits P (updatePodReadyCondition S pod)"
  unfolding updatePodReadyCondition_def by (intro emits_intros)

lemma updateCondition_no_pod_write: "emits no_pod_write (updateCondition R pod c)"
  unfolding updateCondition_def by (intro emits_intros) simp_all

text \<open>The pod status that \<open>updateCondition\<close> got accepted, with the requests around it.\<close>

lemma updateCondition_closes:
  assumes "updateCondition R pod c h = (Ok (), h')" and "CondType c = InPlaceUpdateReady"
    and "CondStatus c = ConditionFalse"
  shows "\<exists>l q. h' = h @ l @ [UpdatePodStatus q] \<and> list_all no_pod_write l \<and> gate_closed q \<and>
     ansUpdatePodStatus (ISrv R) (h @ l) q = Inr ()"
proof -
  let ?f = "bind_io (getPod R (podKey pod)) (\<lambda>clone.
       let clone = setPodCondition clone c
       in bind_io (if CondStatus c = ConditionFalse
            then updatePodReadyCondition (ISrv R) clone else ret clone) (\<lambda>clone.
          call (UpdatePodStatus clone) (\<lambda>h. ansUpdatePodStatus (ISrv R) h clone)))"
  have em: "emits no_pod_write ?f" by (intro emits_intros) simp_all
  obtain l where l: "?f (h @ l) = (Ok (), h')" "list_all no_pod_write l"
    using retry_emitsE [OF assms(1) [unfolded updateCondition_def] em] .
  from l(1) obtain clone g where g: "getPod R (podKey pod) (h @ l) = (Ok clone, g)"
    "(let clone = setPodCondition clone c
       in bind_io (if CondStatus c = ConditionFalse
            then updatePodReadyCondition (ISrv R) clone else ret clone) (\<lambda>clone.
          call (UpdatePodStatus clone) (\<lambda>h. ansUpdatePodStatus (ISrv R) h clone))) g = (Ok (), h')"
    by (rule bind_OkE)
  from g(2) obtain q g' where
    q: "updatePodReadyCondition (ISrv R) (setPodCondition clone c) g = (Ok q, g')"
      "ansUpdatePodStatus (ISrv R) g' q = Inr ()" "h' = g' @ [UpdatePodStatus q]"
    using assms(3) by (auto simp: Let_def elim: bind_OkE)
  have "gate_closed q"
    using gate_closed_ready [OF q(1)] gate_closed_set assms(2,3) by blast
  moreover obtain l1 l2 where "g = (h @ l) @ l1" "list_all no_pod_write l1"
    "g' = g @ l2" "list_all no_pod_write l2"
    using emitsD [OF emits_getPod g(1)] emitsD [OF emits_updatePodReadyCondition q(1)]
    by (metis no_pod_write_simps(1,2))
  ultimately show ?thesis
    using l(2) q(2,3) by (intro exI [of _ "l @ l1 @ l2"] exI [of _ q]) simp
qed

lemma closeGate_no_pod_write: "emits no_pod_write (closeGate R pod)"
  unfolding closeGate_def by (intro emits_intros updateCondition_no_pod_write) simp

lemma closeGate_closes:
  assumes "closeGate R pod h = (Ok (), h')"
  shows "\<exists>l q. h' = h @ l @ [UpdatePodStatus q] \<and> list_all no_pod_write l \<and> gate_closed q \<and>
     ansUpdatePodStatus (ISrv R) (h @ l) q = Inr ()"
proof -
  from assms obtain t h1 where t: "now (ISrv R) h = (Ok t, h1)"
    "updateCondition R pod \<lparr>CondType = InPlaceUpdateReady, CondStatus = ConditionFalse,
       CondReason = ''StartInPlaceUpdate'', CondMessage = [], LastTransitionTime = t\<rparr> h1 = (Ok (), h')"
    unfolding closeGate_def by (rule bind_OkE)
  have "h1 = h @ [Now]" using t(1) by (simp add: now_def)
  moreover obtain l q where "h' = h1 @ l @ [UpdatePodStatus q]" "list_all no_pod_write l" "gate_closed q"
    "ansUpdatePodStatus (ISrv R) (h1 @ l) q = Inr ()"
    using updateCondition_closes [OF t(2)] by auto
  ultimately show ?thesis by (intro exI [of _ "Now # l"] exI [of _ q]) simp
qed

text \<open>An inspected action that fails sends no more than the action itself.\<close>

lemma bind_attempt_cases:
  assumes "bind_io (attempt m) f h = (r, h')" and "emits P m" and "\<And>e g. snd (f (Inl e) g) = g"
  obtains l where "h' = h @ l" and "list_all P l"
  | x g where "m h = (Ok x, g)" and "f (Inr x) g = (r, h')"
proof -
  obtain res g where g: "m h = (res, g)" by (cases "m h")
  obtain l where l: "g = h @ l" "list_all P l" using emitsD [OF assms(2) g] by blast
  show thesis
  proof (cases res)
    case (Ok x)
    then show thesis using that(2) g assms(1) by (simp add: bind_io_def attempt_def)
  next
    case (Err e)
    then have "h' = g" using g assms(1) assms(3) [of e g] by (simp add: bind_io_def attempt_def)
    then show thesis using that(1) l by blast
  next
    case (Panic e)
    then have "h' = g" using g assms(1) by (simp add: bind_io_def attempt_def)
    then show thesis using that(1) l by blast
  qed
qed

lemma emits_all_updatePodInPlace: "emits (\<lambda>_. True) (updatePodInPlace R pod spec)"
  unfolding updatePodInPlace_def preparePod_def patchUpdateSpecToPod_def updatePod_def
  by (intro emits_intros) simp_all


section \<open>What an update writes\<close>

text \<open>
  What the code relies on of the JSON encodings: decoding an encoded state or update gives back the
  hash, the seconds and the images, the latter up to the order of the keys.
\<close>

definition codec_ok :: "ips_ext \<Rightarrow> bool" where
  "codec_ok X \<longleftrightarrow>
     (\<forall>s. \<exists>t. unmarshalState X (marshalState X s) = Inr t \<and>
        StatePodTemplateHash t = StatePodTemplateHash s \<and>
        map_of (SpecContainerImages t) = map_of (SpecContainerImages s)) \<and>
     (\<forall>s. is_i32 (GraceSeconds s) \<longrightarrow> (\<exists>t. unmarshalGrace X (marshalGrace X s) = Inr t \<and>
        GraceSeconds t = GraceSeconds s \<and> GracePodTemplateHash t = GracePodTemplateHash s \<and>
        map_of (ContainerImages t) = map_of (ContainerImages s)))"

definition patched :: "string gomap \<Rightarrow> container \<Rightarrow> container" where
  "patched images c = (case mget images (CName c) of None \<Rightarrow> c | Some i \<Rightarrow> c\<lparr>CImage := i\<rparr>)"

lemma patchContainers_containers [simp]:
  "fst (patchContainers images cs prev) = map (patched images) cs"
  by (induction images cs prev rule: patchContainers.induct)
    (auto simp: patched_def split: option.splits prod.splits)

lemma state_key_neq_grace_key [simp]: "InPlaceUpdateStateKey \<noteq> InPlaceUpdateGraceKey"
  "InPlaceUpdateGraceKey \<noteq> InPlaceUpdateStateKey"
  by (simp_all add: InPlaceUpdateStateKey_def InPlaceUpdateGraceKey_def)

lemma patchUpdateSpecToPod_ok:
  assumes "patchUpdateSpecToPod R pod spec st h = (Ok p, h')"
  shows "h' = h @ [Now] \<and> Containers (PodSpec p) = map (patched (ContainerImages spec)) (Containers (PodSpec pod)) \<and>
     (\<forall>k. k \<noteq> InPlaceUpdateStateKey \<longrightarrow> mget (Annotations p) k = mget (Annotations pod) k) \<and>
     (\<exists>st'. StatePodTemplateHash st' = StatePodTemplateHash st \<and>
        SpecContainerImages st' = SpecContainerImages st \<and>
        mget (Annotations p) InPlaceUpdateStateKey = Some (marshalState (Codec R) st'))"
proof -
  obtain cs l ch where pc: "patchContainers (ContainerImages spec) (Containers (PodSpec pod))
      (LastContainerImage st) = (cs, l, ch)" by (metis prod_cases3)
  then have "cs = map (patched (ContainerImages spec)) (Containers (PodSpec pod))"
    by (metis fst_conv patchContainers_containers)
  with assms pc show ?thesis
    by (auto simp: patchUpdateSpecToPod_def now_def Let_def elim!: bind_OkE
        intro!: exI [of _ "st\<lparr>LastContainerImage := _, LastContainerStatuses := _, ContainerBatchesRecord := _\<rparr>"])
qed

lemma patchUpdateSpecToPod_returns: "\<exists>p. patchUpdateSpecToPod R pod spec st h = (Ok p, h @ [Now])"
  by (cases "patchContainers (ContainerImages spec) (Containers (PodSpec pod)) (LastContainerImage st)")
    (simp add: patchUpdateSpecToPod_def now_def call_def bind_io_def Let_def ret_def)

lemma tried_written:
  assumes "codec_ok (Codec R)" and "mget (Annotations p) InPlaceUpdateStateKey = Some (marshalState (Codec R) st)"
    and "StatePodTemplateHash st = PodTemplateHash spc" and "SpecContainerImages st = NewImages spc"
    and "distinct (map fst (NewImages spc))"
  shows "tried (Codec R) spc p"
proof -
  obtain t where "unmarshalState (Codec R) (marshalState (Codec R) st) = Inr t"
    "StatePodTemplateHash t = StatePodTemplateHash st"
    "map_of (SpecContainerImages t) = map_of (SpecContainerImages st)"
    using assms(1) unfolding codec_ok_def by blast
  with assms(2-5) show ?thesis
    by (auto simp: tried_def checkPodInplaceUpdateTried_def GetPodInPlaceUpdateState_def list_all_iff
        dest: eq_key_imp_eq_value split: option.splits)
qed

text \<open>What the pod written at the end of a successful update looks like.\<close>

definition updated_pod :: "ips_ctl \<Rightarrow> PodUpdateSpec \<Rightarrow> pod \<Rightarrow> pod \<Rightarrow> bool" where
  "updated_pod R spec read p \<longleftrightarrow>
     (if GraceSeconds spec \<le> 0
      then Containers (PodSpec p) = map (patched (ContainerImages spec)) (Containers (PodSpec read)) \<and>
        mget (Annotations p) InPlaceUpdateGraceKey = None
      else PodSpec p = PodSpec read \<and>
        mget (Annotations p) InPlaceUpdateGraceKey = Some (marshalGrace (Codec R) spec))"

lemma preparePod_ok:
  assumes "preparePod R spec t read h = (Ok p, h')"
  shows "updated_pod R spec read p \<and>
    (\<exists>st. StatePodTemplateHash st = GracePodTemplateHash spec \<and>
      SpecContainerImages st = ContainerImages spec \<and>
      mget (Annotations p) InPlaceUpdateStateKey = Some (marshalState (Codec R) st))"
proof (cases "GraceSeconds spec \<le> 0")
  case True
  with assms obtain p0 where
    "patchUpdateSpecToPod R (read\<lparr>Annotations := mset_key InPlaceUpdateStateKey
        (marshalState (Codec R) (startState spec t)) (Annotations read)\<rparr>) spec (startState spec t) h = (Ok p0, h')"
    "p = RemoveInPlaceUpdateGrace p0"
    by (auto simp: preparePod_def elim: bind_OkE)
  with True patchUpdateSpecToPod_ok [OF this(1)] show ?thesis
    by (auto simp: updated_pod_def RemoveInPlaceUpdateGrace_def startState_def)
next
  case False
  with assms show ?thesis
    by (auto simp: preparePod_def updated_pod_def intro!: exI [of _ "startState spec t"])
      (simp_all add: startState_def)
qed

lemma updatePodInPlace_writes:
  assumes "updatePodInPlace R pod spec h = (Ok (), h')"
  obtains g read t g2 p g' p' where "ansGetPod (ISrv R) g (podKey pod) = Inr read"
    and "preparePod R spec t read g2 = (Ok p, g')" and "ansUpdatePod (ISrv R) g' p = Inr p'"
    and "h' = g' @ UpdatePod p # (if GraceSeconds spec \<le> 0 then [Event ''SuccessfulInplaceUpdate''] else [])"
proof -
  from assms obtain g where "bind_io (getPod R (podKey pod)) (\<lambda>clone.
       bind_io (now (ISrv R)) (\<lambda>t.
       bind_io (preparePod R spec t clone) (\<lambda>clone.
       bind_io (updatePod R clone) (\<lambda>_.
       if GraceSeconds spec \<le> 0 then emit (Event ''SuccessfulInplaceUpdate'') else ret ())))) g = (Ok (), h')"
    unfolding updatePodInPlace_def by (rule retry_OkE)
  then obtain read g1 t g2 p g' p' g3 where
    "getPod R (podKey pod) g = (Ok read, g1)" and "preparePod R spec t read g2 = (Ok p, g')"
    and "updatePod R p g' = (Ok p', g3)"
      "(if GraceSeconds spec \<le> 0 then emit (Event ''SuccessfulInplaceUpdate'') else ret ()) g3 = (Ok (), h')"
    by (auto elim!: bind_OkE)
  then show thesis
    by (intro that [of g read t g2 p g' p']) (auto simp: getPod_def updatePod_def split: if_splits)
qed

text \<open>
  C24: a successful in-place update ends with a write, accepted by the API server, of the pod as it
  was just read, changed in this way: without a grace period every container that has a new image in
  the template gets it and nothing of the others changes, and no postponed update is left; with a
  grace period the pod runs on unchanged and carries the update to be done. Either way the written
  pod counts as updated to the template, so the next batch takes other pods.
\<close>

theorem inplace_update_writes:
  assumes "updatePodInPlace R pod spec h = (Ok (), h')" and "codec_ok (Codec R)"
    and "GracePodTemplateHash spec = PodTemplateHash spc" and "ContainerImages spec = NewImages spc"
    and "distinct (map fst (NewImages spc))"
  shows "\<exists>g read g' p p' l. ansGetPod (ISrv R) g (podKey pod) = Inr read \<and>
     h' = g' @ UpdatePod p # l \<and> ansUpdatePod (ISrv R) g' p = Inr p' \<and> list_all no_pod_write l \<and>
     updated_pod R spec read p \<and> tried (Codec R) spc p"
proof -
  obtain g read t g2 p g' p' where w: "ansGetPod (ISrv R) g (podKey pod) = Inr read"
    "preparePod R spec t read g2 = (Ok p, g')" "ansUpdatePod (ISrv R) g' p = Inr p'"
    "h' = g' @ UpdatePod p # (if GraceSeconds spec \<le> 0 then [Event ''SuccessfulInplaceUpdate''] else [])"
    using assms(1) by (rule updatePodInPlace_writes)
  obtain st where "updated_pod R spec read p" "StatePodTemplateHash st = GracePodTemplateHash spec"
    "SpecContainerImages st = ContainerImages spec"
    "mget (Annotations p) InPlaceUpdateStateKey = Some (marshalState (Codec R) st)"
    using preparePod_ok [OF w(2)] by blast
  moreover from this(2-4) have "tried (Codec R) spc p"
    using tried_written [OF assms(2)] assms(3-5) by simp
  ultimately show ?thesis using w(1,3,4)
    by (intro exI [of _ g] exI [of _ read] exI [of _ g'] exI [of _ p] exI [of _ p']
        exI [of _ "if GraceSeconds spec \<le> 0 then [Event ''SuccessfulInplaceUpdate''] else []"]) simp
qed

text \<open>An update does return when the API server answers the read and the write.\<close>

lemma succeeds_patchUpdateSpecToPod [succeeds_intros]: "succeeds (patchUpdateSpecToPod R pod spec st)"
  unfolding patchUpdateSpecToPod_def by (intro succeeds_intros)

lemma updatePodInPlace_succeeds:
  assumes "\<And>g. \<exists>read. ansGetPod (ISrv R) g (podKey pod) = Inr read"
    and "\<And>g p. \<exists>p'. ansUpdatePod (ISrv R) g p = Inr p'"
  shows "succeeds (updatePodInPlace R pod spec)"
  unfolding updatePodInPlace_def preparePod_def getPod_def updatePod_def
  by (intro succeeds_intros assms) (simp add: DefaultBackoffSteps_def)

lemma closeGate_succeeds:
  assumes "\<And>g. \<exists>read. ansGetPod (ISrv R) g (podKey pod) = Inr read"
    and "\<And>g p. \<exists>u. ansUpdatePodStatus (ISrv R) g p = Inr u"
  shows "succeeds (closeGate R pod)"
  unfolding closeGate_def updateCondition_def getPod_def updatePodReadyCondition_def
  by (intro succeeds_intros assms) (simp add: DefaultBackoffSteps_def)

section \<open>The grace period\<close>

lemma roundupSeconds_bounds:
  assumes "0 < d"
  shows "d \<le> roundupSeconds d \<and> roundupSeconds d < d + Second \<and> Second dvd roundupSeconds d"
proof -
  have q: "quot d Second = d div Second" using assms by (simp add: quot_nonneg Second_def)
  have r: "rem_go d Second = d mod Second" by (simp add: rem_go_def q minus_mult_div_eq_mod)
  have "d = d div Second * Second + d mod Second" and "0 \<le> d mod Second" and "d mod Second < Second"
    by (simp_all add: Second_def)
  then have "d \<le> (d div Second + 1) * Second" "(d div Second + 1) * Second \<le> d + Second"
    "d mod Second \<noteq> 0 \<Longrightarrow> (d div Second + 1) * Second < d + Second"
    by (linarith | simp add: distrib_right)+
  then show ?thesis
    unfolding roundupSeconds_def q r by (auto simp: dvd_eq_mod_eq_0 Second_def)
qed

text \<open>
  C25: the grace period is kept. While it runs nothing is written: the pod is looked at again after
  the remaining time, rounded up to a full second. Once it is over the pod is written with the
  images it waited for and without the postponed update.
\<close>

theorem grace_period_kept:
  assumes "ansGetPod (ISrv R) h (podKey pod) = Inr read"
    and "GetInPlaceUpdateGrace (Codec R) read = Inr (Some spec)"
    and "GetPodInPlaceUpdateState (Codec R) read = Inr (Some st)"
    and "\<And>g p. \<exists>p'. ansUpdatePod (ISrv R) g p = Inr p'"
    and "left = Second * GraceSeconds spec -
      (ansNow (ISrv R) (h @ [GetPod (podKey pod)]) - UpdateTimestamp st)"
  shows "if left > 0
     then \<exists>d. finishGracePeriod R pod h = (Ok d, h @ [GetPod (podKey pod), Now]) \<and>
       left \<le> d \<and> d < left + Second \<and> Second dvd d
     else \<exists>p. finishGracePeriod R pod h =
         (Ok 0, h @ [GetPod (podKey pod), Now, Now, UpdatePod p, Event ''SuccessfulInplaceUpdate'']) \<and>
       Containers (PodSpec p) = map (patched (ContainerImages spec)) (Containers (PodSpec read)) \<and>
       mget (Annotations p) InPlaceUpdateGraceKey = None"
proof -
  let ?t = "ansNow (ISrv R) (h @ [GetPod (podKey pod)])"
  have rest: "Second * GraceSeconds spec - (?t - UpdateTimestamp st) = left"
    "?t - UpdateTimestamp st < Second * GraceSeconds spec \<longleftrightarrow> 0 < left"
    using assms(5) by auto
  show ?thesis
  proof (cases "left > 0")
    case True
    with assms(1-3) rest have "finishGracePeriod R pod h = (Ok (roundupSeconds left), h @ [GetPod (podKey pod), Now])"
      unfolding finishGracePeriod_def
      by (intro retry_first)
        (simp_all add: bind_io_def getPod_def call_def now_def Let_def ret_def DefaultBackoffSteps_def)
    with True roundupSeconds_bounds [OF True] show ?thesis by auto
  next
    case False
    let ?h = "h @ [GetPod (podKey pod), Now]"
    obtain p where p: "patchUpdateSpecToPod R read spec st ?h = (Ok p, ?h @ [Now])"
      using patchUpdateSpecToPod_returns by blast
    let ?p = "RemoveInPlaceUpdateGrace p"
    obtain p' where "ansUpdatePod (ISrv R) (?h @ [Now]) ?p = Inr p'" using assms(4) by blast
    then have "finishGracePeriod R pod h =
        (Ok 0, h @ [GetPod (podKey pod), Now, Now, UpdatePod ?p, Event ''SuccessfulInplaceUpdate''])"
      using False assms(1-3) rest p unfolding finishGracePeriod_def
      by (intro retry_first)
        (simp_all add: bind_io_def getPod_def updatePod_def call_def now_def Let_def ret_def
          DefaultBackoffSteps_def emit_def)
    moreover have "Containers (PodSpec ?p) = map (patched (ContainerImages spec)) (Containers (PodSpec read))"
      "mget (Annotations ?p) InPlaceUpdateGraceKey = None"
      using patchUpdateSpecToPod_ok [OF p] by (simp_all add: RemoveInPlaceUpdateGrace_def)
    ultimately show ?thesis using False by auto
  qed
qed

section \<open>When an update is complete\<close>

definition unchanged :: "string gomap \<Rightarrow> string gomap \<Rightarrow> InPlaceUpdateContainerStatus \<Rightarrow> container_status \<Rightarrow> bool" where
  "unchanged images lastImage old cs \<longleftrightarrow> ImageID old = CSImageID cs \<and> ContainerID old = CSContainerID cs \<and>
     mget_str lastImage (CSName cs) \<noteq> mget_str images (CSName cs)"

lemma completedLoop_None:
  "distinct (map CSName css) \<Longrightarrow> completedLoop images lastImage css prev = None \<longleftrightarrow>
     (\<forall>n old. mget prev n = Some old \<longrightarrow>
        (\<exists>cs \<in> set css. CSName cs = n \<and> \<not> unchanged images lastImage old cs))"
proof (induction images lastImage css prev rule: completedLoop.induct)
  case (1 images lastImage prev)
  then show ?case by (cases prev) auto
next
  case (2 images lastImage cs css prev)
  show ?case
  proof (cases "mget prev (CSName cs)")
    case None
    then have "completedLoop images lastImage (cs # css) prev = completedLoop images lastImage css prev"
      by simp
    also have "\<dots> = None \<longleftrightarrow> (\<forall>n old. mget prev n = Some old \<longrightarrow>
        (\<exists>cs \<in> set css. CSName cs = n \<and> \<not> unchanged images lastImage old cs))"
      using 2(1) [OF None] 2(3) by simp
    also have "\<dots> \<longleftrightarrow> (\<forall>n old. mget prev n = Some old \<longrightarrow>
        (\<exists>cs \<in> set (cs # css). CSName cs = n \<and> \<not> unchanged images lastImage old cs))"
      using None by (metis list.set_intros(2) option.distinct(1) set_ConsD)
    finally show ?thesis .
  next
    case (Some old)
    show ?thesis
    proof (cases "unchanged images lastImage old cs")
      case True
      have "CSName cs' = CSName cs \<Longrightarrow> cs' \<in> set (cs # css) \<Longrightarrow> cs' = cs" for cs'
        using 2(3) by (auto simp: image_iff)
      with True Some have "\<not> (\<exists>cs' \<in> set (cs # css). CSName cs' = CSName cs \<and> \<not> unchanged images lastImage old cs')"
        by metis
      moreover have "completedLoop images lastImage (cs # css) prev \<noteq> None"
        using True Some by (simp add: unchanged_def)
      ultimately show ?thesis using Some by blast
    next
      case False
      have "completedLoop images lastImage (cs # css) prev =
          completedLoop images lastImage css (mdel (CSName cs) prev)"
        using False Some by (auto simp: unchanged_def)
      also have "\<dots> = None \<longleftrightarrow> (\<forall>n old. n \<noteq> CSName cs \<longrightarrow> mget prev n = Some old \<longrightarrow>
          (\<exists>cs \<in> set css. CSName cs = n \<and> \<not> unchanged images lastImage old cs))"
      proof -
        have "\<not> (ImageID old = CSImageID cs \<and> mget_str lastImage (CSName cs) \<noteq> mget_str images (CSName cs) \<and>
            ContainerID old = CSContainerID cs)"
          using False by (auto simp: unchanged_def)
        from 2(2) [OF Some this] 2(3) show ?thesis by (auto split: if_splits)
      qed
      also have "\<dots> \<longleftrightarrow> (\<forall>n old. mget prev n = Some old \<longrightarrow>
          (\<exists>cs \<in> set (cs # css). CSName cs = n \<and> \<not> unchanged images lastImage old cs))"
        using False Some by (metis list.set_intros(1,2) option.inject set_ConsD)
      finally show ?thesis .
    qed
  qed
qed


lemma taggedImages_notin:
  "CName c \<notin> CName ` set cs \<Longrightarrow>
   mget (foldl (\<lambda>m c. mset_key (CName c) (taggedImage (CImage c)) m) m cs) (CName c) = mget m (CName c)"
  by (induction cs arbitrary: m) auto

lemma taggedImages_get:
  "c \<in> set cs \<Longrightarrow> distinct (map CName cs) \<Longrightarrow>
   mget (foldl (\<lambda>m c. mset_key (CName c) (taggedImage (CImage c)) m) m cs) (CName c) = Some (taggedImage (CImage c))"
  by (induction cs arbitrary: m) (auto simp: taggedImages_notin)

text \<open>
  The image a container had is remembered as it was written, but compared with the image it
  has now after \<open>:latest\<close> was added to an image without a tag. So when an update leaves the untagged
  image of a container as it is, and the container therefore keeps running, the update of the pod
  never counts as complete.
\<close>

theorem untagged_image_never_completes:
  assumes "distinct (map CSName (ContainerStatuses pod))" and "distinct (map CName (Containers (PodSpec pod)))"
    and "c \<in> set (Containers (PodSpec pod))" and "CHR '':'' \<notin> set (CImage c)"
    and "mget (LastContainerImage st) (CName c) = Some (CImage c)"
    and "cs \<in> set (ContainerStatuses pod)" and "CSName cs = CName c"
    and "mget (LastContainerStatuses st) (CName c) = Some \<lparr>ImageID = CSImageID cs, ContainerID = CSContainerID cs\<rparr>"
  shows "checkContainersInPlaceUpdateCompleted pod st \<noteq> None"
proof
  assume "checkContainersInPlaceUpdateCompleted pod st = None"
  then obtain cs' where cs': "cs' \<in> set (ContainerStatuses pod)" "CSName cs' = CName c"
    "\<not> unchanged (taggedImages (Containers (PodSpec pod))) (LastContainerImage st)
       \<lparr>ImageID = CSImageID cs, ContainerID = CSContainerID cs\<rparr> cs'"
    unfolding checkContainersInPlaceUpdateCompleted_def completedLoop_None [OF assms(1)]
    using assms(8) by blast
  have "cs' = cs" using cs'(1,2) assms(1,6,7) by (metis distinct_map inj_onD)
  moreover have "mget_str (taggedImages (Containers (PodSpec pod))) (CName c) = CImage c @ '':latest''"
    using taggedImages_get [OF assms(3,2)] Split_no_sep [OF assms(4)]
    by (simp add: mget_str_def taggedImages_def taggedImage_def)
  ultimately show False
    using cs'(2,3) assms(5) by (simp add: unchanged_def mget_str_def)
qed

section \<open>Samples\<close>

text \<open>A sample codec: fields are written one after another, each after its length in unary.\<close>

fun enc :: "string list \<Rightarrow> string" where
  "enc [] = []"
| "enc (s # ss) = replicate (length s) (CHR ''1'') @ CHR ''0'' # s @ enc ss"

function dec :: "string \<Rightarrow> string list" where
  "dec [] = []"
| "dec (c # cs) =
     (let n = length (takeWhile (\<lambda>c. c = CHR ''1'') (c # cs)); r = drop (n + 1) (c # cs)
      in take n r # dec (drop n r))"
  by pat_completeness auto
termination by (relation "measure length") auto

lemma takeWhile_replicate_append:
  "y \<noteq> x \<Longrightarrow> takeWhile (\<lambda>c. c = x) (replicate n x @ y # r) = replicate n x"
  by (induction n) auto

lemma dec_enc: "dec (enc ss) = ss"
proof (induction ss)
  case (Cons s ss)
  have nonempty: "enc (s # ss) \<noteq> []" by simp
  then obtain c cs where c: "enc (s # ss) = c # cs" by (cases "enc (s # ss)") auto
  have "takeWhile (\<lambda>c. c = CHR ''1'') (enc (s # ss)) = replicate (length s) (CHR ''1'')"
    by (simp add: takeWhile_replicate_append)
  then have n: "length (takeWhile (\<lambda>c. c = CHR ''1'') (c # cs)) = length s"
    using c by simp
  have "drop (length s + 1) (c # cs) = s @ enc ss"
    unfolding c [symmetric] by simp
  moreover have "dec (enc (s # ss)) = take (length s) (drop (length s + 1) (c # cs)) #
      dec (drop (length s) (drop (length s + 1) (c # cs)))"
    by (simp only: c dec.simps Let_def n)
  ultimately have "dec (enc (s # ss)) = take (length s) (s @ enc ss) # dec (drop (length s) (s @ enc ss))"
    by (simp only:)
  with Cons show ?case by simp
qed simp

definition flat :: "string gomap \<Rightarrow> string" where
  "flat m = enc (concat (map (\<lambda>(k, v). [k, v]) m))"

fun pairs :: "string list \<Rightarrow> string gomap" where
  "pairs (k # v # r) = (k, v) # pairs r"
| "pairs _ = []"

lemma pairs_flat [simp]: "pairs (dec (flat m)) = m"
  unfolding flat_def dec_enc by (induction m) auto

definition sample_codec :: ips_ext where
  "sample_codec = \<lparr>
     marshalState = (\<lambda>s. enc [StatePodTemplateHash s, flat (SpecContainerImages s)]),
     unmarshalState = (\<lambda>t. case dec t of
        [h, imgs] \<Rightarrow> Inr \<lparr>UpdateTimestamp = 0, StatePodTemplateHash = h, LastContainerImage = [],
          LastContainerStatuses = [], SpecContainerImages = pairs (dec imgs), ContainerBatchesRecord = []\<rparr>
      | _ \<Rightarrow> Inl (Msg ''unexpected end of JSON input'')),
     marshalGrace = (\<lambda>s. enc [Itoa (GraceSeconds s), GracePodTemplateHash s, flat (ContainerImages s)]),
     unmarshalGrace = (\<lambda>t. case dec t of
        [n, h, imgs] \<Rightarrow> Inr \<lparr>ContainerImages = pairs (dec imgs), GraceSeconds = fst (ParseInt n 32),
          OldContainerImages = [], GracePodTemplateHash = h\<rparr>
      | _ \<Rightarrow> Inl (Msg ''unexpected end of JSON input'')),
     marshalStatus = (\<lambda>s. Itoa (ISReplicas s)), errorText = (\<lambda>e. case e of Msg m \<Rightarrow> m | _ \<Rightarrow> ''error''),
     podLess = (\<lambda>a b. CreationTimestamp (fst a) > CreationTimestamp (fst b))\<rparr>"

lemma sample_codec_ok: "codec_ok sample_codec"
proof -
  have "fst (ParseInt (Itoa n) 32) = n" if "is_i32 n" for n
    using that ParseInt_Itoa [of 32 n] by (simp add: is_i32_def)
  then show ?thesis by (simp add: codec_ok_def sample_codec_def dec_enc del: enc.simps)
qed

definition sample_pod :: pod where
  "sample_pod = zero_pod\<lparr>Name := ''web-0'', Namespace := ''default'',
     PodSpec := zero_pod_spec\<lparr>Containers := [\<lparr>CName = ''web'', CImage = ''web:1'', CRequests = [],
       CLimits = [], CRest = []\<rparr>], ReadinessGates := [InPlaceUpdateReady]\<rparr>\<rparr>"

definition sample_reconciler :: ips_ctl where
  "sample_reconciler = \<lparr>ISrv = sample_server\<lparr>ansGetPod := (\<lambda>_ _. Inr sample_pod)\<rparr>, IExt = sample_ext,
     Codec = sample_codec, IDisableInplaceUpdate = False, burstReplicas = 200\<rparr>"

definition sample_update :: UpdateSpecImages where
  "sample_update = \<lparr>UpdatePodNum = 1, PodTemplateHash = ''h2'', NewImages = [(''web'', ''web:2'')]\<rparr>"

definition sample_update_spec :: "int \<Rightarrow> PodUpdateSpec" where
  "sample_update_spec g = \<lparr>ContainerImages = [(''web'', ''web:2'')], GraceSeconds = g,
     OldContainerImages = [], GracePodTemplateHash = ''h2''\<rparr>"

lemma sample_not_tried: "checkPodInplaceUpdateTried X sample_pod sample_update = Inr False"
  by (simp add: checkPodInplaceUpdateTried_def GetPodInPlaceUpdateState_def sample_pod_def zero_values)

theorem inplace_batch_size_witness:
  "getNeedInplaceUpdatePods sample_codec zero_inplace_set [sample_pod, sample_pod] sample_update = Inr [sample_pod] \<and>
   int (length (filter (tried sample_codec sample_update) [sample_pod, sample_pod])) + 1 =
     max (int (length (filter (tried sample_codec sample_update) [sample_pod, sample_pod]))) (min 1 2)"
proof -
  have need: "getNeedInplaceUpdatePods sample_codec zero_inplace_set [sample_pod, sample_pod] sample_update =
      Inr [sample_pod]"
    by (simp add: getNeedInplaceUpdatePods_def zero_inplace_set_def sample_not_tried)
      (simp add: sample_update_def)
  have "UpdatePodNum sample_update = 1" by (simp add: sample_update_def)
  with inplace_batch_size [OF need] need show ?thesis by (simp add: zero_inplace_set_def)
qed

theorem grace_period_kept_witness:
  "\<exists>d. finishGracePeriod (sample_reconciler\<lparr>ISrv := sample_server\<lparr>ansGetPod := (\<lambda>_ _. Inr (sample_pod\<lparr>Annotations :=
        [(InPlaceUpdateStateKey, marshalState sample_codec (startState (sample_update_spec 5) 0)),
         (InPlaceUpdateGraceKey, marshalGrace sample_codec (sample_update_spec 5))]\<rparr>))\<rparr>\<rparr>) sample_pod [] =
      (Ok d, [GetPod (podKey sample_pod), Now]) \<and> 5000000000 \<le> d \<and> d < 5000000000 + Second \<and> Second dvd d"
  (is "\<exists>d. finishGracePeriod ?R _ _ = _ \<and> _")
proof -
  define read where "read = sample_pod\<lparr>Annotations :=
        [(InPlaceUpdateStateKey, marshalState sample_codec (startState (sample_update_spec 5) 0)),
         (InPlaceUpdateGraceKey, marshalGrace sample_codec (sample_update_spec 5))]\<rparr>"
  have get: "ansGetPod (ISrv ?R) [] (podKey sample_pod) = Inr read" by (simp add: read_def)
  have codec: "Codec ?R = sample_codec" by (simp add: sample_reconciler_def)
  have grace: "GetInPlaceUpdateGrace (Codec ?R) read = Inr (Some (sample_update_spec 5))"
    using ParseInt_Itoa [of 32 5] unfolding codec
    by (simp add: read_def GetInPlaceUpdateGrace_def sample_codec_def dec_enc sample_update_spec_def del: enc.simps)
  have state: "GetPodInPlaceUpdateState (Codec ?R) read = Inr (Some (startState (sample_update_spec 5) 0))"
    unfolding codec
    by (simp add: read_def GetPodInPlaceUpdateState_def sample_codec_def dec_enc startState_def del: enc.simps)
  have "\<exists>p'. ansUpdatePod (ISrv ?R) g p = Inr p'" for g p
    by (simp add: sample_server_def)
  from grace_period_kept [OF get grace state this refl] show ?thesis
    by (simp add: sample_server_def sample_update_spec_def startState_def Second_def)
qed

lemma sample_updates: "succeeds (updatePodInPlace sample_reconciler sample_pod spec)"
  by (rule updatePodInPlace_succeeds) (simp_all add: sample_reconciler_def sample_server_def)

theorem inplace_update_writes_witness:
  "\<exists>h' g read g' p p' l. updatePodInPlace sample_reconciler sample_pod (sample_update_spec 0) [] = (Ok (), h') \<and>
     ansGetPod (ISrv sample_reconciler) g (podKey sample_pod) = Inr read \<and>
     h' = g' @ UpdatePod p # l \<and> ansUpdatePod (ISrv sample_reconciler) g' p = Inr p' \<and> list_all no_pod_write l \<and>
     updated_pod sample_reconciler (sample_update_spec 0) read p \<and> tried sample_codec sample_update p"
proof -
  obtain h' where run: "updatePodInPlace sample_reconciler sample_pod (sample_update_spec 0) [] = (Ok (), h')"
    using sample_updates by (metis (full_types) old.unit.exhaust succeeds_def)
  have codec: "Codec sample_reconciler = sample_codec" by (simp add: sample_reconciler_def)
  have "\<exists>g read g' p p' l. ansGetPod (ISrv sample_reconciler) g (podKey sample_pod) = Inr read \<and>
     h' = g' @ UpdatePod p # l \<and> ansUpdatePod (ISrv sample_reconciler) g' p = Inr p' \<and> list_all no_pod_write l \<and>
     updated_pod sample_reconciler (sample_update_spec 0) read p \<and> tried (Codec sample_reconciler) sample_update p"
    by (rule inplace_update_writes [OF run])
      (simp_all add: codec sample_codec_ok sample_update_spec_def sample_update_def)
  with run show ?thesis unfolding codec by blast
qed


text \<open>A pod with an untagged image that an update left as it is, and whose container runs on.\<close>

definition untagged_pod :: pod where
  "untagged_pod = zero_pod\<lparr>
     PodSpec := zero_pod_spec\<lparr>Containers := [\<lparr>CName = ''log'', CImage = ''busybox'', CRequests = [],
       CLimits = [], CRest = []\<rparr>]\<rparr>,
     ContainerStatuses := [\<lparr>CSName = ''log'', CSImageID = ''sha1'', CSContainerID = ''c1''\<rparr>]\<rparr>"

definition untagged_state :: PodInPlaceUpdateState where
  "untagged_state = (startState (sample_update_spec 0) 0)\<lparr>LastContainerImage := [(''log'', ''busybox'')],
     LastContainerStatuses := [(''log'', \<lparr>ImageID = ''sha1'', ContainerID = ''c1''\<rparr>)]\<rparr>"

theorem untagged_image_never_completes_witness:
  "checkContainersInPlaceUpdateCompleted untagged_pod untagged_state \<noteq> None"
  by (rule untagged_image_never_completes
      [where c = "hd (Containers (PodSpec untagged_pod))" and cs = "hd (ContainerStatuses untagged_pod)"])
    (simp_all add: untagged_pod_def untagged_state_def)


end
