(* ===== verification/InplaceSetCtl.thy ===== *)
theory InplaceSetCtl
  imports InplaceUpdate RefManager
begin

text \<open>
  The InplaceSet controller (\<open>inplaceset/controller.go\<close>): it claims the pods of an InplaceSet,
  creates missing pods and deletes surplus ones, runs the in-place update and writes the status.
  The ownership of pods is claimed by the Kubernetes controller library, whose \<open>ClaimPods\<close> is
  modelled from the vendored source. Goroutines that create or delete pods in a batch are run one
  after another: their requests do not depend on each other, and the API server may answer each as
  it likes. Metrics and log lines are left out.
\<close>

section \<open>Claiming pods\<close>

definition ipsKey :: "inplace_set \<Rightarrow> nskey" where
  "ipsKey ips = (Namespace ips, Name ips)"

definition apiGet :: "ips_ctl \<Rightarrow> nskey \<Rightarrow> inplace_set action" where
  "apiGet R k = call (GetIPS k) (\<lambda>h. ansGetIPS (ISrv R) h k)"

definition canAdoptFunc :: "ips_ctl \<Rightarrow> inplace_set \<Rightarrow> unit action" where
  "canAdoptFunc R ips =
     bind_io (attempt (apiGet R (ipsKey ips))) (\<lambda>r.
     (case r of
        Inl e \<Rightarrow> fail (Msg ''can't recheck DeletionTimestamp'')
      | Inr fresh \<Rightarrow>
          (if UID fresh \<noteq> UID ips then fail (Msg ''can't recheck DeletionTimestamp'')
           else if DeletionTimestamp fresh \<noteq> None then fail (Msg ''has just been deleted'')
           else ret ())))"

text \<open>The state of \<open>canAdoptOnce\<close>: the result of the check, once it has run.\<close>

definition CanAdopt :: "ips_ctl \<Rightarrow> inplace_set \<Rightarrow> err option option \<Rightarrow> (err option \<times> err option option) action" where
  "CanAdopt R ips once = (case once of
     Some r \<Rightarrow> ret (r, once)
   | None \<Rightarrow> bind_io (attempt (canAdoptFunc R ips)) (\<lambda>r.
       (let e = (case r of Inl e \<Rightarrow> Some e | Inr _ \<Rightarrow> None) in ret (e, Some e))))"

definition AdoptPod_of :: "ips_ctl \<Rightarrow> inplace_set \<Rightarrow> err option option \<Rightarrow> pod \<Rightarrow>
    ((err + unit) \<times> err option option) action" where
  "AdoptPod_of R ips once pod =
     bind_io (CanAdopt R ips once) (\<lambda>(e, once).
     if e \<noteq> None then ret (Inl (Msg ''can't adopt Pod''), once)
     else bind_io (attempt (call (AdoptPod pod) (\<lambda>h. ansAdoptPod (ISrv R) h pod))) (\<lambda>r. ret (r, once)))"

definition ReleasePod_of :: "ips_ctl \<Rightarrow> pod \<Rightarrow> (err + unit) action" where
  "ReleasePod_of R pod =
     bind_io (attempt (call (ReleasePod pod) (\<lambda>h. ansReleasePod (ISrv R) h pod))) (\<lambda>r.
     (case r of
        Inl NotFound \<Rightarrow> ret (Inr ())
      | Inl Invalid \<Rightarrow> ret (Inr ())
      | _ \<Rightarrow> ret r))"

definition ClaimObject :: "ips_ctl \<Rightarrow> inplace_set \<Rightarrow> selector \<Rightarrow> err option option \<Rightarrow> pod \<Rightarrow>
    ((err + bool) \<times> err option option) action" where
  "ClaimObject R ips sel once pod =
     (let isMatch = SelMatches sel (Labels pod)
      in case GetControllerOf pod of
        Some controllerRef \<Rightarrow>
          (if OwnerUID controllerRef \<noteq> UID ips then ret (Inr False, once)
           else if isMatch then ret (Inr True, once)
           else if DeletionTimestamp ips \<noteq> None then ret (Inr False, once)
           else bind_io (ReleasePod_of R pod) (\<lambda>r.
             (case r of
                Inl NotFound \<Rightarrow> ret (Inr False, once)
              | Inl e \<Rightarrow> ret (Inl e, once)
              | Inr _ \<Rightarrow> ret (Inr False, once))))
      | None \<Rightarrow>
          (if DeletionTimestamp ips \<noteq> None \<or> \<not> isMatch then ret (Inr False, once)
           else if DeletionTimestamp pod \<noteq> None then ret (Inr False, once)
           else if Namespace ips \<noteq> [] \<and> Namespace ips \<noteq> Namespace pod then ret (Inr False, once)
           else bind_io (AdoptPod_of R ips once pod) (\<lambda>(r, once).
             (case r of
                Inl NotFound \<Rightarrow> ret (Inr False, once)
              | Inl e \<Rightarrow> ret (Inl e, once)
              | Inr _ \<Rightarrow> ret (Inr True, once)))))"

definition claimPodStep :: "ips_ctl \<Rightarrow> inplace_set \<Rightarrow> selector \<Rightarrow> pod \<Rightarrow>
    pod list \<times> err list \<times> err option option \<Rightarrow> (pod list \<times> err list \<times> err option option) action" where
  "claimPodStep R ips sel pod st = (case st of (claimed, errlist, once) \<Rightarrow>
     bind_io (ClaimObject R ips sel once pod) (\<lambda>(r, once).
     (case r of
        Inl e \<Rightarrow> ret (claimed, errlist @ [e], once)
      | Inr ok \<Rightarrow> ret (if ok then claimed @ [pod] else claimed, errlist, once))))"

definition claimPods :: "ips_ctl \<Rightarrow> inplace_set \<Rightarrow> selector \<Rightarrow> pod list \<Rightarrow> pod list action" where
  "claimPods R ips sel filteredPods =
     bind_io (for_io (claimPodStep R ips sel) filteredPods ([], [], None)) (\<lambda>(claimed, errlist, _).
     if errlist \<noteq> [] then fail (Aggregate errlist) else ret claimed)"

section \<open>Related InplaceSets and pods\<close>

definition list_ips :: "ips_ctl \<Rightarrow> string \<Rightarrow> inplace_set list action" where
  "list_ips R ns = call (ListIPS ns) (\<lambda>h. ansListIPS (ISrv R) h ns)"

definition getInplaceSetsWithSameController :: "ips_ctl \<Rightarrow> inplace_set \<Rightarrow> inplace_set list action" where
  "getInplaceSetsWithSameController R ips = (case GetControllerOf ips of
     None \<Rightarrow> ret []
   | Some controllerRef \<Rightarrow>
       bind_io (attempt (list_ips R (Namespace ips))) (\<lambda>r.
       (case r of
          Inl e \<Rightarrow> ret []
        | Inr allRSs \<Rightarrow> ret (filter (\<lambda>s. case GetControllerOf s of
             None \<Rightarrow> False | Some ref \<Rightarrow> OwnerUID ref = OwnerUID controllerRef) allRSs))))"

text \<open>
  A slice made with a length and then appended to: the result starts with as many nil pointers as
  there are InplaceSets in the namespace. An empty selector is one whose text is empty.
\<close>

fun matchingSets :: "ext \<Rightarrow> pod \<Rightarrow> inplace_set list \<Rightarrow> err + inplace_set list" where
  "matchingSets X pod [] = Inr []"
| "matchingSets X pod (ips # l) =
     (if Namespace ips \<noteq> Namespace pod then matchingSets X pod l
      else (case LabelSelectorAsSelector X (ISelector ips) of
         Inl e \<Rightarrow> Inl (Msg ''invalid selector'')
       | Inr sel \<Rightarrow> (case matchingSets X pod l of
            Inl e \<Rightarrow> Inl e
          | Inr rest \<Rightarrow>
              Inr (if SelString sel = [] \<or> \<not> SelMatches sel (Labels pod) then rest else ips # rest))))"

definition GetPodInplaceSets :: "ips_ctl \<Rightarrow> pod \<Rightarrow> inplace_set option list action" where
  "GetPodInplaceSets R pod =
     (if Labels pod = [] then fail (Msg ''no ReplicaSets found for pod because it has no labels'')
      else bind_io (list_ips R (Namespace pod)) (\<lambda>l.
        bind_io (of_sum (matchingSets (IExt R) pod l)) (\<lambda>matching.
        let rss = replicate (length l) None @ map Some matching
        in if rss = [] then fail (Msg ''could not find InplaceSet for pod'') else ret rss)))"

fun addUnseen :: "pod list \<Rightarrow> string list \<times> pod list \<Rightarrow> string list \<times> pod list" where
  "addUnseen [] st = st"
| "addUnseen (pod # pods) (seen, related) =
     (if UID pod \<in> set seen then addUnseen pods (seen, related)
      else addUnseen pods (UID pod # seen, related @ [pod]))"

definition getIndirectlyRelatedPods :: "ips_ctl \<Rightarrow> inplace_set \<Rightarrow> pod list action" where
  "getIndirectlyRelatedPods R ips =
     bind_io (getInplaceSetsWithSameController R ips) (\<lambda>relatedRSs.
     bind_io (for_io (\<lambda>relatedRS st.
       bind_io (of_sum (LabelSelectorAsSelector (IExt R) (ISelector relatedRS))) (\<lambda>sel.
       let k = (Namespace relatedRS, SelString sel)
       in bind_io (call (ListPods k) (\<lambda>h. ansListPods (ISrv R) h k)) (\<lambda>pods.
          ret (addUnseen pods st)))) relatedRSs ([], [])) (\<lambda>(_, relatedPods).
     ret relatedPods))"

section \<open>Creating and deleting pods\<close>

text \<open>The calls of one batch: how many failed, and the first error.\<close>

fun runBatch :: "unit action \<Rightarrow> nat \<Rightarrow> (nat \<times> err option) action" where
  "runBatch fn 0 = ret (0, None)"
| "runBatch fn (Suc n) =
     bind_io (attempt fn) (\<lambda>r.
     bind_io (runBatch fn n) (\<lambda>(errs, first).
     (case r of
        Inl e \<Rightarrow> ret (errs + 1, Some e)
      | Inr _ \<Rightarrow> ret (errs, first))))"

function slowStartLoop :: "unit action \<Rightarrow> int \<Rightarrow> int \<Rightarrow> int \<Rightarrow> (int \<times> err option) action" where
  "slowStartLoop fn remaining batchSize successes =
     (if batchSize \<le> 0 then ret (successes, None)
      else bind_io (runBatch fn (nat batchSize)) (\<lambda>(errs, first).
        let successes = successes + (batchSize - int errs)
        in if errs > 0 then ret (successes, first)
           else slowStartLoop fn (remaining - batchSize)
             (IntMin (2 * batchSize) (remaining - batchSize)) successes))"
  by pat_completeness auto
termination
  by (relation "measure (\<lambda>(fn, remaining, batchSize, s). if batchSize \<le> 0 then 0 else nat remaining + 1)") auto

declare slowStartLoop.simps [simp del]

definition slowStartBatch :: "int \<Rightarrow> int \<Rightarrow> unit action \<Rightarrow> (int \<times> err option) action" where
  "slowStartBatch cnt initialBatchSize fn =
     slowStartLoop fn cnt (IntMin cnt initialBatchSize) 0"

definition SlowStartInitialBatchSize :: int where
  "SlowStartInitialBatchSize = 1"

definition createPod :: "ips_ctl \<Rightarrow> inplace_set \<Rightarrow> unit action" where
  "createPod R ips =
     bind_io (attempt (call (CreatePod (Namespace ips) (ITemplate ips))
       (\<lambda>h. ansCreatePod (ISrv R) h (Namespace ips) (ITemplate ips)))) (\<lambda>r.
     (case r of
        Inl NamespaceTerminating \<Rightarrow> ret ()
      | Inl e \<Rightarrow> fail e
      | Inr _ \<Rightarrow> ret ()))"

definition getPodsRankedByRelatedPodsOnSameNode :: "pod list \<Rightarrow> pod list \<Rightarrow> (pod \<times> int) list" where
  "getPodsRankedByRelatedPodsOnSameNode podsToRank relatedPods =
     map (\<lambda>pod. (pod, int (length (filter (\<lambda>p. IsPodActive p \<and>
       NodeName (PodSpec p) = NodeName (PodSpec pod)) relatedPods)))) podsToRank"

text \<open>The pods in the order in which the call leaves the slice, and the first of them, to be deleted.\<close>

definition getPodsToDelete :: "ips_ext \<Rightarrow> pod list \<Rightarrow> pod list \<Rightarrow> int \<Rightarrow> pod list \<times> pod list" where
  "getPodsToDelete X filteredPods relatedPods diff =
     (let pods = (if diff < int (length filteredPods)
            then map fst (sort_by (podLess X) (getPodsRankedByRelatedPodsOnSameNode filteredPods relatedPods))
            else filteredPods)
      in (pods, take (nat diff) pods))"

fun deleteLoop :: "ips_ctl \<Rightarrow> inplace_set \<Rightarrow> pod list \<Rightarrow> err option action" where
  "deleteLoop R ips [] = ret None"
| "deleteLoop R ips (pod # pods) =
     bind_io (attempt (call (DeletePod (Namespace ips, Name pod))
       (\<lambda>h. ansDeletePod (ISrv R) h (Namespace ips, Name pod)))) (\<lambda>r.
     bind_io (deleteLoop R ips pods) (\<lambda>later.
     (case r of
        Inl NotFound \<Rightarrow> ret later
      | Inl e \<Rightarrow> ret (Some e)
      | Inr _ \<Rightarrow> ret later)))"

text \<open>The error, and the pods in the order in which sorting leaves them.\<close>

definition manageReplicas :: "ips_ctl \<Rightarrow> pod list \<Rightarrow> inplace_set \<Rightarrow> (err option \<times> pod list) action" where
  "manageReplicas R filteredPods ips =
     bind_io (deref (IReplicas ips)) (\<lambda>replicas.
     let diff = int (length filteredPods) - replicas
     in if diff < 0
        then
          (let diff = (if - diff > burstReplicas R then burstReplicas R else - diff)
           in bind_io (slowStartBatch diff SlowStartInitialBatchSize (createPod R ips)) (\<lambda>(_, e).
              ret (e, filteredPods)))
        else if diff > 0
        then
          (let diff = (if diff > burstReplicas R then burstReplicas R else diff)
           in bind_io (attempt (getIndirectlyRelatedPods R ips)) (\<lambda>r.
              let relatedPods = (case r of Inl _ \<Rightarrow> [] | Inr ps \<Rightarrow> ps)
              in (case getPodsToDelete (Codec R) filteredPods relatedPods diff of
                    (pods, podsToDelete) \<Rightarrow>
                      bind_io (deleteLoop R ips podsToDelete) (\<lambda>e. ret (e, pods)))))
        else ret (None, filteredPods))"

section \<open>Status\<close>

definition ReplicaSetReplicaFailure :: string where
  "ReplicaSetReplicaFailure = ''ReplicaFailure''"

definition IpsAnnotationInplacesetStatus :: string where
  "IpsAnnotationInplacesetStatus = ''inplaceset.extendeddeployment.io/inplaceset-status''"

definition fullyLabeled :: "inplace_set \<Rightarrow> pod \<Rightarrow> bool" where
  "fullyLabeled ips pod =
     list_all (\<lambda>(k, v). mget (Labels pod) k = Some v) (TemplateLabels (ITemplate ips))"

text \<open>The ready and the available pods; the clock is read once for each ready pod.\<close>

definition countPod :: "ips_ctl \<Rightarrow> inplace_set \<Rightarrow> pod \<Rightarrow> int \<times> int \<Rightarrow> (int \<times> int) action" where
  "countPod R ips pod ra =
     (if IsPodReady pod
      then bind_io (now (ISrv R)) (\<lambda>t.
        ret (fst ra + 1, if IsPodAvailable pod (IMinReadySeconds ips) t then snd ra + 1 else snd ra))
      else ret ra)"

definition failureCondition :: "ips_ctl \<Rightarrow> inplace_set \<Rightarrow> pod list \<Rightarrow> err option \<Rightarrow> inplaceset_status action" where
  "failureCondition R ips filteredPods manageReplicasErr =
     (case (manageReplicasErr, GetCondition (IStatus ips) ReplicaSetReplicaFailure) of
        (Some e, None) \<Rightarrow>
          bind_io (deref (IReplicas ips)) (\<lambda>replicas.
          let diff = int (length filteredPods) - replicas;
              reason = (if diff < 0 then ''FailedCreate'' else if diff > 0 then ''FailedDelete'' else [])
          in bind_io (NewReplicaSetCondition (ISrv R) ReplicaSetReplicaFailure ConditionTrue reason
               (errorText (Codec R) e)) (\<lambda>cond.
             ret (SetCondition (IStatus ips) cond)))
      | (None, Some _) \<Rightarrow> ret (RemoveCondition (IStatus ips) ReplicaSetReplicaFailure)
      | _ \<Rightarrow> ret (IStatus ips))"

definition calculateStatusIPS :: "ips_ctl \<Rightarrow> inplace_set \<Rightarrow> pod list \<Rightarrow> err option \<Rightarrow> inplaceset_status action" where
  "calculateStatusIPS R ips filteredPods manageReplicasErr =
     bind_io (for_io (countPod R ips) filteredPods (0, 0)) (\<lambda>(ready, available).
     bind_io (failureCondition R ips filteredPods manageReplicasErr) (\<lambda>newStatus.
     bind_io (attempt (calcInplaceUpdateStatus R ips filteredPods)) (\<lambda>r.
     ret (newStatus\<lparr>ISReplicas := i32 (int (length filteredPods)),
       ISFullyLabeled := i32 (int (length (filter (fullyLabeled ips) filteredPods))),
       ISReady := i32 ready, ISAvailable := i32 available,
       ISInplaceUpdate := (case r of Inl _ \<Rightarrow> None | Inr st \<Rightarrow> st)\<rparr>))))"

definition statusUnchanged :: "inplace_set \<Rightarrow> inplaceset_status \<Rightarrow> bool" where
  "statusUnchanged ips newStatus \<longleftrightarrow>
     ISReplicas (IStatus ips) = ISReplicas newStatus \<and>
     ISFullyLabeled (IStatus ips) = ISFullyLabeled newStatus \<and>
     ISReady (IStatus ips) = ISReady newStatus \<and>
     ISAvailable (IStatus ips) = ISAvailable newStatus \<and>
     Generation ips = ISObservedGeneration (IStatus ips) \<and>
     ISConditions (IStatus ips) = ISConditions newStatus \<and>
     (case (ISInplaceUpdate (IStatus ips), ISInplaceUpdate newStatus) of
        (None, None) \<Rightarrow> True
      | (Some a, Some b) \<Rightarrow> IUSPodTemplateHash a = IUSPodTemplateHash b \<and>
          IUSReady a = IUSReady b \<and> IUSAvailable a = IUSAvailable b
      | _ \<Rightarrow> False)"

text \<open>
  The loop assigns the error of reading the InplaceSet to the variable that held the error of the
  failed write, so after two failed writes the error returned is nil.
\<close>

fun statusLoop :: "ips_ctl \<Rightarrow> inplaceset_status \<Rightarrow> nat \<Rightarrow> inplace_set \<Rightarrow> inplace_set action" where
  "statusLoop R newStatus 0 ips = ret ips"
| "statusLoop R newStatus (Suc n) ips =
     (let ips = ips\<lparr>IStatus := newStatus\<rparr>
      in bind_io (attempt (call (UpdateIPSStatus ips) (\<lambda>h. ansUpdateIPSStatus (ISrv R) h ips))) (\<lambda>r.
         (case r of
            Inr ips' \<Rightarrow> ret ips'
          | Inl e \<Rightarrow> bind_io (apiGet R (ipsKey ips)) (\<lambda>ips. statusLoop R newStatus n ips))))"

definition updateInplaceSetStatus :: "ips_ctl \<Rightarrow> inplace_set \<Rightarrow> inplaceset_status \<Rightarrow> inplace_set action" where
  "updateInplaceSetStatus R ips newStatus =
     (let ips = ips\<lparr>Annotations := mset_key IpsAnnotationInplacesetStatus
            (marshalStatus (Codec R) newStatus) (Annotations ips)\<rparr>
      in if statusUnchanged ips newStatus then ret ips
         else statusLoop R (newStatus\<lparr>ISObservedGeneration := Generation ips\<rparr>) 2 ips)"

section \<open>The reconciler\<close>

text \<open>
  After the number of pods was adjusted: the in-place update, the status, and when to look again.
  An error of the adjustment is returned at the end.
\<close>

definition finishSync :: "ips_ctl \<Rightarrow> inplace_set \<Rightarrow> int \<Rightarrow> err option \<Rightarrow> pod list \<Rightarrow> int action" where
  "finishSync R ips requeueAfter manageReplicasErr filteredPods =
     bind_io (if manageReplicasErr = None \<and> \<not> IDisableInplaceUpdate R
       then bind_io (attempt (manageInplaceUpdate R filteredPods ips)) (\<lambda>r.
         ret (case r of Inr t \<Rightarrow> (if t > 0 then t else requeueAfter) | Inl _ \<Rightarrow> requeueAfter))
       else ret requeueAfter) (\<lambda>requeueAfter.
     bind_io (calculateStatusIPS R ips filteredPods manageReplicasErr) (\<lambda>newStatus.
     bind_io (updateInplaceSetStatus R ips newStatus) (\<lambda>updatedRS.
     (case manageReplicasErr of
        Some e \<Rightarrow> fail e
      | None \<Rightarrow>
          (if IMinReadySeconds updatedRS > 0
           then bind_io (deref (IReplicas updatedRS)) (\<lambda>n.
             ret (if ISReady (IStatus updatedRS) = n \<and> ISAvailable (IStatus updatedRS) \<noteq> n
                  then IMinReadySeconds updatedRS * Second else requeueAfter))
           else ret requeueAfter)))))"

definition syncPods :: "ips_ctl \<Rightarrow> inplace_set \<Rightarrow> pod list \<Rightarrow> int action" where
  "syncPods R ips filteredPods =
     bind_io (refreshPods R filteredPods) (\<lambda>requeueAfter.
     bind_io (deref (IReplicas ips)) (\<lambda>replicas.
     bind_io (if replicas \<noteq> int (length filteredPods) then manageReplicas R filteredPods ips
       else ret (None, filteredPods)) (\<lambda>(manageReplicasErr, filteredPods).
     finishSync R ips requeueAfter manageReplicasErr filteredPods)))"

definition syncReplicaSet :: "ips_ctl \<Rightarrow> inplace_set \<Rightarrow> int action" where
  "syncReplicaSet R ips =
     (if DeletionTimestamp ips \<noteq> None then ret 0
      else (case LabelSelectorAsSelector (IExt R) (ISelector ips) of
         Inl e \<Rightarrow> ret 0
       | Inr sel \<Rightarrow>
           (let k = (Namespace ips, SelString sel)
            in bind_io (call (ListPods k) (\<lambda>h. ansListPods (ISrv R) h k)) (\<lambda>allPods.
               bind_io (claimPods R ips sel (filter IsPodActive allPods)) (\<lambda>filteredPods.
               syncPods R ips filteredPods)))))"

definition ReconcileIPS :: "ips_ctl \<Rightarrow> nskey \<Rightarrow> int action" where
  "ReconcileIPS R k =
     bind_io (attempt (apiGet R k)) (\<lambda>r.
     (case r of
        Inl NotFound \<Rightarrow> ret 0
      | Inl e \<Rightarrow> fail e
      | Inr ips \<Rightarrow>
          (if DeletionTimestamp ips \<noteq> None then ret 0 else syncReplicaSet R ips)))"

end
