(* ===== verification/PodCount.thy ===== *)
theory PodCount
  imports InplaceSetCtl
begin

text \<open>
  How the InplaceSet controller keeps the number of its pods: the slow start of creations, the
  bounds on what one synchronisation creates and deletes, which pods are deleted, that the number
  converges to the replicas, and the status computed from the pods.
\<close>

section \<open>Slow start\<close>

text \<open>An action that sends one request, of a given kind, and never panics.\<close>

definition calls_one :: "('q \<Rightarrow> bool) \<Rightarrow> ('q, unit) io \<Rightarrow> bool" where
  "calls_one P fn \<longleftrightarrow> (\<forall>h. \<exists>r q. fn h = (r, h @ [q]) \<and> P q \<and> (\<forall>e. r \<noteq> Panic e))"

lemma attempt_calls_one:
  assumes "calls_one P fn"
  obtains r q where "attempt fn h = (Ok r, h @ [q])" and "P q"
proof -
  obtain r q where "fn h = (r, h @ [q])" "P q" "\<forall>e. r \<noteq> Panic e"
    using assms unfolding calls_one_def by blast
  then show thesis by (cases r) (auto simp: attempt_def intro: that)
qed

lemma runBatch_calls:
  assumes "calls_one P fn"
  shows "\<exists>errs first l. runBatch fn n h = (Ok (errs, first), h @ l) \<and> length l = n \<and> list_all P l \<and>
     errs \<le> n \<and> (errs = 0 \<longleftrightarrow> first = None)"
proof (induction n arbitrary: h)
  case 0
  show ?case by (simp add: ret_def)
next
  case (Suc n)
  obtain r q where r: "attempt fn h = (Ok r, h @ [q])" "P q"
    using assms by (rule attempt_calls_one)
  obtain errs first l where l: "runBatch fn n (h @ [q]) = (Ok (errs, first), (h @ [q]) @ l)"
    "length l = n" "list_all P l" "errs \<le> n" "errs = 0 \<longleftrightarrow> first = None"
    using Suc.IH by blast
  show ?case
  proof (cases r)
    case (Inl e)
    with r l show ?thesis
      by (intro exI [of _ "errs + 1"] exI [of _ "Some e"] exI [of _ "q # l"])
        (simp add: bind_io_def ret_def)
  next
    case (Inr u)
    with r l show ?thesis
      by (intro exI [of _ errs] exI [of _ first] exI [of _ "q # l"]) (simp add: bind_io_def ret_def)
  qed
qed

lemma slowStartLoop_calls:
  assumes "calls_one P fn" and "batch \<le> rest" and "batch \<le> 0 \<longrightarrow> rest \<le> 0" and "0 \<le> rest"
    and "0 \<le> s" and "batch \<le> s + init"
  shows "\<exists>s' e l. slowStartLoop fn rest batch s h = (Ok (s', e), h @ l) \<and> list_all P l \<and>
     s \<le> s' \<and> s' \<le> s + int (length l) \<and> int (length l) \<le> rest \<and>
     (if e = None then s' = s + rest \<and> int (length l) = rest
      else s' < s + int (length l) \<and> s + int (length l) \<le> 2 * s' + init)"
  using assms
proof (induction fn rest batch s arbitrary: h rule: slowStartLoop.induct)
  case (1 fn rest batch s)
  show ?case
  proof (cases "batch \<le> 0")
    case True
    with 1 show ?thesis by (simp add: slowStartLoop.simps [of _ _ batch] ret_def)
  next
    case False
    obtain errs first l where b: "runBatch fn (nat batch) h = (Ok (errs, first), h @ l)"
      "length l = nat batch" "list_all P l" "errs \<le> nat batch" "errs = 0 \<longleftrightarrow> first = None"
      using runBatch_calls [OF 1(2)] by blast
    show ?thesis
    proof (cases "errs = 0")
      case True
      have "IntMin (2 * batch) (rest - batch) \<le> rest - batch"
        "IntMin (2 * batch) (rest - batch) \<le> 0 \<longrightarrow> rest - batch \<le> 0" "0 \<le> rest - batch" "0 \<le> s + batch"
        "IntMin (2 * batch) (rest - batch) \<le> s + batch + init"
        using False 1(3-7) by auto
      then obtain s' e l' where
        r: "slowStartLoop fn (rest - batch) (IntMin (2 * batch) (rest - batch)) (s + batch) (h @ l) =
            (Ok (s', e), (h @ l) @ l')" "list_all P l'"
          "s + batch \<le> s'" "s' \<le> s + batch + int (length l')" "int (length l') \<le> rest - batch"
          "if e = None then s' = s + batch + (rest - batch) \<and> int (length l') = rest - batch
           else s' < s + batch + int (length l') \<and> s + batch + int (length l') \<le> 2 * s' + init"
        using 1(1) [where x = 0 and xb = "s + batch" and h = "h @ l", OF False _ _ 1(2)]
        by (auto simp del: IntMin_min)
      have "slowStartLoop fn rest batch s h = (Ok (s', e), h @ l @ l')"
        using False True b r(1) by (simp add: slowStartLoop.simps [of _ _ batch] bind_io_def)
      with r b(2,3) False show ?thesis
        by (intro exI [of _ s'] exI [of _ e] exI [of _ "l @ l'"]) (auto split: if_splits)
    next
      case err: False
      then have "0 < errs" by simp
      then have "slowStartLoop fn rest batch s h = (Ok (s + (batch - int errs), first), h @ l)"
        using False b(1) by (simp add: slowStartLoop.simps [of _ _ batch] bind_io_def ret_def Let_def)
      moreover have "int errs \<le> batch" using b(4) False by simp
      ultimately show ?thesis
        using b(2,3,5) err False 1(2-)
        by (intro exI [of _ "s + (batch - int errs)"] exI [of _ first] exI [of _ l]) auto
    qed
  qed
qed

lemma slowStartBatch_calls:
  assumes "calls_one P fn" and "0 \<le> cnt" and "0 < init"
  shows "\<exists>s e l. slowStartBatch cnt init fn h = (Ok (s, e), h @ l) \<and> list_all P l \<and>
     0 \<le> s \<and> s \<le> int (length l) \<and> int (length l) \<le> cnt \<and>
     (if e = None then s = cnt \<and> int (length l) = cnt
      else s < int (length l) \<and> int (length l) \<le> 2 * s + init)"
proof -
  have "IntMin cnt init \<le> cnt" "IntMin cnt init \<le> 0 \<longrightarrow> cnt \<le> 0" "IntMin cnt init \<le> 0 + init"
    using assms(2,3) by auto
  from slowStartLoop_calls [OF assms(1) this(1,2) assms(2) order.refl this(3), of h] show ?thesis
    unfolding slowStartBatch_def by (simp only: add_0_left)
qed

text \<open>
  Slow start returns, calls the function at most as often as asked and counts the successes
  correctly. Without an error it has made all the calls; after an error it has wasted little: the
  calls made are at most twice the successful ones plus the size of the first batch, so a function
  that fails from the start is called no more often than the first batch says.
\<close>

theorem slow_start_batches:
  assumes "calls_one P fn" and "0 \<le> cnt" and "0 < init"
  shows "\<exists>s e l. slowStartBatch cnt init fn h = (Ok (s, e), h @ l) \<and> list_all P l \<and>
     0 \<le> s \<and> s \<le> int (length l) \<and> int (length l) \<le> cnt \<and>
     (if e = None then s = cnt \<and> int (length l) = cnt
      else s < int (length l) \<and> int (length l) \<le> 2 * s + init)"
  using assms by (rule slowStartBatch_calls)

lemma runBatch_ok:
  "(\<And>h. fn h = (Ok (), h @ [q])) \<Longrightarrow> runBatch fn n h = (Ok (0, None), h @ replicate n q)"
  by (induction n arbitrary: h) (simp_all add: bind_io_def attempt_def ret_def)

lemma slowStartLoop_ok:
  assumes "\<And>h. fn h = (Ok (), h @ [q])"
  shows "\<exists>s' h'. slowStartLoop fn rest batch s h = (Ok (s', None), h')"
  using assms
proof (induction fn rest batch s arbitrary: h rule: slowStartLoop.induct)
  case (1 fn rest batch s)
  show ?case
  proof (cases "batch \<le> 0")
    case True
    then show ?thesis by (simp add: slowStartLoop.simps [of _ _ batch] ret_def)
  next
    case False
    have "\<exists>s' h'. slowStartLoop fn (rest - batch) (IntMin (2 * batch) (rest - batch)) (s + batch)
        (h @ replicate (nat batch) q) = (Ok (s', None), h')"
      by (rule 1(1) [where x = 0 and xb = "s + batch"]) (use False 1(2) in simp_all)
    with False show ?thesis
      by (simp add: slowStartLoop.simps [of _ _ batch] bind_io_def runBatch_ok [OF 1(2)])
  qed
qed

lemma createPod_calls_one: "calls_one (\<lambda>q. q = CreatePod (Namespace ips) (ITemplate ips)) (createPod R ips)"
  unfolding calls_one_def
proof
  fix h
  show "\<exists>r q. createPod R ips h = (r, h @ [q]) \<and> q = CreatePod (Namespace ips) (ITemplate ips) \<and>
      (\<forall>e. r \<noteq> Panic e)"
    by (cases "ansCreatePod (ISrv R) h (Namespace ips) (ITemplate ips)")
      (auto simp: createPod_def bind_io_def attempt_def call_def ret_def fail_def split: err.split)
qed

section \<open>The number of pods\<close>

definition is_create :: "req \<Rightarrow> bool" where
  "is_create q \<longleftrightarrow> (\<exists>ns t. q = CreatePod ns t)"
definition is_delete :: "req \<Rightarrow> bool" where
  "is_delete q \<longleftrightarrow> (\<exists>k. q = DeletePod k)"

lemma is_create_simps [simp]: "is_create (CreatePod ns t)" "\<not> is_create (DeletePod k)"
  "\<not> is_create (ListPods l)" "\<not> is_create (ListIPS n)"
  by (simp_all add: is_create_def)

lemma is_delete_simps [simp]: "is_delete (DeletePod k)" "\<not> is_delete (CreatePod ns t)"
  "\<not> is_delete (ListPods l)" "\<not> is_delete (ListIPS n)"
  by (simp_all add: is_delete_def)

abbreviation sent :: "(req \<Rightarrow> bool) \<Rightarrow> req list \<Rightarrow> int" where
  "sent P l \<equiv> int (length (filter P l))"

text \<open>
  What an InplaceSet promises about its pods: from one synchronisation to the next their number
  moves towards the replicas, by at most the burst.
\<close>

definition burst_step :: "int \<Rightarrow> int \<Rightarrow> int \<Rightarrow> int" where
  "burst_step burst replicas n = n + max (- burst) (min burst (replicas - n))"

lemma deleteLoop_sends:
  "\<exists>e. deleteLoop R ips pods h = (Ok e, h @ map (\<lambda>p. DeletePod (Namespace ips, Name p)) pods)"
proof (induction pods arbitrary: h)
  case Nil
  show ?case by (simp add: ret_def)
next
  case (Cons pod pods)
  let ?k = "(Namespace ips, Name pod)"
  obtain e where e: "deleteLoop R ips pods (h @ [DeletePod ?k]) =
      (Ok e, (h @ [DeletePod ?k]) @ map (\<lambda>p. DeletePod (Namespace ips, Name p)) pods)"
    using Cons.IH by blast
  show ?case
    using e by (cases "ansDeletePod (ISrv R) h ?k")
      (auto simp: bind_io_def attempt_def call_def ret_def split: err.split)
qed

lemma deleteLoop_ok:
  "(\<And>g k. ansDeletePod (ISrv R) g k = Inr ()) \<Longrightarrow>
   deleteLoop R ips pods h = (Ok None, h @ map (\<lambda>p. DeletePod (Namespace ips, Name p)) pods)"
  by (induction pods arbitrary: h) (auto simp: bind_io_def attempt_def call_def ret_def)

lemma emits_related:
  "emits (\<lambda>q. \<exists>k n. q = ListPods k \<or> q = ListIPS n) (getIndirectlyRelatedPods R ips)"
  unfolding getIndirectlyRelatedPods_def getInplaceSetsWithSameController_def list_ips_def
  by (intro emits_intros emits_for) auto

lemma panic_free_related [panic_free_intros]: "panic_free (getIndirectlyRelatedPods R ips)"
  unfolding getIndirectlyRelatedPods_def getInplaceSetsWithSameController_def list_ips_def
  by (intro panic_free_intros)

lemma related_total:
  obtains r l where "attempt (getIndirectlyRelatedPods R ips) h = (Ok r, h @ l)"
    and "list_all (\<lambda>q. \<exists>k n. q = ListPods k \<or> q = ListIPS n) l"
proof -
  obtain r h' where r: "attempt (getIndirectlyRelatedPods R ips) h = (Ok r, h')"
    using succeeds_attempt [OF panic_free_related] by (rule succeedsE)
  with emitsD [OF emits_attempt [OF emits_related] r] that show thesis by blast
qed

lemma getPodsToDelete_length:
  "getPodsToDelete X pods related diff = (ordered, del) \<Longrightarrow> 0 \<le> diff \<Longrightarrow> diff \<le> int (length pods) \<Longrightarrow>
   int (length del) = diff"
  by (auto simp: getPodsToDelete_def getPodsRankedByRelatedPodsOnSameNode_def Let_def split: if_splits)

lemma getPodsToDelete_mset:
  assumes "getPodsToDelete X pods related diff = (ordered, del)"
  shows "mset ordered = mset pods" and "set del \<subseteq> set pods"
proof -
  have "map fst (getPodsRankedByRelatedPodsOnSameNode pods related) = pods"
    by (simp add: getPodsRankedByRelatedPodsOnSameNode_def comp_def)
  then have "mset (map fst (sort_by (podLess X) (getPodsRankedByRelatedPodsOnSameNode pods related))) = mset pods"
    by (metis mset_map mset_sort_by)
  with assms show eq: "mset ordered = mset pods"
    by (auto simp: getPodsToDelete_def Let_def split: if_splits)
  have "set del \<subseteq> set ordered"
    using assms by (auto simp: getPodsToDelete_def Let_def dest: in_set_takeD)
  also have "set ordered = set pods" using eq by (metis set_mset_mset)
  finally show "set del \<subseteq> set pods" .
qed

text \<open>What \<open>manageReplicas\<close> sends, for every answer of the API server.\<close>

definition own_pod_request :: "inplace_set \<Rightarrow> pod list \<Rightarrow> req \<Rightarrow> bool" where
  "own_pod_request ips pods q = (case q of
     CreatePod ns t \<Rightarrow> ns = Namespace ips \<and> t = ITemplate ips
   | DeletePod k \<Rightarrow> \<exists>p \<in> set pods. k = (Namespace ips, Name p)
   | ListPods _ \<Rightarrow> True
   | ListIPS _ \<Rightarrow> True
   | _ \<Rightarrow> False)"

lemma manageReplicas_creates:
  assumes "IReplicas ips = Some replicas" and "0 \<le> burstReplicas R" and "int (length pods) < replicas"
  obtains e l where "manageReplicas R pods ips h = (Ok (e, pods), h @ l)"
    and "list_all (\<lambda>q. q = CreatePod (Namespace ips) (ITemplate ips)) l"
    and "int (length l) \<le> min (burstReplicas R) (replicas - int (length pods))"
    and "e = None \<longrightarrow> int (length l) = min (burstReplicas R) (replicas - int (length pods))"
proof -
  let ?n = "min (burstReplicas R) (replicas - int (length pods))"
  have n: "0 \<le> ?n" using assms(2,3) by simp
  have "calls_one (\<lambda>q. q = CreatePod (Namespace ips) (ITemplate ips)) (createPod R ips)"
    by (rule createPod_calls_one)
  from slowStartBatch_calls [OF this n zero_less_one, of h]
  obtain s e l where "slowStartBatch ?n 1 (createPod R ips) h = (Ok (s, e), h @ l)"
    "list_all (\<lambda>q. q = CreatePod (Namespace ips) (ITemplate ips)) l" "int (length l) \<le> ?n"
    "e = None \<longrightarrow> int (length l) = ?n"
    by (metis (full_types))
  with assms(1,3) show thesis
    by (intro that [of e l], cases "burstReplicas R < replicas - int (length pods)")
      (simp_all add: manageReplicas_def SlowStartInitialBatchSize_def bind_io_def ret_def)
qed

lemma manageReplicas_deletes:
  assumes "IReplicas ips = Some replicas" and "0 \<le> burstReplicas R" and "replicas < int (length pods)"
    and "0 \<le> replicas"
  obtains e ordered del l where "manageReplicas R pods ips h =
       (Ok (e, ordered), h @ l @ map (\<lambda>p. DeletePod (Namespace ips, Name p)) del)"
    and "mset ordered = mset pods" and "set del \<subseteq> set pods"
    and "list_all (\<lambda>q. \<exists>k n. q = ListPods k \<or> q = ListIPS n) l"
    and "int (length del) = min (burstReplicas R) (int (length pods) - replicas)"
    and "(\<forall>g k. ansDeletePod (ISrv R) g k = Inr ()) \<longrightarrow> e = None"
proof -
  let ?n = "min (burstReplicas R) (int (length pods) - replicas)"
  obtain r l where r: "attempt (getIndirectlyRelatedPods R ips) h = (Ok r, h @ l)"
    "list_all (\<lambda>q. \<exists>k n. q = ListPods k \<or> q = ListIPS n) l"
    by (rule related_total)
  obtain ordered del where g: "getPodsToDelete (Codec R) pods (case r of Inl _ \<Rightarrow> [] | Inr ps \<Rightarrow> ps) ?n = (ordered, del)"
    by fastforce
  obtain e where e: "deleteLoop R ips del (h @ l) = (Ok e, (h @ l) @ map (\<lambda>p. DeletePod (Namespace ips, Name p)) del)"
    using deleteLoop_sends by blast
  have "manageReplicas R pods ips h =
      (Ok (e, ordered), h @ l @ map (\<lambda>p. DeletePod (Namespace ips, Name p)) del)"
    using assms(1,3) r(1) g e
    by (cases "burstReplicas R < int (length pods) - replicas")
      (simp_all add: manageReplicas_def bind_io_def ret_def Let_def)
  moreover have "int (length del) = ?n"
    using getPodsToDelete_length [OF g] assms(2-4) by simp
  moreover have "(\<forall>g k. ansDeletePod (ISrv R) g k = Inr ()) \<longrightarrow> e = None"
    using deleteLoop_ok [of R ips del "h @ l"] e by auto
  ultimately show thesis using getPodsToDelete_mset [OF g] r(2) by (intro that [of e ordered l del])
qed

text \<open>
  C22: adjusting the number of pods never overshoots, whatever the API server answers: it creates
  pods only when there are too few, at most as many as are missing and at most the burst, and deletes
  pods only when there are too many, exactly the surplus or the burst; what it creates has the
  template of the InplaceSet and what it deletes is one of the given pods.
\<close>

theorem manageReplicas_bounded:
  assumes "IReplicas ips = Some replicas" and "0 \<le> replicas" and "0 \<le> burstReplicas R"
  shows "\<exists>e ordered l. manageReplicas R pods ips h = (Ok (e, ordered), h @ l) \<and> mset ordered = mset pods \<and>
     list_all (own_pod_request ips pods) l \<and>
     sent is_create l \<le> max 0 (min (burstReplicas R) (replicas - int (length pods))) \<and>
     sent is_delete l = max 0 (min (burstReplicas R) (int (length pods) - replicas))"
proof (cases rule: linorder_cases [of "int (length pods)" replicas])
  case less
  then obtain e l where m: "manageReplicas R pods ips h = (Ok (e, pods), h @ l)"
    "list_all (\<lambda>q. q = CreatePod (Namespace ips) (ITemplate ips)) l"
    "int (length l) \<le> min (burstReplicas R) (replicas - int (length pods))"
    "e = None \<longrightarrow> int (length l) = min (burstReplicas R) (replicas - int (length pods))"
    by (rule manageReplicas_creates [OF assms(1,3)])
  moreover have "filter is_create l = l" "filter is_delete l = []"
    using m(2) by (auto simp: list_all_iff filter_id_conv filter_empty_conv)
  moreover have "list_all (own_pod_request ips pods) l"
    using m(2) by (rule list.pred_mono_strong) (simp add: own_pod_request_def)
  ultimately show ?thesis using less assms(3)
    by (intro exI [of _ e] exI [of _ pods] exI [of _ l]) simp
next
  case equal
  with assms show ?thesis
    by (intro exI [of _ None] exI [of _ pods] exI [of _ "[]"]) (simp add: manageReplicas_def ret_def)
next
  case greater
  then obtain e ordered del l where m: "manageReplicas R pods ips h =
       (Ok (e, ordered), h @ l @ map (\<lambda>p. DeletePod (Namespace ips, Name p)) del)"
     "mset ordered = mset pods" "set del \<subseteq> set pods"
     "list_all (\<lambda>q. \<exists>k n. q = ListPods k \<or> q = ListIPS n) l"
     "int (length del) = min (burstReplicas R) (int (length pods) - replicas)"
     "(\<forall>g k. ansDeletePod (ISrv R) g k = Inr ()) \<longrightarrow> e = None"
    using assms(2) by (rule manageReplicas_deletes [OF assms(1,3)])
  let ?d = "map (\<lambda>p. DeletePod (Namespace ips, Name p)) del"
  have "filter is_create l = []" "filter is_delete l = []"
    using m(4) by (auto simp: list_all_iff filter_empty_conv)
  moreover have "filter is_create ?d = []" "filter is_delete ?d = ?d"
    by (simp_all add: filter_empty_conv filter_id_conv)
  moreover have "list_all (own_pod_request ips pods) (l @ ?d)"
    using m(3,4) by (fastforce simp: list_all_iff own_pod_request_def)
  ultimately show ?thesis using m(1,2,5) greater assms(3)
    by (intro exI [of _ e] exI [of _ ordered] exI [of _ "l @ ?d"]) simp
qed

lemma manageReplicas_step:
  assumes "IReplicas ips = Some replicas" and "0 \<le> replicas" and "0 \<le> burstReplicas R"
    and "\<And>g ns t. ansCreatePod (ISrv R) g ns t = Inr ()" and "\<And>g k. ansDeletePod (ISrv R) g k = Inr ()"
  shows "\<exists>ordered l. manageReplicas R pods ips h = (Ok (None, ordered), h @ l) \<and>
     int (length pods) + sent is_create l - sent is_delete l =
       burst_step (burstReplicas R) replicas (int (length pods))"
proof (cases rule: linorder_cases [of "int (length pods)" replicas])
  case less
  then obtain e l where m: "manageReplicas R pods ips h = (Ok (e, pods), h @ l)"
    "list_all (\<lambda>q. q = CreatePod (Namespace ips) (ITemplate ips)) l"
    "int (length l) \<le> min (burstReplicas R) (replicas - int (length pods))"
    "e = None \<longrightarrow> int (length l) = min (burstReplicas R) (replicas - int (length pods))"
    by (rule manageReplicas_creates [OF assms(1,3)])
  have "createPod R ips g = (Ok (), g @ [CreatePod (Namespace ips) (ITemplate ips)])" for g
    using assms(4) by (simp add: createPod_def bind_io_def attempt_def call_def ret_def)
  then have ok: "\<exists>s' h'. slowStartBatch n 1 (createPod R ips) h = (Ok (s', None), h')" for n
    unfolding slowStartBatch_def by (rule slowStartLoop_ok)
  have "e = None"
    using ok [of "if - (int (length pods) - replicas) > burstReplicas R then burstReplicas R
        else - (int (length pods) - replicas)"] m(1) less assms(1)
    by (auto simp: manageReplicas_def SlowStartInitialBatchSize_def bind_io_def ret_def split: if_splits)
  moreover have "filter is_create l = l" "filter is_delete l = []"
    using m(2) by (auto simp: list_all_iff filter_id_conv filter_empty_conv)
  ultimately show ?thesis using less m(1,4) assms(3)
    by (intro exI [of _ pods] exI [of _ l]) (simp add: burst_step_def)
next
  case equal
  with assms show ?thesis
    by (intro exI [of _ pods] exI [of _ "[]"]) (simp add: manageReplicas_def ret_def burst_step_def)
next
  case greater
  then obtain e ordered del l where m: "manageReplicas R pods ips h =
       (Ok (e, ordered), h @ l @ map (\<lambda>p. DeletePod (Namespace ips, Name p)) del)"
     "mset ordered = mset pods" "set del \<subseteq> set pods"
     "list_all (\<lambda>q. \<exists>k n. q = ListPods k \<or> q = ListIPS n) l"
     "int (length del) = min (burstReplicas R) (int (length pods) - replicas)"
     "(\<forall>g k. ansDeletePod (ISrv R) g k = Inr ()) \<longrightarrow> e = None"
    using assms(2) by (rule manageReplicas_deletes [OF assms(1,3)])
  let ?d = "map (\<lambda>p. DeletePod (Namespace ips, Name p)) del"
  have "filter is_create l = []" "filter is_delete l = []"
    using m(4) by (auto simp: list_all_iff filter_empty_conv)
  moreover have "filter is_create ?d = []" "filter is_delete ?d = ?d"
    by (simp_all add: filter_empty_conv filter_id_conv)
  ultimately show ?thesis using m(1,5,6) greater assms(3,5)
    by (intro exI [of _ ordered] exI [of _ "l @ ?d"]) (simp add: burst_step_def)
qed

text \<open>
  C5: when the API server accepts every request, adjusting the number of pods does what the
  abstract specification says: the pods created less the pods deleted are one step of the burst
  towards the replicas, and there is no error.
\<close>

theorem manageReplicas_refines:
  assumes "IReplicas ips = Some replicas" and "0 \<le> replicas" and "0 \<le> burstReplicas R"
    and "\<And>g ns t. ansCreatePod (ISrv R) g ns t = Inr ()" and "\<And>g k. ansDeletePod (ISrv R) g k = Inr ()"
  shows "\<exists>ordered l. manageReplicas R pods ips h = (Ok (None, ordered), h @ l) \<and>
     int (length pods) + sent is_create l - sent is_delete l =
       burst_step (burstReplicas R) replicas (int (length pods))"
  using assms by (rule manageReplicas_step)

text \<open>Repeating the abstract step.\<close>

lemma burst_step_distance:
  "0 < b \<Longrightarrow> \<bar>r - burst_step b r n\<bar> = max 0 (\<bar>r - n\<bar> - b)"
  by (auto simp: burst_step_def)

lemma burst_step_reaches:
  assumes "0 < b" and "\<And>i. n (Suc i) = burst_step b r (n i)"
  shows "\<bar>r - n i\<bar> = max 0 (\<bar>r - n 0\<bar> - b * int i)"
proof (induction i)
  case (Suc i)
  have "b * int (Suc i) = b * int i + b" by (simp add: algebra_simps)
  with Suc burst_step_distance [OF assms(1), of r "n i"] assms(1) show ?case
    unfolding assms(2) by linarith
qed simp


section \<open>Which pods are deleted\<close>

lemma sorted_take_drop:
  "sorted_wrt P xs \<Longrightarrow> x \<in> set (take n xs) \<Longrightarrow> y \<in> set (drop n xs) \<Longrightarrow> P x y"
  by (metis append_take_drop_id sorted_wrt_append)

text \<open>
  The pods chosen for deletion are the ones the deletion order puts first, and as many as asked
  for: nothing is lost or doubled by the sorting, and no pod that is kept comes before a deleted one.
\<close>

theorem deletion_prefers_less:
  assumes "less_order (podLess X)" and "getPodsToDelete X pods related diff = (ordered, del)"
    and "0 \<le> diff" and "diff \<le> int (length pods)"
  shows "\<exists>kept. ordered = del @ kept \<and> mset ordered = mset pods \<and> int (length del) = diff \<and>
     (\<forall>d k. d \<in> set del \<longrightarrow> k \<in> set kept \<longrightarrow> (\<exists>i j.
        (d, i) \<in> set (getPodsRankedByRelatedPodsOnSameNode pods related) \<and>
        (k, j) \<in> set (getPodsRankedByRelatedPodsOnSameNode pods related) \<and>
        \<not> podLess X (k, j) (d, i)))"
proof -
  let ?ranked = "getPodsRankedByRelatedPodsOnSameNode pods related"
  define kept where "kept = drop (nat diff) ordered"
  have split: "ordered = del @ kept"
    using assms(2) by (auto simp: getPodsToDelete_def kept_def Let_def)
  have "\<exists>i j. (d, i) \<in> set ?ranked \<and> (k, j) \<in> set ?ranked \<and> \<not> podLess X (k, j) (d, i)"
    if d: "d \<in> set del" and k: "k \<in> set kept" for d k
  proof (cases "diff < int (length pods)")
    case True
    let ?s = "sort_by (podLess X) ?ranked"
    have "del = map fst (take (nat diff) ?s)" and "kept = map fst (drop (nat diff) ?s)"
      using True assms(2) by (auto simp: getPodsToDelete_def kept_def take_map drop_map Let_def)
    with d k obtain i j where ij: "(d, i) \<in> set (take (nat diff) ?s)" "(k, j) \<in> set (drop (nat diff) ?s)"
      by auto
    have "sorted_wrt (\<lambda>a b. \<not> podLess X b a) ?s"
      using assms(1) by (rule less_order.sorted_sort)
    with ij have "\<not> podLess X (k, j) (d, i)" using sorted_take_drop by fastforce
    moreover have "(d, i) \<in> set ?ranked" "(k, j) \<in> set ?ranked"
      using ij by (auto dest: in_set_takeD in_set_dropD)
    ultimately show ?thesis by blast
  next
    case False
    with assms(2,4) k show ?thesis by (auto simp: getPodsToDelete_def kept_def Let_def)
  qed
  then show ?thesis
    using split getPodsToDelete_mset(1) [OF assms(2)] getPodsToDelete_length [OF assms(2-4)] by blast
qed

section \<open>Status\<close>

lemma countPod_step:
  "countPod R ips pod (r, a) h = (Ok (r', a'), h') \<Longrightarrow>
   r' = (if IsPodReady pod then r + 1 else r) \<and> (a' = a \<or> IsPodReady pod \<and> a' = a + 1)"
  by (auto simp: countPod_def now_def bind_io_def call_def split: if_splits)

lemma countPod_bounds:
  assumes "for_io (countPod R ips) pods (0, 0) h = (Ok (ready, available), h')"
  shows "0 \<le> available \<and> available \<le> ready \<and> ready = int (length (filter IsPodReady pods))"
proof -
  have "for_io (countPod R ips) pods (r, a) h = (Ok (ready, available), h') \<Longrightarrow> 0 \<le> a \<Longrightarrow> a \<le> r \<Longrightarrow>
      0 \<le> available \<and> available \<le> ready \<and> ready = r + int (length (filter IsPodReady pods))" for r a
  proof (induction pods arbitrary: r a h)
    case (Cons pod pods)
    from Cons.prems(1) obtain r' a' h1 where "countPod R ips pod (r, a) h = (Ok (r', a'), h1)"
      "for_io (countPod R ips) pods (r', a') h1 = (Ok (ready, available), h')"
      by (auto elim: bind_OkE)
    with Cons.IH [of r' a' h1] Cons.prems(2,3) show ?case
      by (auto dest!: countPod_step split: if_splits)
  qed simp
  from this [of 0 0] assms show ?thesis by simp
qed

lemma failureCondition_iff:
  assumes "failureCondition R ips pods err h = (Ok st, h')"
  shows "GetCondition st ReplicaSetReplicaFailure \<noteq> None \<longleftrightarrow> err \<noteq> None"
proof (cases err)
  case None
  with assms show ?thesis
    by (auto simp: failureCondition_def GetCondition_def RemoveCondition_def split: option.splits)
next
  case (Some e)
  show ?thesis
  proof (cases "GetCondition (IStatus ips) ReplicaSetReplicaFailure")
    case None
    have "\<exists>d. GetCondition (SetCondition (IStatus ips) c) ReplicaSetReplicaFailure = Some d"
      if "CondType c = ReplicaSetReplicaFailure" for c
      using that ips_conds.get_set [of "ISConditions (IStatus ips)" c]
      by (auto simp: GetCondition_def SetCondition_def)
    with Some None assms show ?thesis
      by (auto simp: failureCondition_def NewReplicaSetCondition_def Let_def elim!: bind_OkE)
  qed (use Some assms in \<open>auto simp: failureCondition_def\<close>)
qed

text \<open>
  C27: the computed status of an InplaceSet counts its pods consistently: the available ones are
  among the ready ones, the ready and the fully labelled ones among all of them, and the failure
  condition is there exactly when adjusting the number of pods has just failed.
\<close>

theorem ips_status_consistent:
  assumes "calculateStatusIPS R ips pods err h = (Ok st, h')" and "length pods < 2147483648"
  shows "ISReplicas st = int (length pods) \<and> ISReady st = int (length (filter IsPodReady pods)) \<and>
     0 \<le> ISAvailable st \<and> ISAvailable st \<le> ISReady st \<and> ISReady st \<le> ISReplicas st \<and>
     0 \<le> ISFullyLabeled st \<and> ISFullyLabeled st \<le> ISReplicas st \<and>
     (GetCondition st ReplicaSetReplicaFailure \<noteq> None \<longleftrightarrow> err \<noteq> None)"
proof -
  from assms(1) [unfolded calculateStatusIPS_def] obtain ra h1 where
    1: "for_io (countPod R ips) pods (0, 0) h = (Ok ra, h1)"
      "(case ra of (ready, available) \<Rightarrow> bind_io (failureCondition R ips pods err) (\<lambda>newStatus.
         bind_io (attempt (calcInplaceUpdateStatus R ips pods)) (\<lambda>r.
         ret (newStatus\<lparr>ISReplicas := i32 (int (length pods)),
           ISFullyLabeled := i32 (int (length (filter (fullyLabeled ips) pods))),
           ISReady := i32 ready, ISAvailable := i32 available,
           ISInplaceUpdate := (case r of Inl _ \<Rightarrow> None | Inr st \<Rightarrow> st)\<rparr>)))) h1 = (Ok st, h')"
    by (rule bind_OkE)
  obtain ready available where ra: "ra = (ready, available)" by (cases ra)
  note c = 1(1) [unfolded ra]
  from 1(2) [unfolded ra prod.case] obtain st1 h2 where f: "failureCondition R ips pods err h1 = (Ok st1, h2)"
    and 2: "bind_io (attempt (calcInplaceUpdateStatus R ips pods)) (\<lambda>r.
         ret (st1\<lparr>ISReplicas := i32 (int (length pods)),
           ISFullyLabeled := i32 (int (length (filter (fullyLabeled ips) pods))),
           ISReady := i32 ready, ISAvailable := i32 available,
           ISInplaceUpdate := (case r of Inl _ \<Rightarrow> None | Inr st \<Rightarrow> st)\<rparr>)) h2 = (Ok st, h')"
    by (rule bind_OkE)
  from 2 have st: "ISReplicas st = i32 (int (length pods)) \<and>
      ISFullyLabeled st = i32 (int (length (filter (fullyLabeled ips) pods))) \<and>
      ISReady st = i32 ready \<and> ISAvailable st = i32 available \<and> ISConditions st = ISConditions st1"
    by (rule bind_OkE) simp
  have len: "length (filter P pods) < 2147483648" "length (filter P pods) \<le> length pods" for P
    using assms(2) length_filter_le [of P pods] by linarith+
  have w: "i32 (int n) = int n" if "n < 2147483648" for n
    using that by (intro i32_idI) simp_all
  have "0 \<le> available" "available \<le> ready" "ready = int (length (filter IsPodReady pods))"
    using countPod_bounds [OF c] by simp_all
  moreover from this have "i32 available = available"
    using len(1) [of IsPodReady] by (intro i32_idI) simp_all
  ultimately show ?thesis
    using failureCondition_iff [OF f] len w assms(2) by (simp add: st GetCondition_def)
qed

text \<open>
  Two failed writes of the status of an InplaceSet are reported as a success: when both writes
  fail and the InplaceSet can be read in between, the status is not stored, the synchronisation goes
  on with the InplaceSet as it was read, and no error is returned.
\<close>

theorem status_write_failure_lost:
  assumes "\<And>g s. ansUpdateIPSStatus (ISrv R) g s = Inl e" and "\<And>g k. ansGetIPS (ISrv R) g k = Inr stored"
    and "\<not> statusUnchanged ips st"
  shows "\<exists>h'. updateInplaceSetStatus R ips st h = (Ok stored, h')"
proof -
  have "statusUnchanged (ips\<lparr>Annotations := a\<rparr>) st = statusUnchanged ips st" for a
    by (simp add: statusUnchanged_def)
  with assms show ?thesis
    by (simp add: updateInplaceSetStatus_def numeral_2_eq_2 Let_def bind_io_def attempt_def call_def
        apiGet_def ret_def)
qed

section \<open>Witnesses\<close>

definition three_replicas :: inplace_set where
  "three_replicas = zero_inplace_set\<lparr>Name := ''web'', Namespace := ''default'', UID := ''u1'', IReplicas := Some 3\<rparr>"

definition full_reconciler :: ips_ctl where
  "full_reconciler = sample_reconciler\<lparr>ISrv := sample_server\<lparr>ansUpdateIPSStatus := (\<lambda>_ _. Inl Conflict),
     ansGetIPS := (\<lambda>_ _. Inr three_replicas), ansListPods := (\<lambda>_ _. Inr [sample_pod])\<rparr>\<rparr>"

theorem slow_start_batches_witness:
  "\<exists>s e l. slowStartBatch 5 1 (createPod full_reconciler three_replicas) [] = (Ok (s, e), [] @ l) \<and>
     list_all (\<lambda>q. q = CreatePod ''default'' zero_template) l \<and>
     0 \<le> s \<and> s \<le> int (length l) \<and> int (length l) \<le> 5 \<and>
     (if e = None then s = 5 \<and> int (length l) = 5
      else s < int (length l) \<and> int (length l) \<le> 2 * s + 1)"
proof (rule slow_start_batches)
  show "calls_one (\<lambda>q. q = CreatePod ''default'' zero_template) (createPod full_reconciler three_replicas)"
    using createPod_calls_one [of three_replicas full_reconciler]
    by (simp add: three_replicas_def zero_inplace_set_def)
qed simp_all

theorem manageReplicas_bounded_witness:
  "\<exists>e ordered l. manageReplicas full_reconciler [sample_pod] three_replicas [] = (Ok (e, ordered), [] @ l) \<and>
     mset ordered = mset [sample_pod] \<and> list_all (own_pod_request three_replicas [sample_pod]) l \<and>
     sent is_create l \<le> max 0 (min (burstReplicas full_reconciler) (3 - int (length [sample_pod]))) \<and>
     sent is_delete l = max 0 (min (burstReplicas full_reconciler) (int (length [sample_pod]) - 3))"
  by (rule manageReplicas_bounded) (simp_all add: three_replicas_def full_reconciler_def sample_reconciler_def)

lemma full_accepts:
  "ansCreatePod (ISrv full_reconciler) g ns t = Inr ()" "ansDeletePod (ISrv full_reconciler) g k = Inr ()"
  "IReplicas three_replicas = Some 3" "burstReplicas full_reconciler = 200"
  by (simp_all add: full_reconciler_def sample_server_def three_replicas_def sample_reconciler_def)

theorem manageReplicas_refines_witness:
  "\<exists>ordered l. manageReplicas full_reconciler [sample_pod] three_replicas [] = (Ok (None, ordered), [] @ l) \<and>
     int (length [sample_pod]) + sent is_create l - sent is_delete l =
       burst_step (burstReplicas full_reconciler) 3 (int (length [sample_pod]))"
  by (rule manageReplicas_refines) (simp_all add: full_accepts)


theorem deletion_prefers_less_witness:
  "\<exists>ordered kept. getPodsToDelete sample_codec [sample_pod, sample_pod\<lparr>CreationTimestamp := 9\<rparr>] [] 1 =
      (ordered, [sample_pod\<lparr>CreationTimestamp := 9\<rparr>]) \<and>
    ordered = [sample_pod\<lparr>CreationTimestamp := 9\<rparr>] @ kept"
proof -
  have del: "getPodsToDelete sample_codec [sample_pod, sample_pod\<lparr>CreationTimestamp := 9\<rparr>] [] 1 =
      ([sample_pod\<lparr>CreationTimestamp := 9\<rparr>, sample_pod], [sample_pod\<lparr>CreationTimestamp := 9\<rparr>])"
    by (simp add: getPodsToDelete_def getPodsRankedByRelatedPodsOnSameNode_def sample_codec_def sample_pod_def
        zero_values)
  have "less_order (podLess sample_codec)"
    by unfold_locales (auto simp: sample_codec_def)
  from deletion_prefers_less [OF this del] show ?thesis using del by auto
qed

theorem ips_status_consistent_witness:
  "\<exists>st h'. calculateStatusIPS full_reconciler three_replicas [sample_pod] None [] = (Ok st, h') \<and>
     ISReplicas st = 1 \<and> GetCondition st ReplicaSetReplicaFailure = None"
proof -
  have "\<exists>st h'. calculateStatusIPS full_reconciler three_replicas [sample_pod] None [] = (Ok st, h')"
    by (simp add: calculateStatusIPS_def countPod_def IsPodReady_def getCondition_def get_cond_def sample_pod_def
        zero_values failureCondition_def three_replicas_def GetCondition_def bind_io_def attempt_def ret_def
        calcInplaceUpdateStatus_def getInplaceSetUpdateSpec_def GetInplaceSetUpdateSpec_def)
  then show ?thesis using ips_status_consistent [of full_reconciler three_replicas "[sample_pod]" None "[]"] by auto
qed

theorem status_write_failure_lost_witness:
  "\<exists>h'. updateInplaceSetStatus full_reconciler three_replicas (zero_ips_status\<lparr>ISReplicas := 1\<rparr>) [] =
     (Ok three_replicas, h')"
  by (rule status_write_failure_lost)
    (simp_all add: full_reconciler_def statusUnchanged_def three_replicas_def zero_values)

end
