(* ===== verification/InplaceSync.thy ===== *)
theory InplaceSync
  imports PodCount
begin

text \<open>
  One synchronisation of an InplaceSet as a whole: which pods it may touch, for every answer of the
  API server, and that it never panics.
\<close>

section \<open>Ownership\<close>

text \<open>A pod the InplaceSet may touch: it matches, and it is owned or a matching orphan.\<close>

definition owned_pod :: "inplace_set \<Rightarrow> pod \<Rightarrow> bool" where
  "owned_pod ips pod \<longleftrightarrow> (\<exists>r. GetControllerOf pod = Some r \<and> OwnerUID r = UID ips)"

definition claimable :: "inplace_set \<Rightarrow> selector \<Rightarrow> pod \<Rightarrow> bool" where
  "claimable ips sel pod \<longleftrightarrow> SelMatches sel (Labels pod) \<and>
     (owned_pod ips pod \<or>
      GetControllerOf pod = None \<and> DeletionTimestamp pod = None \<and> DeletionTimestamp ips = None \<and>
      (Namespace ips = [] \<or> Namespace pod = Namespace ips))"

definition claim_pod_request :: "inplace_set \<Rightarrow> selector \<Rightarrow> pod list \<Rightarrow> req \<Rightarrow> bool" where
  "claim_pod_request ips sel pods q = (case q of
     GetIPS k \<Rightarrow> k = ipsKey ips
   | AdoptPod p \<Rightarrow> p \<in> set pods \<and> claimable ips sel p \<and> \<not> owned_pod ips p
   | ReleasePod p \<Rightarrow> p \<in> set pods \<and> owned_pod ips p \<and> \<not> SelMatches sel (Labels p) \<and> DeletionTimestamp ips = None
   | _ \<Rightarrow> False)"

lemma emits_CanAdopt: "P (GetIPS (ipsKey ips)) \<Longrightarrow> emits P (CanAdopt R ips once)"
  unfolding CanAdopt_def canAdoptFunc_def apiGet_def by (intro emits_intros)

lemma emits_ClaimObject:
  assumes "pod \<in> set pods"
  shows "emits (claim_pod_request ips sel pods) (ClaimObject R ips sel once pod)"
  unfolding ClaimObject_def AdoptPod_of_def ReleasePod_of_def
  by (intro emits_intros emits_CanAdopt emits_case_err)
    (auto simp: claim_pod_request_def claimable_def owned_pod_def assms)

lemma ClaimObject_claims:
  assumes "ClaimObject R ips sel once pod h = (Ok (Inr True, once'), h')"
  shows "claimable ips sel pod \<and> (owned_pod ips pod \<or> AdoptPod pod \<in> set h')"
proof (cases "GetControllerOf pod")
  case None
  with assms have "claimable ips sel pod" "\<exists>o1 h1. AdoptPod_of R ips once pod h = (Ok (Inr (), o1), h1) \<and> h' = h1"
    by (auto simp: ClaimObject_def claimable_def Let_def elim!: bind_OkE split: if_splits sum.splits err.splits)
  moreover from this(2) have "AdoptPod pod \<in> set h'"
    by (auto simp: AdoptPod_of_def attempt_def elim!: bind_OkE split: if_splits prod.splits res.splits)
  ultimately show ?thesis by blast
next
  case (Some r)
  with assms show ?thesis
    by (auto simp: ClaimObject_def claimable_def owned_pod_def Let_def elim!: bind_OkE
        split: if_splits sum.splits err.splits)
qed

lemma emits_claimPodStep:
  "pod \<in> set pods \<Longrightarrow> emits (claim_pod_request ips sel pods) (claimPodStep R ips sel pod st)"
  unfolding claimPodStep_def by (intro emits_intros emits_ClaimObject)

lemma emits_claimPods: "emits (claim_pod_request ips sel pods) (claimPods R ips sel pods)"
  unfolding claimPods_def by (intro emits_intros emits_for emits_claimPodStep)

lemma claimPods_claims:
  assumes "claimPods R ips sel pods h = (Ok ps, h')"
  shows "\<forall>p \<in> set ps. p \<in> set pods \<and> claimable ips sel p \<and> (owned_pod ips p \<or> AdoptPod p \<in> set h')"
proof -
  let ?I = "\<lambda>(claimed, errs :: err list, once :: err option option) g.
    \<forall>p \<in> set claimed. p \<in> set pods \<and> claimable ips sel p \<and> (owned_pod ips p \<or> AdoptPod p \<in> set g)"
  from assms obtain st where st: "for_io (claimPodStep R ips sel) pods ([], [], None) h = (Ok st, h')"
    and ps: "ps = fst st"
    unfolding claimPods_def by (auto elim!: bind_OkE split: if_splits)
  have "?I st h'"
    using st
  proof (rule for_io_inv)
    fix x s g t g'
    assume x: "x \<in> set pods" and I: "?I s g" and step: "claimPodStep R ips sel x s g = (Ok t, g')"
    obtain claimed errs once where s: "s = (claimed, errs, once)" by (cases s)
    from emitsD [OF emits_claimPodStep [OF x] step] have mono: "set g \<subseteq> set g'" by auto
    from step [unfolded s claimPodStep_def prod.case] obtain r where
      r: "ClaimObject R ips sel once x g = (Ok r, g')"
        "t = (case fst r of Inl e \<Rightarrow> (claimed, errs @ [e], snd r)
           | Inr ok \<Rightarrow> (if ok then claimed @ [x] else claimed, errs, snd r))"
      by (auto elim!: bind_OkE split: sum.splits)
    show "?I t g'"
    proof (cases "fst r = Inr True")
      case True
      with r ClaimObject_claims [of R ips sel once x g "snd r" g']
      have "claimable ips sel x \<and> (owned_pod ips x \<or> AdoptPod x \<in> set g')"
        by (metis prod.collapse)
      with True I r(2) x mono show ?thesis by (auto simp: s)
    next
      case False
      with I r(2) mono show ?thesis by (auto simp: s split: sum.splits bool.splits)
    qed
  qed simp
  with ps show ?thesis by (cases st) simp
qed

text \<open>
  The InplaceSet controller works only on pods that are its own. Claiming adopts only matching
  orphans that are not being deleted and releases only own pods that stopped matching, for every
  answer of the API server; and every pod it returns was listed, matches, and either was owned or
  has just been adopted.
\<close>

theorem claimed_pods_owned:
  "emits (claim_pod_request ips sel pods) (claimPods R ips sel pods) \<and>
   (\<forall>h ps h' p. claimPods R ips sel pods h = (Ok ps, h') \<and> p \<in> set ps \<longrightarrow>
      p \<in> set pods \<and> claimable ips sel p \<and> (owned_pod ips p \<or> AdoptPod p \<in> set h'))"
  using emits_claimPods claimPods_claims by blast

section \<open>One synchronisation\<close>

text \<open>
  What a synchronisation may send once the pods are claimed: reads of these pods, deletions of
  them, creations of the template; the other requests write what was read.
\<close>

definition sync_request :: "inplace_set \<Rightarrow> pod list \<Rightarrow> req \<Rightarrow> bool" where
  "sync_request ips pods q = (case q of
     GetPod k \<Rightarrow> \<exists>p \<in> set pods. k = podKey p
   | DeletePod k \<Rightarrow> \<exists>p \<in> set pods. k = (Namespace ips, Name p)
   | CreatePod ns t \<Rightarrow> ns = Namespace ips \<and> t = ITemplate ips
   | AdoptPod _ \<Rightarrow> False
   | ReleasePod _ \<Rightarrow> False
   | _ \<Rightarrow> True)"

lemma sync_request_simps [simp]:
  "sync_request ips pods Now" "sync_request ips pods (Event e)" "sync_request ips pods (UpdatePod p)"
  "sync_request ips pods (UpdatePodStatus p)" "sync_request ips pods (ListPods k)"
  "sync_request ips pods (ListIPS n)" "sync_request ips pods (GetIPS k)"
  "sync_request ips pods (UpdateIPSStatus s)"
  "sync_request ips pods (CreatePod (Namespace ips) (ITemplate ips))"
  "p \<in> set pods \<Longrightarrow> sync_request ips pods (GetPod (podKey p))"
  by (auto simp: sync_request_def)

lemma emits_patch [emits_intros]: "P Now \<Longrightarrow> emits P (patchUpdateSpecToPod R pod spec st)"
  unfolding patchUpdateSpecToPod_def by (intro emits_intros)

lemma emits_refreshPod:
  assumes "pod \<in> set pods" shows "emits (sync_request ips pods) (refreshPod R pod)"
  unfolding refreshPod_def finishGracePeriod_def updateCondition_def updatePod_def
  by (intro emits_intros) (simp_all add: assms)

lemma emits_updateBatch:
  "set ps \<subseteq> set pods \<Longrightarrow> emits (sync_request ips pods) (updateBatch R set' spec ps n)"
proof (induction R set' spec ps n rule: updateBatch.induct)
  case (2 R set' spec pod ps n)
  then have "pod \<in> set pods" by simp
  then have "emits (sync_request ips pods) (TryInplaceUpdate R set' pod spec)"
    unfolding TryInplaceUpdate_def closeGate_def updateCondition_def updatePodInPlace_def preparePod_def updatePod_def
    by (intro emits_intros) simp_all
  with 2 show ?case by (auto intro!: emits_intros)
qed (simp add: emits_ret)

lemma need_subset:
  "getNeedInplaceUpdatePods X ips pods spec = Inr need \<Longrightarrow> set need \<subseteq> set pods"
  by (auto simp: getNeedInplaceUpdatePods_def Let_def dest!: notTriedPods_filter dest: in_set_takeD
      split: if_splits sum.splits)

lemma emits_manageInplaceUpdate:
  assumes "set ps \<subseteq> set pods"
  shows "emits (sync_request ips pods) (manageInplaceUpdate R ps set')"
proof -
  have batch: "emits (sync_request ips pods) (bind_io (of_sum (getNeedInplaceUpdatePods (Codec R) set' ps spec))
      (\<lambda>need. updateBatch R set' spec need 0))" for spec
  proof (rule emits_bind_ok [OF emits_of_sum])
    fix need g g'
    assume "of_sum (getNeedInplaceUpdatePods (Codec R) set' ps spec) g = (Ok need, g')"
    then have "getNeedInplaceUpdatePods (Codec R) set' ps spec = Inr need" by simp
    then have "set need \<subseteq> set ps" by (rule need_subset)
    with assms show "emits (sync_request ips pods) (updateBatch R set' spec need 0)"
      by (intro emits_updateBatch) simp
  qed
  show ?thesis
    unfolding manageInplaceUpdate_def
    by (rule emits_bind [OF emits_of_sum]) (auto intro: emits_ret batch split: option.split)
qed

lemma emits_runBatch: "emits P fn \<Longrightarrow> emits P (runBatch fn n)"
  by (induction n) (auto intro!: emits_intros)

lemma emits_slowStartLoop: "emits P fn \<Longrightarrow> emits P (slowStartLoop fn rest batch s)"
proof (induction fn rest batch s rule: slowStartLoop.induct)
  case (1 fn rest batch s)
  show ?case
    by (subst slowStartLoop.simps) (intro emits_intros emits_runBatch 1, simp_all)
qed

lemma emits_deleteLoop:
  "set del \<subseteq> set pods \<Longrightarrow> emits (sync_request ips pods) (deleteLoop R ips del)"
  by (induction R ips del rule: deleteLoop.induct)
    (auto intro!: emits_intros simp: sync_request_def split: sum.split err.split)

lemma emits_manageReplicas: "emits (sync_request ips pods) (manageReplicas R pods ips)"
proof -
  have "emits (sync_request ips pods) (createPod R ips)"
    unfolding createPod_def by (intro emits_intros) simp
  moreover have "emits (sync_request ips pods) (getIndirectlyRelatedPods R ips)"
    by (rule emits_mono [OF emits_related]) auto
  moreover have "emits (sync_request ips pods) (deleteLoop R ips (snd (getPodsToDelete X pods related n)))" for X related n
    using getPodsToDelete_mset(2) [of X pods related n] by (intro emits_deleteLoop) (metis prod.collapse)
  ultimately show ?thesis
    unfolding manageReplicas_def slowStartBatch_def
    by (intro emits_intros emits_slowStartLoop) (auto, metis snd_conv)
qed

lemma manageReplicas_same_pods:
  assumes "manageReplicas R pods ips h = (Ok (e, ordered), h')"
  shows "set ordered = set pods"
proof -
  have "mset (fst (getPodsToDelete X pods related n)) = mset pods" for X related n
    using getPodsToDelete_mset(1) [of X pods related n] by (metis prod.collapse)
  then have "set (fst (getPodsToDelete X pods related n)) = set pods" for X related n
    by (metis set_mset_mset)
  with assms show ?thesis
    by (auto simp: manageReplicas_def Let_def elim!: bind_OkE split: if_splits prod.splits) (metis fst_conv)+
qed

lemma emits_calculateStatusIPS: "P Now \<Longrightarrow> emits P (calculateStatusIPS R ips pods err)"
  unfolding calculateStatusIPS_def countPod_def failureCondition_def NewReplicaSetCondition_def
    calcInplaceUpdateStatus_def countUpdated_def
  by (intro emits_intros emits_for)

lemma emits_statusLoop:
  "(\<And>s. P (UpdateIPSStatus s)) \<Longrightarrow> (\<And>k. P (GetIPS k)) \<Longrightarrow> emits P (statusLoop R st n ips)"
  by (induction R st n ips rule: statusLoop.induct) (auto simp: apiGet_def ipsKey_def Let_def intro!: emits_intros)

lemma emits_finishSync:
  assumes "set ps \<subseteq> set pods"
  shows "emits (sync_request ips pods) (finishSync R ips n err ps)"
  unfolding finishSync_def updateInplaceSetStatus_def
  by (intro emits_intros emits_manageInplaceUpdate [OF assms] emits_calculateStatusIPS emits_statusLoop) simp_all

lemma emits_syncPods: "emits (sync_request ips pods) (syncPods R ips pods)"
proof -
  have refresh: "emits (sync_request ips pods) (refreshPods R pods)"
    unfolding refreshPods_def by (intro emits_for emits_intros emits_refreshPod)
  have rest: "emits (sync_request ips pods)
      (bind_io (if replicas \<noteq> int (length pods) then manageReplicas R pods ips else ret (None, pods))
        (\<lambda>(err, ps). finishSync R ips n err ps))" for replicas n
  proof (rule emits_bind_ok)
    fix x g g'
    assume "(if replicas \<noteq> int (length pods) then manageReplicas R pods ips else ret (None, pods)) g = (Ok x, g')"
    then have "set (snd x) \<subseteq> set pods"
      using manageReplicas_same_pods by (cases x) (auto split: if_splits)
    then show "emits (sync_request ips pods) (case x of (err, ps) \<Rightarrow> finishSync R ips n err ps)"
      by (cases x) (simp add: emits_finishSync)
  qed (intro emits_intros emits_manageReplicas)
  show ?thesis
    unfolding syncPods_def by (rule emits_bind [OF refresh], rule emits_bind [OF emits_deref], rule rest)
qed


lemma panic_free_now [panic_free_intros]: "panic_free (now S)"
  unfolding now_def by (intro panic_free_intros)

lemma panic_free_updateCondition [panic_free_intros]: "panic_free (updateCondition R pod c)"
  unfolding updateCondition_def getPod_def updatePodReadyCondition_def by (intro panic_free_intros)

lemma panic_free_refreshPods [panic_free_intros]: "panic_free (refreshPods R pods)"
  unfolding refreshPods_def refreshPod_def finishGracePeriod_def patchUpdateSpecToPod_def getPod_def updatePod_def
  by (intro panic_free_intros)

lemma panic_free_updateBatch [panic_free_intros]: "panic_free (updateBatch R ips spec pods n)"
proof (induction R ips spec pods n rule: updateBatch.induct)
  case (2 R ips spec pod pods n)
  have "panic_free (TryInplaceUpdate R ips pod spec)"
    unfolding TryInplaceUpdate_def closeGate_def updatePodInPlace_def preparePod_def patchUpdateSpecToPod_def
      getPod_def updatePod_def
    by (intro panic_free_intros)
  with 2 show ?case by (auto intro!: panic_free_intros)
qed (simp add: panic_free_ret)

lemma panic_free_slowStartLoop [panic_free_intros]:
  "panic_free fn \<Longrightarrow> panic_free (slowStartLoop fn rest batch s)"
proof (induction fn rest batch s rule: slowStartLoop.induct)
  case (1 fn rest batch s)
  have "panic_free (runBatch fn n)" for n
    using 1(2) by (induction n) (auto intro!: panic_free_intros)
  with 1 show ?case by (subst slowStartLoop.simps) (intro panic_free_intros, simp_all)
qed

lemma panic_free_deleteLoop [panic_free_intros]: "panic_free (deleteLoop R ips pods)"
  by (induction R ips pods rule: deleteLoop.induct) (auto intro!: panic_free_intros)

lemma panic_free_manageReplicas: "IReplicas ips \<noteq> None \<Longrightarrow> panic_free (manageReplicas R pods ips)"
  unfolding manageReplicas_def slowStartBatch_def createPod_def
  by (intro panic_free_intros panic_free_deref)

lemma panic_free_calculateStatusIPS:
  "IReplicas ips \<noteq> None \<Longrightarrow> panic_free (calculateStatusIPS R ips pods err)"
  unfolding calculateStatusIPS_def countPod_def failureCondition_def NewReplicaSetCondition_def
    calcInplaceUpdateStatus_def countUpdated_def
  by (intro panic_free_intros panic_free_deref)

lemma panic_free_statusLoop: "panic_free (statusLoop R st n ips)"
  by (induction R st n ips rule: statusLoop.induct) (auto simp: apiGet_def Let_def intro!: panic_free_intros)

lemma panic_free_claimPods: "panic_free (claimPods R ips sel pods)"
  unfolding claimPods_def claimPodStep_def ClaimObject_def AdoptPod_of_def ReleasePod_of_def CanAdopt_def
    canAdoptFunc_def apiGet_def
  by (intro panic_free_intros)

text \<open>A stored InplaceSet has its replicas set: the API server fills in the default.\<close>

definition replicas_defaulted :: "ips_ctl \<Rightarrow> bool" where
  "replicas_defaulted R \<longleftrightarrow>
     (\<forall>g k s. ansGetIPS (ISrv R) g k = Inr s \<longrightarrow> IReplicas s \<noteq> None) \<and>
     (\<forall>g s s'. ansUpdateIPSStatus (ISrv R) g s = Inr s' \<longrightarrow> IReplicas s' \<noteq> None)"

lemma statusLoop_replicas:
  assumes "statusLoop R st n ips h = (Ok s, h')" and "replicas_defaulted R" and "IReplicas ips \<noteq> None"
  shows "IReplicas s \<noteq> None"
  using assms
proof (induction R st n ips arbitrary: h rule: statusLoop.induct)
  case (2 R st n ips)
  let ?i = "ips\<lparr>IStatus := st\<rparr>"
  show ?case
  proof (cases "ansUpdateIPSStatus (ISrv R) h ?i")
    case (Inr s')
    with 2 show ?thesis
      by (auto simp: replicas_defaulted_def Let_def bind_io_def attempt_def call_def)
  next
    case (Inl e)
    with 2(2) obtain s' g where "apiGet R (ipsKey ?i) (h @ [UpdateIPSStatus ?i]) = (Ok s', g)"
      "statusLoop R st n s' g = (Ok s, h')"
      by (auto simp: Let_def bind_io_def attempt_def call_def split: prod.splits res.splits)
    moreover from this(1) have "ansGetIPS (ISrv R) (h @ [UpdateIPSStatus ?i]) (ipsKey ?i) = Inr s'"
      by (simp add: apiGet_def)
    then have "IReplicas s' \<noteq> None" using 2(3) unfolding replicas_defaulted_def by blast
    ultimately show ?thesis using 2(1) 2(3) by blast
  qed
qed simp

lemma updateInplaceSetStatus_replicas:
  assumes "updateInplaceSetStatus R ips st h = (Ok s, h')" and "replicas_defaulted R" and "IReplicas ips \<noteq> None"
  shows "IReplicas s \<noteq> None"
  using assms by (auto simp: updateInplaceSetStatus_def Let_def dest: statusLoop_replicas split: if_splits)

lemma panic_free_finishSync:
  assumes "replicas_defaulted R" and "IReplicas ips \<noteq> None"
  shows "panic_free (finishSync R ips n err pods)"
proof -
  have status: "panic_free (bind_io (updateInplaceSetStatus R ips st) (\<lambda>updatedRS.
     (case err of
        Some e \<Rightarrow> fail e
      | None \<Rightarrow>
          (if IMinReadySeconds updatedRS > 0
           then bind_io (deref (IReplicas updatedRS)) (\<lambda>n.
             ret (if ISReady (IStatus updatedRS) = n \<and> ISAvailable (IStatus updatedRS) \<noteq> n
                  then IMinReadySeconds updatedRS * Second else t))
           else ret t))))" for st t
  proof (rule panic_free_bind_ok)
    show "panic_free (updateInplaceSetStatus R ips st)"
      unfolding updateInplaceSetStatus_def by (intro panic_free_intros panic_free_statusLoop)
  next
    fix s g g'
    assume "updateInplaceSetStatus R ips st g = (Ok s, g')"
    then have "IReplicas s \<noteq> None" using assms by (rule updateInplaceSetStatus_replicas)
    then show "panic_free (case err of Some e \<Rightarrow> fail e
        | None \<Rightarrow> (if IMinReadySeconds s > 0
           then bind_io (deref (IReplicas s)) (\<lambda>n.
             ret (if ISReady (IStatus s) = n \<and> ISAvailable (IStatus s) \<noteq> n then IMinReadySeconds s * Second else t))
           else ret t))"
      by (intro panic_free_intros panic_free_deref)
  qed
  have upd: "panic_free (manageInplaceUpdate R pods ips)"
    unfolding manageInplaceUpdate_def by (intro panic_free_intros)
  show ?thesis
    unfolding finishSync_def
    by (intro panic_free_bind [OF _ panic_free_bind [OF panic_free_calculateStatusIPS [OF assms(2)] status]]
        panic_free_intros upd)
qed

lemma panic_free_syncPods:
  assumes "replicas_defaulted R" and "IReplicas ips \<noteq> None"
  shows "panic_free (syncPods R ips pods)"
  unfolding syncPods_def
  by (intro panic_free_intros panic_free_deref panic_free_manageReplicas panic_free_finishSync assms)


section \<open>Witnesses\<close>


definition any_label :: selector where
  "any_label = \<lparr>SelMatches = (\<lambda>_. True), SelString = ''app''\<rparr>"

lemma sample_claim:
  "claimPods full_reconciler three_replicas any_label [sample_pod] [] =
     (Ok [sample_pod], [GetIPS (ipsKey three_replicas), AdoptPod sample_pod])"
  by (simp add: claimPods_def claimPodStep_def ClaimObject_def AdoptPod_of_def CanAdopt_def canAdoptFunc_def
      apiGet_def any_label_def GetControllerOf_def sample_pod_def three_replicas_def full_reconciler_def
      sample_server_def zero_values io_defs)

theorem claimed_pods_owned_witness:
  "sample_pod \<in> set [sample_pod] \<and> claimable three_replicas any_label sample_pod \<and>
   (owned_pod three_replicas sample_pod \<or>
    AdoptPod sample_pod \<in> set [GetIPS (ipsKey three_replicas), AdoptPod sample_pod])"
  using claimed_pods_owned [of three_replicas any_label "[sample_pod]" full_reconciler] sample_claim
  by (meson list.set_intros(1))


end
