(* ===== verification/Webhook.thy ===== *)
theory Webhook
  imports Replicas
begin

text \<open>
  The handlers of the admission webhooks as the API server calls them
  (\<open>extendeddeployment_webhook.go\<close>, \<open>inplaceset_webhook.go\<close>): a handler is given any
  runtime object and first asserts its type. The checks of an object of the right type are those of
  the theory \<open>Replicas\<close>. The histories of a stored ExtendedDeployment are the sequences of
  writes the handlers admit.
\<close>

section \<open>The handlers\<close>

datatype runtime_object = EDObject extended_deployment | IPSObject inplace_set | OtherObject string

text \<open>The Go type of an object, as \<open>%T\<close> prints it.\<close>

fun type_of :: "runtime_object \<Rightarrow> string" where
  "type_of (EDObject _) = ''*v1beta1.ExtendedDeployment''"
| "type_of (IPSObject _) = ''*v1beta1.InplaceSet''"
| "type_of (OtherObject t) = t"

text \<open>A defaulter returns the object it leaves behind; both leave the object as it is.\<close>

fun ED_Default :: "runtime_object \<Rightarrow> runtime_object res" where
  "ED_Default (EDObject ed) = Ok (EDObject ed)"
| "ED_Default obj = Err (Msg (''expected an ExtendedDeployment object but got '' @ type_of obj))"

fun ED_ValidateCreate :: "(pod_template \<Rightarrow> err list) \<Rightarrow> runtime_object \<Rightarrow> unit res" where
  "ED_ValidateCreate vpt (EDObject ed) = ValidateCreate vpt ed"
| "ED_ValidateCreate vpt obj = Err (Msg (''expected a ExtendedDeployment object but got '' @ type_of obj))"

text \<open>The old object of the wrong type is reported with the type of the new one, as in the code.\<close>

fun ED_ValidateUpdate :: "runtime_object \<Rightarrow> runtime_object \<Rightarrow> unit res" where
  "ED_ValidateUpdate (EDObject old) (EDObject new) = ValidateUpdate old new"
| "ED_ValidateUpdate oldObj newObj =
     Err (Msg (''expected a ExtendedDeployment object for the newObj but got '' @ type_of newObj))"

fun ED_ValidateDelete :: "runtime_object \<Rightarrow> unit res" where
  "ED_ValidateDelete (EDObject ed) = Ok ()"
| "ED_ValidateDelete obj = Err (Msg (''expected a ExtendedDeployment object but got '' @ type_of obj))"

fun IPS_Default :: "runtime_object \<Rightarrow> runtime_object res" where
  "IPS_Default (IPSObject ips) = Ok (IPSObject ips)"
| "IPS_Default obj = Err (Msg (''expected an InplaceSet object but got '' @ type_of obj))"

fun IPS_ValidateCreate :: "(pod_template \<Rightarrow> err list) \<Rightarrow> runtime_object \<Rightarrow> unit res" where
  "IPS_ValidateCreate vpt (IPSObject ips) = ValidateCreateIPS vpt ips"
| "IPS_ValidateCreate vpt obj = Err (Msg (''expected a InplaceSet object but got '' @ type_of obj))"

text \<open>An update of an InplaceSet is looked at only for its type.\<close>

fun IPS_ValidateUpdate :: "runtime_object \<Rightarrow> runtime_object \<Rightarrow> unit res" where
  "IPS_ValidateUpdate oldObj (IPSObject ips) = Ok ()"
| "IPS_ValidateUpdate oldObj newObj =
     Err (Msg (''expected a InplaceSet object for the newObj but got '' @ type_of newObj))"

fun IPS_ValidateDelete :: "runtime_object \<Rightarrow> unit res" where
  "IPS_ValidateDelete (IPSObject ips) = Ok ()"
| "IPS_ValidateDelete obj = Err (Msg (''expected a InplaceSet object but got '' @ type_of obj))"

fun_cases ED_ValidateCreate_OkE: "ED_ValidateCreate vpt obj = Ok ()"
fun_cases ED_ValidateUpdate_OkE: "ED_ValidateUpdate old new = Ok ()"
fun_cases ED_Default_OkE: "ED_Default obj = Ok obj'"

section \<open>Histories of a stored object\<close>

text \<open>
  The stored states of one ExtendedDeployment: it is created once, then its specification is
  updated, each time through the defaulter and the validator. A write of the status does not pass
  the webhook and leaves the specification.
\<close>

inductive stored :: "(pod_template \<Rightarrow> err list) \<Rightarrow> extended_deployment \<Rightarrow> extended_deployment \<Rightarrow> bool"
  for vpt :: "pod_template \<Rightarrow> err list" where
  created: "ED_Default obj = Ok obj' \<Longrightarrow> ED_ValidateCreate vpt obj' = Ok () \<Longrightarrow> obj' = EDObject d \<Longrightarrow>
    stored vpt d d"
| updated: "stored vpt d0 d \<Longrightarrow> ED_Default obj = Ok obj' \<Longrightarrow>
    ED_ValidateUpdate (EDObject d) obj' = Ok () \<Longrightarrow> obj' = EDObject d' \<Longrightarrow> stored vpt d0 d'"
| status_written: "stored vpt d0 d \<Longrightarrow> stored vpt d0 (d\<lparr>Status := st\<rparr>)"

lemma ValidateCreate_Ok:
  "ValidateCreate vpt d = Ok () \<longleftrightarrow> validateForExtendedDeployment vpt d = [] \<and> compareReplicas d = Ok []"
  by (auto simp: ValidateCreate_def Let_def split: if_splits res.splits)

lemma ValidateUpdate_Ok:
  "ValidateUpdate old new = Ok () \<longleftrightarrow> compareReplicas new = Ok [] \<and>
     Selector (Spec new) = Selector (Spec old) \<and> SubsetType (Spec new) = SubsetType (Spec old)"
  by (auto simp: ValidateUpdate_def compareForExtendedDeployment_def compareLabelSelector_def
      compareSubSetType_def split: res.splits)

lemma compareReplicas_spec: "Spec d' = Spec d \<Longrightarrow> compareReplicas d' = compareReplicas d"
  by (simp only: compareReplicas_def)

text \<open>The replicas of the regions are written in one way: percentages that add up, or integers.\<close>

definition well_shared :: "extended_deployment \<Rightarrow> bool" where
  "well_shared d = (case Replicas (Spec d) of
     Some n \<Rightarrow> (if n > 0 then
         (if list_ex is_int_region (Regions (Spec d))
          then \<not> list_ex is_str_region (Regions (Spec d))
          else sumPercent (Regions (Spec d)) 0 = Inr 100)
       else \<not> list_ex is_str_region (Regions (Spec d)))
   | None \<Rightarrow> \<not> list_ex is_str_region (Regions (Spec d)))"

lemma find_None_list_ex: "find P xs = None \<longleftrightarrow> \<not> list_ex P xs"
  by (auto simp: find_None_iff list_ex_iff)

lemma consistent_no_str:
  assumes "isRegionReplicasTypeConsistent rs = Ok True" and "list_ex is_int_region rs"
  shows "\<not> list_ex is_str_region rs"
  using assms
  by (auto simp: isRegionReplicasTypeConsistent_def list_all_iff list_ex_iff is_int_region_def
      is_str_region_def is_IntVal_def split: list.splits option.splits int_or_string.splits)

lemma compareReplicas_well_shared:
  assumes "compareReplicas d = Ok []"
  shows "well_shared d"
proof (cases "\<exists>n. Replicas (Spec d) = Some n \<and> n > 0")
  case True
  then obtain n where n: "Replicas (Spec d) = Some n" "n > 0" by blast
  show ?thesis
  proof (cases "find is_int_region (Regions (Spec d))")
    case None
    with assms n show ?thesis
      by (auto simp: compareReplicas_def well_shared_def find_None_list_ex split: sum.splits if_splits)
  next
    case (Some r)
    with assms n have "isRegionReplicasTypeConsistent (Regions (Spec d)) = Ok True"
      by (auto simp: compareReplicas_def split: res.splits bool.splits)
    moreover have "list_ex is_int_region (Regions (Spec d))"
      using Some find_None_list_ex [of is_int_region "Regions (Spec d)"] by auto
    ultimately show ?thesis using n consistent_no_str by (auto simp: well_shared_def)
  qed
next
  case False
  with assms show ?thesis
    by (auto simp: compareReplicas_def well_shared_def find_None_list_ex split: option.splits)
qed

lemma stored_compareReplicas: "stored vpt d0 d \<Longrightarrow> compareReplicas d = Ok []"
proof (induction rule: stored.induct)
  case (created obj obj' d)
  then show ?case by (auto simp: ValidateCreate_Ok elim!: ED_Default_OkE)
next
  case (updated d0 d obj obj' d')
  then show ?case by (auto simp: ValidateUpdate_Ok)
next
  case (status_written d0 d st)
  then show ?case using compareReplicas_spec [of "d\<lparr>Status := st\<rparr>" d] by simp
qed

text \<open>
  C33: over the whole history of an ExtendedDeployment the selector and the kind of its workloads
  stay those of its creation, and the replicas of its regions stay written in one way: percentages
  between 0 and 100 that add up to 100, or integers only.
\<close>

theorem stored_stays_valid:
  assumes "stored vpt d0 d"
  shows "Selector (Spec d) = Selector (Spec d0) \<and> SubsetType (Spec d) = SubsetType (Spec d0) \<and> well_shared d"
proof -
  have "Selector (Spec d) = Selector (Spec d0) \<and> SubsetType (Spec d) = SubsetType (Spec d0)"
    using assms by (induction rule: stored.induct) (auto simp: ValidateUpdate_Ok)
  with compareReplicas_well_shared [OF stored_compareReplicas [OF assms]] show ?thesis by blast
qed

text \<open>A creation, a write of the status and an update that scales the deployment up.\<close>

definition three_halves :: extended_deployment where
  "three_halves = two_halves\<lparr>Spec := (Spec two_halves)\<lparr>Replicas := Some 3\<rparr>\<rparr>"

lemma two_halves_created: "stored (\<lambda>_. []) two_halves two_halves"
  using two_halves_admitted
  by (intro stored.created [where obj = "EDObject two_halves"])
    (auto simp: ValidateCreate_Ok validateForExtendedDeployment_def validatePodTemplate_def two_halves_def zero_values)

theorem stored_stays_valid_witness:
  "stored (\<lambda>_. []) two_halves three_halves \<and> well_shared three_halves"
proof -
  have "compareReplicas three_halves = compareReplicas two_halves"
    by (simp add: compareReplicas_def three_halves_def two_halves_def zero_values)
  then have "stored (\<lambda>_. []) two_halves three_halves"
    using two_halves_admitted
    by (intro stored.updated [OF stored.status_written [OF two_halves_created], where obj = "EDObject three_halves"])
      (auto simp: ValidateUpdate_Ok three_halves_def)
  with stored_stays_valid [OF this] show ?thesis by blast
qed

section \<open>What the webhook lets through\<close>

text \<open>An update may set a pod template that a creation with it refuses: the template is not checked.\<close>

definition never_restarted :: extended_deployment where
  "never_restarted = two_halves\<lparr>Spec := (Spec two_halves)\<lparr>Template :=
     zero_template\<lparr>TemplateSpec := zero_pod_spec\<lparr>RestartPolicy := ''Never''\<rparr>\<rparr>\<rparr>\<rparr>"

theorem update_skips_template_check:
  "stored (\<lambda>_. []) two_halves never_restarted \<and>
   (\<exists>e. ED_ValidateCreate (\<lambda>_. []) (EDObject never_restarted) = Err e)"
proof -
  have "compareReplicas never_restarted = compareReplicas two_halves"
    by (simp add: compareReplicas_def never_restarted_def two_halves_def zero_values)
  then have "stored (\<lambda>_. []) two_halves never_restarted"
    using two_halves_admitted
    by (intro stored.updated [OF two_halves_created, where obj = "EDObject never_restarted"])
      (auto simp: ValidateUpdate_Ok never_restarted_def)
  moreover have "\<exists>e. ED_ValidateCreate (\<lambda>_. []) (EDObject never_restarted) = Err e"
    by (simp add: ValidateCreate_def validateForExtendedDeployment_def validatePodTemplate_def
        never_restarted_def)
  ultimately show ?thesis by blast
qed

end
