(* ===== verification/InformerKeys.thy ===== *)
theory InformerKeys
  imports GoLib
begin

text \<open>
  \<open>pkg/utils/informermanager\<close>, the parts without state: the keys of objects
  (\<open>keys/keys.go\<close>) and the event handlers (\<open>handlers.go\<close>). Shown: the printed form of a
  key identifies the object, an all-events handler calls its function once per change, and a
  filtering handler keeps its nested handler informed of exactly the objects that pass the filter.
\<close>

section \<open>Keys\<close>

record ClusterWideKey =
  KGroup :: string
  KVersion :: string
  KKind :: string
  KNamespace :: string
  KName :: string

record FederatedKey = ClusterWideKey +
  KCluster :: string

record GroupVersionKind =
  GVKGroup :: string
  GVKVersion :: string
  GVKKind :: string

text \<open>\<open>schema.GroupVersion\<close> and its \<open>String\<close>.\<close>

definition GroupVersion :: "'a ClusterWideKey_scheme \<Rightarrow> string \<times> string" where
  "GroupVersion k = (KGroup k, KVersion k)"

definition GroupVersion_String :: "string \<times> string \<Rightarrow> string" where
  "GroupVersion_String = (\<lambda>(grp, version). if grp \<noteq> [] then grp @ ''/'' @ version else version)"

definition GroupVersionKind_of :: "'a ClusterWideKey_scheme \<Rightarrow> GroupVersionKind" where
  "GroupVersionKind_of k = \<lparr>GVKGroup = KGroup k, GVKVersion = KVersion k, GVKKind = KKind k\<rparr>"

definition NamespaceKey :: "'a ClusterWideKey_scheme \<Rightarrow> string" where
  "NamespaceKey k = (if KNamespace k \<noteq> [] then KNamespace k @ ''/'' @ KName k else KName k)"

definition ClusterWideKey_String :: "'a ClusterWideKey_scheme \<Rightarrow> string" where
  "ClusterWideKey_String k =
     GroupVersion_String (GroupVersion k) @ '', kind='' @ KKind k @ '', '' @ NamespaceKey k"

definition FederatedKey_String :: "FederatedKey \<Rightarrow> string" where
  "FederatedKey_String f = ''cluster='' @ KCluster f @ '', '' @
     GroupVersion_String (GroupVersion f) @ '', kind='' @ KKind f @ '', '' @ NamespaceKey f"

text \<open>
  What a key function is given: any Go value, a runtime object without metadata, or an object with
  its kind, namespace and name.
\<close>

datatype any_object = NotRuntimeObject | NoMeta GroupVersionKind
  | MetaObject GroupVersionKind (obj_namespace: string) (obj_name: string)

definition zero_key :: ClusterWideKey where
  "zero_key = \<lparr>KGroup = [], KVersion = [], KKind = [], KNamespace = [], KName = []\<rparr>"

text \<open>A key and an error: with an error the key is empty.\<close>

fun ClusterWideKeyFunc :: "any_object \<Rightarrow> ClusterWideKey \<times> err option" where
  "ClusterWideKeyFunc NotRuntimeObject = (zero_key, Some (Msg ''not runtime object''))"
| "ClusterWideKeyFunc (NoMeta gvk) = (zero_key, Some (Msg ''object has no meta''))"
| "ClusterWideKeyFunc (MetaObject gvk ns n) = (\<lparr>KGroup = GVKGroup gvk, KVersion = GVKVersion gvk,
     KKind = GVKKind gvk, KNamespace = ns, KName = n\<rparr>, None)"

definition zero_federated :: FederatedKey where
  "zero_federated = ClusterWideKey.extend zero_key (FederatedKey.fields [])"

definition FederatedKeyFunc :: "string \<Rightarrow> any_object \<Rightarrow> FederatedKey \<times> err option" where
  "FederatedKeyFunc cluster obj =
     (if cluster = [] then (zero_federated, Some (Msg ''empty cluster name is not allowed''))
      else case ClusterWideKeyFunc obj of
        (_, Some e) \<Rightarrow> (zero_federated, Some e)
      | (cwk, None) \<Rightarrow> (ClusterWideKey.extend cwk (FederatedKey.fields cluster), None))"

section \<open>The printed form identifies the object\<close>

text \<open>What the API server guarantees of names: no comma in any part, no slash but between them.\<close>

definition plain :: "string \<Rightarrow> bool" where
  "plain s \<longleftrightarrow> CHR '','' \<notin> set s \<and> CHR ''/'' \<notin> set s"

definition plain_key :: "'a ClusterWideKey_scheme \<Rightarrow> bool" where
  "plain_key k \<longleftrightarrow> plain (KGroup k) \<and> plain (KVersion k) \<and> plain (KKind k) \<and> plain (KNamespace k) \<and> plain (KName k)"

lemma separator_inject:
  assumes "u @ c # x = u' @ c # x'" and "c \<notin> set u" and "c \<notin> set u'"
  shows "u = u' \<and> x = x'"
  using assms
proof (induction u arbitrary: u')
  case Nil
  then show ?case by (cases u') auto
next
  case (Cons a u)
  then show ?case by (cases u') auto
qed

text \<open>An optional prefix before a slash can be told apart.\<close>

lemma slash_inject:
  assumes "(if p \<noteq> [] then p @ ''/'' @ s else s) = (if q \<noteq> [] then q @ ''/'' @ t else t)"
    and "CHR ''/'' \<notin> set p" "CHR ''/'' \<notin> set s" "CHR ''/'' \<notin> set q" "CHR ''/'' \<notin> set t"
  shows "p = q \<and> s = t"
proof (cases "p = []"; cases "q = []")
  assume "p \<noteq> []" "q \<noteq> []"
  with assms separator_inject [of p "CHR ''/''" s q t] show ?thesis by simp
next
  assume *: "p = []" "q \<noteq> []"
  with assms(1) have "CHR ''/'' \<in> set s" by simp
  with assms(3) show ?thesis by simp
next
  assume *: "p \<noteq> []" "q = []"
  with assms(1) have "CHR ''/'' \<in> set t" by (metis Un_iff append.assoc list.set_intros(1) set_append append_Cons)
  with assms(5) show ?thesis by simp
qed (use assms in auto)

lemma ClusterWideKey_String_parts:
  assumes "ClusterWideKey_String k = ClusterWideKey_String k'" and "plain_key k" and "plain_key k'"
  shows "KGroup k = KGroup k' \<and> KVersion k = KVersion k' \<and> KKind k = KKind k' \<and>
    KNamespace k = KNamespace k' \<and> KName k = KName k'"
proof -
  have comma: "CHR '','' \<notin> set (GroupVersion_String (GroupVersion k))" "CHR '','' \<notin> set (GroupVersion_String (GroupVersion k'))"
    using assms(2,3) by (auto simp: GroupVersion_String_def GroupVersion_def plain_key_def plain_def)
  from assms(1) have
    "GroupVersion_String (GroupVersion k) @ CHR '','' # ('' kind='' @ KKind k @ '', '' @ NamespaceKey k) =
     GroupVersion_String (GroupVersion k') @ CHR '','' # ('' kind='' @ KKind k' @ '', '' @ NamespaceKey k')"
    by (simp add: ClusterWideKey_String_def)
  from separator_inject [OF this comma] have gv: "GroupVersion_String (GroupVersion k) = GroupVersion_String (GroupVersion k')"
    and rest: "KKind k @ CHR '','' # ('' '' @ NamespaceKey k) = KKind k' @ CHR '','' # ('' '' @ NamespaceKey k')"
    by auto
  have "KKind k = KKind k' \<and> '' '' @ NamespaceKey k = '' '' @ NamespaceKey k'"
    by (rule separator_inject [OF rest]) (use assms(2,3) in \<open>auto simp: plain_key_def plain_def\<close>)
  moreover have "KGroup k = KGroup k' \<and> KVersion k = KVersion k'"
    using gv assms(2,3) unfolding GroupVersion_String_def GroupVersion_def split
    by (intro slash_inject) (auto simp: plain_key_def plain_def)
  moreover have "KNamespace k = KNamespace k' \<and> KName k = KName k'"
    if "NamespaceKey k = NamespaceKey k'"
    using that assms(2,3) unfolding NamespaceKey_def by (intro slash_inject) (auto simp: plain_key_def plain_def)
  ultimately show ?thesis by auto
qed

text \<open>
  A key is a unique identifier. Two objects whose parts are names the API server accepts have
  the same printed key, with and without the cluster, only if they agree in cluster, group, version,
  kind, namespace and name.
\<close>

theorem keys_identify_objects:
  assumes "FederatedKeyFunc c (MetaObject gvk ns n) = (f, None)" and "FederatedKeyFunc c' (MetaObject gvk' ns' n') = (f', None)"
    and "plain_key f" and "plain_key f'" and "CHR '','' \<notin> set c" and "CHR '','' \<notin> set c'"
    and "FederatedKey_String f = FederatedKey_String f'"
  shows "c = c' \<and> MetaObject gvk ns n = MetaObject gvk' ns' n' \<and> f = f'"
proof -
  have f: "KCluster f = c" "KGroup f = GVKGroup gvk" "KVersion f = GVKVersion gvk" "KKind f = GVKKind gvk"
      "KNamespace f = ns" "KName f = n" "KCluster f' = c'" "KGroup f' = GVKGroup gvk'" "KVersion f' = GVKVersion gvk'"
      "KKind f' = GVKKind gvk'" "KNamespace f' = ns'" "KName f' = n'"
    using assms(1,2) by (auto simp: FederatedKeyFunc_def ClusterWideKey.defs FederatedKey.defs split: if_splits)
  have "c @ CHR '','' # ('' '' @ ClusterWideKey_String f) = c' @ CHR '','' # ('' '' @ ClusterWideKey_String f')"
    using assms(7) by (simp add: FederatedKey_String_def ClusterWideKey_String_def f)
  from separator_inject [OF this assms(5,6)] have "c = c'" "ClusterWideKey_String f = ClusterWideKey_String f'" by auto
  with ClusterWideKey_String_parts [OF _ assms(3,4)] f show ?thesis by simp
qed

theorem keys_identify_objects_witness:
  "FederatedKey_String (fst (FederatedKeyFunc ''c'' (MetaObject \<lparr>GVKGroup = ''apps'', GVKVersion = ''v1'', GVKKind = ''D''\<rparr> ''ns'' ''a''))) \<noteq>
   FederatedKey_String (fst (FederatedKeyFunc ''c'' (MetaObject \<lparr>GVKGroup = ''apps'', GVKVersion = ''v1'', GVKKind = ''D''\<rparr> '''' ''a'')))"
proof
  let ?gvk = "\<lparr>GVKGroup = ''apps'', GVKVersion = ''v1'', GVKKind = ''D''\<rparr>"
  let ?f = "fst (FederatedKeyFunc ''c'' (MetaObject ?gvk ''ns'' ''a''))" and ?g = "fst (FederatedKeyFunc ''c'' (MetaObject ?gvk '''' ''a''))"
  assume "FederatedKey_String ?f = FederatedKey_String ?g"
  then have "MetaObject ?gvk ''ns'' ''a'' = MetaObject ?gvk '''' ''a''"
    using keys_identify_objects [of "''c''" ?gvk "''ns''" "''a''" ?f "''c''" ?gvk "''''" "''a''" ?g]
    by (simp add: FederatedKeyFunc_def ClusterWideKey.defs FederatedKey.defs plain_key_def plain_def)
  then show False by simp
qed

section \<open>Event handlers\<close>

text \<open>
  What an informer hands to a handler: an object, the tombstone of an object whose deletion was
  missed (\<open>DeletedFinalStateUnknown\<close>, its object may be nil), or a value that is no runtime
  object. A handler acts on a state of its own.
\<close>

datatype 'o notice = Object 'o | Tombstone "'o notice option" | Foreign

record ('o, 's) event_handler =
  OnAdd :: "'o notice \<Rightarrow> 's \<Rightarrow> 's res"
  OnUpdate :: "'o notice \<Rightarrow> 'o notice \<Rightarrow> 's \<Rightarrow> 's res"
  OnDelete :: "'o notice \<Rightarrow> 's \<Rightarrow> 's res"

text \<open>The type assertion \<open>obj.(runtime.Object)\<close>, which panics.\<close>

definition as_object :: "'o notice \<Rightarrow> ('o \<Rightarrow> 's \<Rightarrow> 's res) \<Rightarrow> 's \<Rightarrow> 's res" where
  "as_object x f s = (case x of Object obj \<Rightarrow> f obj s | _ \<Rightarrow> Panic (Msg ''interface conversion''))"

definition NewHandlerOnAllEvents :: "('o \<Rightarrow> 's \<Rightarrow> 's res) \<Rightarrow> ('o, 's) event_handler" where
  "NewHandlerOnAllEvents fn = \<lparr>
     OnAdd = (\<lambda>cur. as_object cur fn),
     OnUpdate = (\<lambda>old cur. as_object cur (\<lambda>curObj s. if old \<noteq> cur then fn curObj s else Ok s)),
     OnDelete = (\<lambda>old s. (case old of
        Tombstone None \<Rightarrow> Ok s
      | Tombstone (Some obj) \<Rightarrow> as_object obj fn s
      | _ \<Rightarrow> as_object old fn s))\<rparr>"

text \<open>\<open>ResourceEventHandlerFuncs\<close>: a nil function is not called.\<close>

definition NewHandlerOnEvents :: "('o notice \<Rightarrow> 's \<Rightarrow> 's res) option \<Rightarrow>
    ('o notice \<Rightarrow> 'o notice \<Rightarrow> 's \<Rightarrow> 's res) option \<Rightarrow> ('o notice \<Rightarrow> 's \<Rightarrow> 's res) option \<Rightarrow>
    ('o, 's) event_handler" where
  "NewHandlerOnEvents addFunc updateFunc deleteFunc = \<lparr>
     OnAdd = (case addFunc of None \<Rightarrow> \<lambda>_. Ok | Some f \<Rightarrow> f),
     OnUpdate = (case updateFunc of None \<Rightarrow> \<lambda>_ _. Ok | Some f \<Rightarrow> f),
     OnDelete = (case deleteFunc of None \<Rightarrow> \<lambda>_. Ok | Some f \<Rightarrow> f)\<rparr>"

text \<open>\<open>FilteringResourceEventHandler\<close> around a handler.\<close>

definition NewFilteringHandlerOnAllEvents :: "('o notice \<Rightarrow> bool) \<Rightarrow> ('o notice \<Rightarrow> 's \<Rightarrow> 's res) option \<Rightarrow>
    ('o notice \<Rightarrow> 'o notice \<Rightarrow> 's \<Rightarrow> 's res) option \<Rightarrow> ('o notice \<Rightarrow> 's \<Rightarrow> 's res) option \<Rightarrow>
    ('o, 's) event_handler" where
  "NewFilteringHandlerOnAllEvents filterFunc addFunc updateFunc deleteFunc =
     (let handler = NewHandlerOnEvents addFunc updateFunc deleteFunc in \<lparr>
     OnAdd = (\<lambda>obj s. if \<not> filterFunc obj then Ok s else OnAdd handler obj s),
     OnUpdate = (\<lambda>oldObj newObj s.
       if filterFunc newObj \<and> filterFunc oldObj then OnUpdate handler oldObj newObj s
       else if filterFunc newObj then OnAdd handler newObj s
       else if filterFunc oldObj then OnDelete handler oldObj s
       else Ok s),
     OnDelete = (\<lambda>obj s. if \<not> filterFunc obj then Ok s else OnDelete handler obj s)\<rparr>)"

section \<open>Events of a store\<close>

datatype 'o event = Added 'o | Updated 'o 'o | Deleted 'o

fun deliver :: "('o, 's) event_handler \<Rightarrow> 'o event \<Rightarrow> 's \<Rightarrow> 's res" where
  "deliver H (Added x) s = OnAdd H (Object x) s"
| "deliver H (Updated old x) s = OnUpdate H (Object old) (Object x) s"
| "deliver H (Deleted x) s = OnDelete H (Object x) s"

fun deliver_all :: "('o, 's) event_handler \<Rightarrow> 'o event list \<Rightarrow> 's \<Rightarrow> 's res" where
  "deliver_all H [] s = Ok s"
| "deliver_all H (e # es) s = (case deliver H e s of Ok t \<Rightarrow> deliver_all H es t | r \<Rightarrow> r)"

text \<open>The store an informer keeps, and the events that are possible in it.\<close>

fun apply_event :: "('o \<Rightarrow> 'k) \<Rightarrow> 'o event \<Rightarrow> ('k \<rightharpoonup> 'o) \<Rightarrow> ('k \<rightharpoonup> 'o)" where
  "apply_event key (Added x) st = st(key x \<mapsto> x)"
| "apply_event key (Updated old x) st = st(key x \<mapsto> x)"
| "apply_event key (Deleted x) st = st(key x := None)"

fun possible :: "('o \<Rightarrow> 'k) \<Rightarrow> 'o event list \<Rightarrow> ('k \<rightharpoonup> 'o) \<Rightarrow> bool" where
  "possible key [] st = True"
| "possible key (e # es) st = ((case e of
       Added x \<Rightarrow> st (key x) = None
     | Updated old x \<Rightarrow> st (key old) = Some old \<and> key x = key old
     | Deleted x \<Rightarrow> st (key x) = Some x) \<and> possible key es (apply_event key e st))"

text \<open>A client that mirrors what it is told.\<close>

definition mirror :: "('o \<Rightarrow> 'k) \<Rightarrow> ('o notice \<Rightarrow> bool) \<Rightarrow> ('o, 'k \<rightharpoonup> 'o) event_handler" where
  "mirror key f = NewFilteringHandlerOnAllEvents f
     (Some (\<lambda>x. as_object x (\<lambda>x st. Ok (st(key x \<mapsto> x)))))
     (Some (\<lambda>_ x. as_object x (\<lambda>x st. Ok (st(key x \<mapsto> x)))))
     (Some (\<lambda>x. as_object x (\<lambda>x st. Ok (st(key x := None)))))"

definition passing :: "('o notice \<Rightarrow> bool) \<Rightarrow> ('k \<rightharpoonup> 'o) \<Rightarrow> ('k \<rightharpoonup> 'o)" where
  "passing f st k = (case st k of Some x \<Rightarrow> if f (Object x) then Some x else None | None \<Rightarrow> None)"

lemma passing_upd:
  "passing f (st(k \<mapsto> x)) = (if f (Object x) then (passing f st)(k \<mapsto> x) else (passing f st)(k := None))"
  "passing f (st(k := None)) = (passing f st)(k := None)"
  by (auto simp: passing_def fun_eq_iff)

lemma passing_None: "passing f st k = None \<Longrightarrow> (passing f st)(k := None) = passing f st"
  by (simp add: fun_upd_idem)

lemma deliver_mirror:
  assumes "possible key (e # es) st"
  shows "deliver (mirror key f) e (passing f st) = Ok (passing f (apply_event key e st))"
  using assms
  by (cases e)
    (auto simp: mirror_def NewFilteringHandlerOnAllEvents_def NewHandlerOnEvents_def as_object_def Let_def
      passing_upd passing_None [of f st "key _"] passing_def fun_upd_idem_iff)



text \<open>
  The handler for all events calls its function once for an addition or a deletion, and for an
  update only when the object has changed; a tombstone is delivered as the object it carries.
\<close>

fun changed_objects :: "'o event list \<Rightarrow> 'o list" where
  "changed_objects [] = []"
| "changed_objects (Added x # es) = x # changed_objects es"
| "changed_objects (Updated old x # es) = (if old \<noteq> x then [x] else []) @ changed_objects es"
| "changed_objects (Deleted x # es) = x # changed_objects es"

lemma all_events_calls:
  "deliver_all (NewHandlerOnAllEvents (\<lambda>x s. Ok (s @ [x]))) es s = Ok (s @ changed_objects es)"
  by (induction es arbitrary: s rule: changed_objects.induct)
    (auto simp: NewHandlerOnAllEvents_def as_object_def)

lemma tombstone_carries_object:
  "OnDelete (NewHandlerOnAllEvents fn) (Tombstone (Some (Object x))) s = OnDelete (NewHandlerOnAllEvents fn) (Object x) s"
  "OnDelete (NewHandlerOnAllEvents fn) (Tombstone None) s = Ok s"
  by (simp_all add: NewHandlerOnAllEvents_def as_object_def)

end
