(* ===== verification/InformerManager.thy ===== *)
theory InformerManager
  imports GoLib
begin

text \<open>
  \<open>pkg/utils/informermanager/single-cluster-manager.go\<close> and \<open>pkg/utils/context.go\<close>: the
  registry of informers and their event handlers. The dynamic informer factory of client-go is part
  of the state: its informers with the handlers added to them, and the informers it has started.
  Two views are given: operations that run one after the other, and calls of \<open>ForResource\<close> that
  are interleaved at their locks.
\<close>

section \<open>The state\<close>

text \<open>\<open>schema.GroupVersionResource\<close>.\<close>

datatype gvr = GVR (GVRGroup: string) (GVRVersion: string) (GVRResource: string)

record 'h manager =
  MParent :: bool                           \<comment> \<open>the parent channel is closed\<close>
  MDone :: bool                             \<comment> \<open>the context of the manager is done\<close>
  MInformers :: "(gvr \<times> 'h list) list"      \<comment> \<open>informers of the factory, with their handlers\<close>
  MStarted :: "gvr list"                    \<comment> \<open>informers the factory has started\<close>
  MSynced :: "gvr list"                     \<comment> \<open>\<open>syncedInformers\<close>\<close>
  MHandlers :: "(gvr \<times> 'h list) list"       \<comment> \<open>\<open>handlers\<close>\<close>

definition at_key :: "(gvr \<times> 'h list) list \<Rightarrow> gvr \<Rightarrow> 'h list" where
  "at_key m r = (case map_of m r of None \<Rightarrow> [] | Some hs \<Rightarrow> hs)"

definition NewSingleClusterInformerManager :: "bool \<Rightarrow> 'h manager" where
  "NewSingleClusterInformerManager parentClosed = \<lparr>MParent = parentClosed, MDone = False,
     MInformers = [], MStarted = [], MSynced = [], MHandlers = []\<rparr>"

text \<open>The goroutine of \<open>ContextForChannel\<close>: the context is cancelled once the parent channel is closed.\<close>

definition ContextForChannel :: "'h manager \<Rightarrow> 'h manager" where
  "ContextForChannel s = (if MParent s \<and> \<not> MDone s then s\<lparr>MDone := True\<rparr> else s)"

section \<open>The operations\<close>

text \<open>\<open>ForResource\<close> of the factory: the informer of a resource, made when it is missing.\<close>

definition factoryForResource :: "gvr \<Rightarrow> 'h manager \<Rightarrow> 'h manager" where
  "factoryForResource resource s = (case map_of (MInformers s) resource of
     Some _ \<Rightarrow> s
   | None \<Rightarrow> s\<lparr>MInformers := AList.update resource [] (MInformers s)\<rparr>)"

definition IsHandlerExist :: "'h manager \<Rightarrow> gvr \<Rightarrow> 'h \<Rightarrow> bool" where
  "IsHandlerExist s resource handler = (case map_of (MHandlers s) resource of
     None \<Rightarrow> False
   | Some handlers \<Rightarrow> list_ex (\<lambda>h. h = handler) handlers)"

definition appendHandler :: "gvr \<Rightarrow> 'h \<Rightarrow> 'h manager \<Rightarrow> 'h manager" where
  "appendHandler resource handler s =
     s\<lparr>MHandlers := AList.update resource (at_key (MHandlers s) resource @ [handler]) (MHandlers s)\<rparr>"

text \<open>\<open>AddEventHandler\<close> of the informer, which refuses a handler once the informer has stopped.\<close>

definition addEventHandler :: "bool \<Rightarrow> gvr \<Rightarrow> 'h \<Rightarrow> 'h manager \<Rightarrow> 'h manager" where
  "addEventHandler refused resource handler s =
     (let s = factoryForResource resource s
      in if refused then s
         else s\<lparr>MInformers := AList.update resource (at_key (MInformers s) resource @ [handler]) (MInformers s)\<rparr>)"

definition ForResource :: "bool \<Rightarrow> gvr \<Rightarrow> 'h \<Rightarrow> 'h manager \<Rightarrow> 'h manager" where
  "ForResource refused resource handler s =
     (if IsHandlerExist s resource handler then s
      else appendHandler resource handler (addEventHandler refused resource handler s))"

definition IsInformerSynced :: "'h manager \<Rightarrow> gvr \<Rightarrow> bool" where
  "IsInformerSynced s resource \<longleftrightarrow> resource \<in> set (MSynced s)"

definition Lister :: "gvr \<Rightarrow> 'h manager \<Rightarrow> 'h manager" where
  "Lister resource s = factoryForResource resource s"

definition StartInformers :: "'h manager \<Rightarrow> 'h manager" where
  "StartInformers s = s\<lparr>MStarted := MStarted s @
     filter (\<lambda>r. r \<notin> set (MStarted s)) (map fst (MInformers s))\<rparr>"

definition StopInformers :: "'h manager \<Rightarrow> 'h manager" where
  "StopInformers s = s\<lparr>MDone := True\<rparr>"

text \<open>
  The factory waits for its started informers; \<open>answer\<close> says which of them synchronised before
  the context that is waited on was done.
\<close>

definition waitForCacheSync :: "(gvr \<Rightarrow> bool) \<Rightarrow> 'h manager \<Rightarrow> (gvr \<times> bool) list \<times> 'h manager" where
  "waitForCacheSync answer s =
     (let res = map (\<lambda>r. (r, answer r)) (filter (\<lambda>r. r \<in> set (MStarted s)) (map fst (MInformers s)))
      in (res, s\<lparr>MSynced := fold (\<lambda>(resource, synced) m.
           if resource \<notin> set m \<and> synced then m @ [resource] else m) res (MSynced s)\<rparr>))"

text \<open>The two waits differ in the context: with a timeout an informer may be given up earlier.\<close>

definition WaitForCacheSync :: "(int option \<Rightarrow> gvr \<Rightarrow> bool) \<Rightarrow> 'h manager \<Rightarrow> (gvr \<times> bool) list \<times> 'h manager" where
  "WaitForCacheSync answer s = waitForCacheSync (answer None) s"

definition WaitForCacheSyncWithTimeout ::
    "(int option \<Rightarrow> gvr \<Rightarrow> bool) \<Rightarrow> int \<Rightarrow> 'h manager \<Rightarrow> (gvr \<times> bool) list \<times> 'h manager" where
  "WaitForCacheSyncWithTimeout answer cacheSyncTimeout s = waitForCacheSync (answer (Some cacheSyncTimeout)) s"

text \<open>
  \<open>StopInstance\<close> on the package's \<open>stopOnce\<close> and the number of times \<open>stopCh\<close> was closed;
  closing a channel twice would panic.
\<close>

definition StopInstance :: "bool \<times> nat \<Rightarrow> bool \<times> nat" where
  "StopInstance = (\<lambda>(once, closed). if once then (once, closed) else (True, Suc closed))"

section \<open>Look-ups\<close>

lemma at_key_update [simp]: "at_key (AList.update r hs m) r' = (if r' = r then hs else at_key m r')"
  by (simp add: at_key_def update_conv')

lemma IsHandlerExist_iff: "IsHandlerExist s r h \<longleftrightarrow> h \<in> set (at_key (MHandlers s) r)"
  by (auto simp: IsHandlerExist_def at_key_def list_ex_iff split: option.split)

lemma factory_lookup [simp]: "at_key (MInformers (factoryForResource r s)) r' = at_key (MInformers s) r'"
  by (auto simp: factoryForResource_def at_key_def update_conv' split: option.split)

lemma factory_frame [simp]: "MHandlers (factoryForResource r s) = MHandlers s"
  "MStarted (factoryForResource r s) = MStarted s" "MSynced (factoryForResource r s) = MSynced s"
  by (auto simp: factoryForResource_def split: option.split)

lemma keys_update: "fst ` set (AList.update r v m) = insert r (fst ` set m)"
  by (induction m) auto

lemma factory_keys: "fst ` set (MInformers (factoryForResource r s)) = insert r (fst ` set (MInformers s))"
  by (auto simp: factoryForResource_def keys_update split: option.split dest!: map_of_SomeD) force

lemma add_lookup [simp]: "at_key (MInformers (addEventHandler b r h s)) r' =
    (if r' = r \<and> \<not> b then at_key (MInformers s) r @ [h] else at_key (MInformers s) r')"
  by (simp add: addEventHandler_def Let_def)

lemma add_frame [simp]: "MHandlers (addEventHandler b r h s) = MHandlers s"
  "MStarted (addEventHandler b r h s) = MStarted s" "MSynced (addEventHandler b r h s) = MSynced s"
  by (simp_all add: addEventHandler_def Let_def)

lemma add_keys: "fst ` set (MInformers (addEventHandler b r h s)) = insert r (fst ` set (MInformers s))"
  by (simp add: addEventHandler_def Let_def keys_update factory_keys)

lemma append_lookup [simp]: "at_key (MHandlers (appendHandler r h s)) r' =
    (if r' = r then at_key (MHandlers s) r @ [h] else at_key (MHandlers s) r')"
  by (simp add: appendHandler_def)

lemma append_frame [simp]: "MInformers (appendHandler r h s) = MInformers s"
  "MStarted (appendHandler r h s) = MStarted s" "MSynced (appendHandler r h s) = MSynced s"
  by (simp_all add: appendHandler_def)

section \<open>One operation after the other\<close>

text \<open>What holds of a manager between its operations.\<close>

definition sound_at :: "'h manager \<Rightarrow> gvr \<Rightarrow> bool" where
  "sound_at s r \<longleftrightarrow> distinct (at_key (MHandlers s) r) \<and> distinct (at_key (MInformers s) r) \<and>
     set (at_key (MInformers s) r) \<subseteq> set (at_key (MHandlers s) r)"

definition sound_manager :: "'h manager \<Rightarrow> bool" where
  "sound_manager s \<longleftrightarrow> (\<forall>r. sound_at s r) \<and>
     set (MStarted s) \<subseteq> fst ` set (MInformers s) \<and> distinct (MSynced s) \<and> set (MSynced s) \<subseteq> set (MStarted s)"

text \<open>
  The contract of the registry, as its interface documents it: a handler is known exactly after it
  was given for the resource, and giving it again changes nothing.
\<close>

locale handler_registry =
  fixes sound :: "'m \<Rightarrow> bool"
    and register :: "'r \<Rightarrow> 'h \<Rightarrow> 'm \<Rightarrow> 'm"
    and known :: "'m \<Rightarrow> 'r \<Rightarrow> 'h \<Rightarrow> bool"
  assumes sound_register: "sound m \<Longrightarrow> sound (register r h m)"
    and known_register: "known (register r h m) r' h' \<longleftrightarrow> (r' = r \<and> h' = h) \<or> known m r' h'"
    and register_known: "known m r h \<Longrightarrow> register r h m = m"
begin

definition register_all :: "('r \<times> 'h) list \<Rightarrow> 'm \<Rightarrow> 'm" where
  "register_all ps m = fold (\<lambda>(r, h). register r h) ps m"

lemma register_all_simps [simp]:
  "register_all [] m = m" "register_all ((r, h) # ps) m = register_all ps (register r h m)"
  by (simp_all add: register_all_def)

lemma sound_register_all: "sound m \<Longrightarrow> sound (register_all ps m)"
proof (induction ps arbitrary: m)
  case (Cons p ps)
  then show ?case by (cases p) (simp add: sound_register)
qed simp

lemma known_register_all: "known (register_all ps m) r h \<longleftrightarrow> (r, h) \<in> set ps \<or> known m r h"
proof (induction ps arbitrary: m)
  case (Cons p ps)
  obtain r' h' where p: "p = (r', h')" by (cases p)
  show ?case unfolding p register_all_simps Cons.IH known_register by auto
qed simp

lemma register_all_known: "\<forall>(r, h) \<in> set ps. known m r h \<Longrightarrow> register_all ps m = m"
proof (induction ps)
  case (Cons p ps)
  then show ?case by (cases p) (simp add: register_known)
qed simp

text \<open>A controller that is set up twice leaves the registry of the first time.\<close>

lemma register_all_twice: "register_all ps (register_all ps m) = register_all ps m"
  by (rule register_all_known) (auto simp: known_register_all)

end

lemma ForResource_sound:
  assumes "sound_manager s"
  shows "sound_manager (ForResource b r h s)"
proof (cases "IsHandlerExist s r h")
  case False
  have s: "sound_at s r'" for r' using assms by (simp add: sound_manager_def)
  have h: "h \<notin> set (at_key (MHandlers s) r)" "h \<notin> set (at_key (MInformers s) r)"
    using s [of r] False by (auto simp: IsHandlerExist_iff sound_at_def)
  have "sound_at (ForResource b r h s) r'" for r'
    using s [of r'] h by (auto simp: ForResource_def False sound_at_def)
  with assms show ?thesis
    by (auto simp: ForResource_def False sound_manager_def add_keys)
qed (simp add: ForResource_def assms)

interpretation fr: handler_registry sound_manager "ForResource b" IsHandlerExist
proof
  show "ForResource b r h m = m" if "IsHandlerExist m r h" for r h m
    using that by (simp add: ForResource_def)
  show "IsHandlerExist (ForResource b r h m) r' h' \<longleftrightarrow> (r' = r \<and> h' = h) \<or> IsHandlerExist m r' h'" for r h m r' h'
    by (auto simp: ForResource_def IsHandlerExist_iff)
qed (rule ForResource_sound)

datatype 'h registry_op = OpForResource bool gvr 'h | OpLister gvr | OpStart | OpStop
  | OpWait "gvr \<Rightarrow> bool" | OpParentClosed | OpGoroutine

fun registry_step :: "'h registry_op \<Rightarrow> 'h manager \<Rightarrow> 'h manager" where
  "registry_step (OpForResource b r h) s = ForResource b r h s"
| "registry_step (OpLister r) s = Lister r s"
| "registry_step OpStart s = StartInformers s"
| "registry_step OpStop s = StopInformers s"
| "registry_step (OpWait f) s = snd (waitForCacheSync f s)"
| "registry_step OpParentClosed s = s\<lparr>MParent := True\<rparr>"
| "registry_step OpGoroutine s = ContextForChannel s"

lemma synced_fold:
  "distinct m \<Longrightarrow> distinct (fold (\<lambda>(r, b) m. if r \<notin> set m \<and> b then m @ [r] else m) res m)"
  "set (fold (\<lambda>(r, b) m. if r \<notin> set m \<and> b then m @ [r] else m) res m) = set m \<union> {r. (r, True) \<in> set res}"
  by (induction res arbitrary: m) (auto split: if_splits)

lemma synced_after_wait: "set (MSynced (snd (waitForCacheSync f s))) =
    set (MSynced s) \<union> {r \<in> set (MStarted s) \<inter> fst ` set (MInformers s). f r}"
  by (auto simp: waitForCacheSync_def Let_def synced_fold)

lemma registry_step_sound: "sound_manager s \<Longrightarrow> sound_manager (registry_step op s)"
proof (cases op)
  case (OpWait f)
  assume s: "sound_manager s"
  have "distinct (MSynced (snd (waitForCacheSync f s)))"
    using s by (simp add: waitForCacheSync_def Let_def synced_fold sound_manager_def)
  moreover have "MHandlers (snd (waitForCacheSync f s)) = MHandlers s"
    "MInformers (snd (waitForCacheSync f s)) = MInformers s" "MStarted (snd (waitForCacheSync f s)) = MStarted s"
    by (simp_all add: waitForCacheSync_def Let_def)
  ultimately show ?thesis
    using s synced_after_wait [of f s] OpWait by (auto simp: sound_manager_def sound_at_def)
next
  case (OpForResource b r h)
  assume "sound_manager s"
  with OpForResource show ?thesis by (simp add: ForResource_sound)
qed (auto simp: sound_manager_def sound_at_def Lister_def factory_keys StartInformers_def
    StopInformers_def ContextForChannel_def)

text \<open>
  The registry of informers after any sequence of its operations. No handler is recorded twice
  for a resource or called twice by an informer, every handler an informer calls is recorded, and a
  resource counts as synchronised only when its informer was made and started. The context is done
  only after it was stopped or the parent channel was closed.
\<close>

theorem registry_stays_sound:
  fixes ops :: "'h registry_op list"
  defines "s \<equiv> fold registry_step ops (NewSingleClusterInformerManager False)"
  shows "distinct (at_key (MHandlers s) r) \<and> distinct (at_key (MInformers s) r) \<and>
    set (at_key (MInformers s) r) \<subseteq> {h. IsHandlerExist s r h} \<and>
    (IsInformerSynced s r \<longrightarrow> r \<in> set (MStarted s) \<and> r \<in> fst ` set (MInformers s)) \<and>
    (MDone s \<longrightarrow> OpStop \<in> set ops \<or> OpParentClosed \<in> set ops)"
proof -
  have "sound_manager (NewSingleClusterInformerManager False :: 'h manager)"
    by (simp add: sound_manager_def sound_at_def NewSingleClusterInformerManager_def at_key_def)
  then have "sound_manager (fold registry_step ops m)" if "m = NewSingleClusterInformerManager False" for m :: "'h manager"
    unfolding that by (induction ops rule: rev_induct) (auto intro: registry_step_sound)
  then have "sound_manager s" by (simp add: s_def)
  moreover have "(MParent s \<longrightarrow> OpParentClosed \<in> set ops) \<and> (MDone s \<longrightarrow> OpStop \<in> set ops \<or> OpParentClosed \<in> set ops)"
    unfolding s_def
  proof (induction ops rule: rev_induct)
    case (snoc op ops)
    then show ?case
      by (cases op)
        (auto simp: ForResource_def addEventHandler_def appendHandler_def Lister_def factoryForResource_def StartInformers_def
          StopInformers_def waitForCacheSync_def ContextForChannel_def Let_def split: if_splits option.splits)
  qed (simp add: NewSingleClusterInformerManager_def)
  ultimately show ?thesis by (auto simp: sound_manager_def sound_at_def IsHandlerExist_iff IsInformerSynced_def)
qed

definition pods_gvr :: gvr where
  "pods_gvr = GVR [] ''v1'' ''pods''"

theorem registry_stays_sound_witness:
  "let s = fold registry_step [OpForResource False pods_gvr (1 :: nat), OpForResource False pods_gvr 1, OpStart, OpWait (\<lambda>_. True)]
       (NewSingleClusterInformerManager False)
   in IsInformerSynced s pods_gvr \<and> pods_gvr \<in> set (MStarted s) \<and> distinct (at_key (MInformers s) pods_gvr) \<and> \<not> MDone s"
proof -
  let ?ops = "[OpForResource False pods_gvr (1 :: nat), OpForResource False pods_gvr 1, OpStart, OpWait (\<lambda>_. True)]"
  let ?s = "fold registry_step ?ops (NewSingleClusterInformerManager False)"
  have "IsInformerSynced ?s pods_gvr"
    by (simp add: IsInformerSynced_def ForResource_def IsHandlerExist_def NewSingleClusterInformerManager_def
        addEventHandler_def factoryForResource_def appendHandler_def StartInformers_def waitForCacheSync_def Let_def)
  with registry_stays_sound [of ?ops pods_gvr] show ?thesis by (simp add: Let_def)
qed

section \<open>A refused handler\<close>

text \<open>
  A handler the informer refuses is recorded all the same: it counts as registered and a later call
  does not try again, although the informer never calls it.
\<close>

theorem refused_handler_is_recorded:
  "let s = ForResource True r h (NewSingleClusterInformerManager False)
   in IsHandlerExist s r h \<and> h \<notin> set (at_key (MInformers s) r) \<and> ForResource False r h s = s"
  by (simp add: Let_def IsHandlerExist_iff ForResource_def NewSingleClusterInformerManager_def at_key_def [of "[]"])

section \<open>Interleaved calls\<close>

text \<open>
  Concurrent calls of \<open>ForResource\<close>: the look-up and the record are each made under the lock of
  the manager, the informer has a lock of its own, and other calls may run in between.
\<close>

datatype phase = Checking | Adding | Appending | Finished

record 'h calls =
  Shared :: "'h manager"
  Threads :: "nat \<rightharpoonup> gvr \<times> 'h \<times> phase"

inductive call_step :: "'h calls \<Rightarrow> 'h calls \<Rightarrow> bool" where
  found: "Threads c i = Some (r, h, Checking) \<Longrightarrow> IsHandlerExist (Shared c) r h \<Longrightarrow>
    call_step c (c\<lparr>Threads := (Threads c)(i \<mapsto> (r, h, Finished))\<rparr>)"
| missing: "Threads c i = Some (r, h, Checking) \<Longrightarrow> \<not> IsHandlerExist (Shared c) r h \<Longrightarrow>
    call_step c (c\<lparr>Threads := (Threads c)(i \<mapsto> (r, h, Adding))\<rparr>)"
| added: "Threads c i = Some (r, h, Adding) \<Longrightarrow>
    call_step c (c\<lparr>Shared := addEventHandler b r h (Shared c), Threads := (Threads c)(i \<mapsto> (r, h, Appending))\<rparr>)"
| appended: "Threads c i = Some (r, h, Appending) \<Longrightarrow>
    call_step c (c\<lparr>Shared := appendHandler r h (Shared c), Threads := (Threads c)(i \<mapsto> (r, h, Finished))\<rparr>)"

text \<open>Calls for different handlers do not disturb each other.\<close>

definition calls_sound :: "'h calls \<Rightarrow> bool" where
  "calls_sound c \<longleftrightarrow>
     (\<forall>i j r h p q. Threads c i = Some (r, h, p) \<longrightarrow> Threads c j = Some (r, h, q) \<longrightarrow> i = j) \<and>
     (\<forall>r. distinct (at_key (MHandlers (Shared c)) r) \<and> distinct (at_key (MInformers (Shared c)) r)) \<and>
     (\<forall>r h. h \<in> set (at_key (MInformers (Shared c)) r) \<longrightarrow>
        h \<in> set (at_key (MHandlers (Shared c)) r) \<or> (\<exists>i. Threads c i = Some (r, h, Appending))) \<and>
     (\<forall>i r h p. Threads c i = Some (r, h, p) \<longrightarrow> p = Adding \<or> p = Appending \<longrightarrow>
        h \<notin> set (at_key (MHandlers (Shared c)) r))"

lemma calls_soundD:
  assumes "calls_sound c"
  shows "Threads c i = Some (r, h, p) \<Longrightarrow> Threads c j = Some (r, h, q) \<Longrightarrow> i = j"
    and "distinct (at_key (MHandlers (Shared c)) r)" and "distinct (at_key (MInformers (Shared c)) r)"
    and "h \<in> set (at_key (MInformers (Shared c)) r) \<Longrightarrow> h \<notin> set (at_key (MHandlers (Shared c)) r) \<Longrightarrow>
      \<exists>i. Threads c i = Some (r, h, Appending)"
    and "Threads c i = Some (r, h, p) \<Longrightarrow> p = Adding \<or> p = Appending \<Longrightarrow> h \<notin> set (at_key (MHandlers (Shared c)) r)"
  using assms unfolding calls_sound_def by blast+

lemma calls_soundI:
  assumes "\<And>i j r h p q. Threads c i = Some (r, h, p) \<Longrightarrow> Threads c j = Some (r, h, q) \<Longrightarrow> i = j"
    and "\<And>r. distinct (at_key (MHandlers (Shared c)) r) \<and> distinct (at_key (MInformers (Shared c)) r)"
    and "\<And>r h. h \<in> set (at_key (MInformers (Shared c)) r) \<Longrightarrow> h \<notin> set (at_key (MHandlers (Shared c)) r) \<Longrightarrow>
      \<exists>i. Threads c i = Some (r, h, Appending)"
    and "\<And>i r h p. Threads c i = Some (r, h, p) \<Longrightarrow> p = Adding \<or> p = Appending \<Longrightarrow> h \<notin> set (at_key (MHandlers (Shared c)) r)"
  shows "calls_sound c"
  unfolding calls_sound_def using assms by blast

text \<open>The call that is appending is not the one that moves.\<close>

lemma appending_kept:
  assumes "\<exists>k. T k = Some (r', h', Appending)" and "T i = Some (r, h, p)" and "p \<noteq> Appending"
  shows "\<exists>k. (T(i \<mapsto> x)) k = Some (r', h', Appending)"
proof -
  obtain k where k: "T k = Some (r', h', Appending)" using assms(1) by blast
  with assms(2,3) have "k \<noteq> i" by auto
  with k have "(T(i \<mapsto> x)) k = Some (r', h', Appending)" by simp
  then show ?thesis by blast
qed

lemma call_step_sound:
  assumes "call_step c c'" and "calls_sound c"
  shows "calls_sound c'"
  using assms(1)
proof (cases rule: call_step.cases)
  case (found i r h)
  note D = calls_soundD [OF assms(2)]
  show ?thesis unfolding found(1)
  proof (rule calls_soundI, goal_cases)
    case (3 r' h')
    then show ?case using appending_kept [where T = "Threads c", OF _ found(2)] D(4) by simp
  qed (use D found(2) in \<open>auto split: if_splits\<close>)
next
  case (missing i r h)
  note D = calls_soundD [OF assms(2)]
  show ?thesis unfolding missing(1)
  proof (rule calls_soundI, goal_cases)
    case (3 r' h')
    then show ?case using appending_kept [where T = "Threads c", OF _ missing(2)] D(4) by simp
  qed (use D missing(2,3) in \<open>auto simp: IsHandlerExist_iff split: if_splits\<close>)
next
  case (added i r h b)
  note D = calls_soundD [OF assms(2)]
  have new: "h \<notin> set (at_key (MHandlers (Shared c)) r)" using D(5) [OF added(2)] by simp
  have new': "h \<notin> set (at_key (MInformers (Shared c)) r)"
  proof
    assume "h \<in> set (at_key (MInformers (Shared c)) r)"
    from D(4) [OF this new] obtain k where k: "Threads c k = Some (r, h, Appending)" by blast
    with D(1) [OF k added(2)] added(2) show False by simp
  qed
  show ?thesis unfolding added(1)
  proof (rule calls_soundI, goal_cases)
    case (3 r' h')
    show ?case
    proof (cases "r' = r \<and> h' = h")
      case False
      with 3 have "\<exists>k. Threads c k = Some (r', h', Appending)" using D(4) by (auto split: if_splits)
      from appending_kept [where T = "Threads c", OF this added(2)] show ?thesis by simp
    qed auto
  qed (use D added(2) new new' in \<open>auto split: if_splits\<close>)
next
  case (appended i r h)
  note D = calls_soundD [OF assms(2)]
  have new: "h \<notin> set (at_key (MHandlers (Shared c)) r)" using D(5) [OF appended(2)] by simp
  show ?thesis unfolding appended(1)
  proof (rule calls_soundI, goal_cases)
    case (3 r' h')
    then obtain k where k: "Threads c k = Some (r', h', Appending)" using D(4) by (fastforce split: if_splits)
    with 3 appended(2) have "k \<noteq> i" by (auto split: if_splits)
    with k show ?case by auto
  next
    case (4 j r' h' p)
    then have j: "j \<noteq> i" "Threads c j = Some (r', h', p)" by (auto split: if_splits)
    with D(1) [OF j(2)] appended(2) have "\<not> (r' = r \<and> h' = h)" by blast
    with D(5) [OF j(2)] 4(2) show ?case by auto
  qed (use D appended(2) new in \<open>auto split: if_splits\<close>)
qed


text \<open>Two calls at once, in the phases \<open>p\<close> and \<open>q\<close>.\<close>

definition two_calls :: "nat manager \<Rightarrow> nat \<Rightarrow> nat \<Rightarrow> phase \<Rightarrow> phase \<Rightarrow> nat calls" where
  "two_calls m h h' p q = \<lparr>Shared = m, Threads = (\<lambda>i. if i = 0 then Some (pods_gvr, h, p)
     else if i = 1 then Some (pods_gvr, h', q) else None)\<rparr>"

lemma two_calls_upd:
  "two_calls m h h' p q\<lparr>Shared := m', Threads := (Threads (two_calls m h h' p q))(0 \<mapsto> (pods_gvr, h, p'))\<rparr> = two_calls m' h h' p' q"
  "two_calls m h h' p q\<lparr>Shared := m', Threads := (Threads (two_calls m h h' p q))(1 \<mapsto> (pods_gvr, h', q'))\<rparr> = two_calls m' h h' p q'"
  "two_calls m h h' p q\<lparr>Threads := (Threads (two_calls m h h' p q))(0 \<mapsto> (pods_gvr, h, p'))\<rparr> = two_calls m h h' p' q"
  "two_calls m h h' p q\<lparr>Threads := (Threads (two_calls m h h' p q))(1 \<mapsto> (pods_gvr, h', q'))\<rparr> = two_calls m h h' p q'"
  by (auto simp: two_calls_def fun_eq_iff)

lemma two_calls_at [simp]: "Threads (two_calls m h h' p q) 0 = Some (pods_gvr, h, p)"
  "Threads (two_calls m h h' p q) 1 = Some (pods_gvr, h', q)" "Shared (two_calls m h h' p q) = m"
  by (simp_all add: two_calls_def)

lemma two_steps:
  "\<not> IsHandlerExist m pods_gvr h \<Longrightarrow> call_step (two_calls m h h' Checking q) (two_calls m h h' Adding q)"
  "\<not> IsHandlerExist m pods_gvr h' \<Longrightarrow> call_step (two_calls m h h' p Checking) (two_calls m h h' p Adding)"
  "call_step (two_calls m h h' Adding q) (two_calls (addEventHandler b pods_gvr h m) h h' Appending q)"
  "call_step (two_calls m h h' p Adding) (two_calls (addEventHandler b pods_gvr h' m) h h' p Appending)"
  "call_step (two_calls m h h' Appending q) (two_calls (appendHandler pods_gvr h m) h h' Finished q)"
  "call_step (two_calls m h h' p Appending) (two_calls (appendHandler pods_gvr h' m) h h' p Finished)"
  using call_step.missing [of "two_calls m h h' Checking q" 0 pods_gvr h]
    call_step.missing [of "two_calls m h h' p Checking" 1 pods_gvr h']
    call_step.added [of "two_calls m h h' Adding q" 0 pods_gvr h b]
    call_step.added [of "two_calls m h h' p Adding" 1 pods_gvr h' b]
    call_step.appended [of "two_calls m h h' Appending q" 0 pods_gvr h]
    call_step.appended [of "two_calls m h h' p Appending" 1 pods_gvr h']
  unfolding two_calls_upd two_calls_at by blast+

text \<open>Both calls look the handler up before either records it.\<close>

definition raced :: "nat \<Rightarrow> nat \<Rightarrow> nat manager" where
  "raced h h' = appendHandler pods_gvr h' (appendHandler pods_gvr h
     (addEventHandler False pods_gvr h' (addEventHandler False pods_gvr h (NewSingleClusterInformerManager False))))"

abbreviation both_started :: "nat \<Rightarrow> nat \<Rightarrow> nat calls" where
  "both_started h h' \<equiv> two_calls (NewSingleClusterInformerManager False) h h' Checking Checking"

lemma race_possible: "call_step\<^sup>*\<^sup>* (both_started h h') (two_calls (raced h h') h h' Finished Finished)"
proof -
  let ?m0 = "NewSingleClusterInformerManager False :: nat manager"
  have "\<not> IsHandlerExist ?m0 pods_gvr x" for x by (simp add: IsHandlerExist_def NewSingleClusterInformerManager_def)
  then have "call_step\<^sup>*\<^sup>* (both_started h h') (two_calls ?m0 h h' Adding Adding)"
    using two_steps(1,2) by (meson converse_rtranclp_into_rtranclp rtranclp.rtrancl_refl)
  also have "call_step \<dots> (two_calls (addEventHandler False pods_gvr h ?m0) h h' Appending Adding)" by (rule two_steps)
  also have "call_step \<dots> (two_calls (addEventHandler False pods_gvr h' (addEventHandler False pods_gvr h ?m0)) h h' Appending Appending)"
    by (rule two_steps)
  also have "call_step \<dots> (two_calls (appendHandler pods_gvr h
      (addEventHandler False pods_gvr h' (addEventHandler False pods_gvr h ?m0))) h h' Finished Appending)" by (rule two_steps)
  also have "call_step \<dots> (two_calls (raced h h') h h' Finished Finished)" unfolding raced_def by (rule two_steps)
  finally show ?thesis .
qed

lemma all_finished: "\<forall>i r x p. Threads (two_calls m h h' Finished Finished) i = Some (r, x, p) \<longrightarrow> p = Finished"
  by (simp add: two_calls_def)


text \<open>
  Two concurrent calls with the same handler may both find it missing: the informer then calls it
  twice for every event. The interface promises that a handler is added once.
\<close>

theorem race_registers_twice:
  "\<exists>c. call_step\<^sup>*\<^sup>* (both_started h h) c \<and> (\<forall>i r h p. Threads c i = Some (r, h, p) \<longrightarrow> p = Finished) \<and>
     at_key (MInformers (Shared c)) pods_gvr = [h, h]"
proof -
  have "at_key (MInformers (raced h h)) pods_gvr = [h, h]"
    by (simp add: raced_def NewSingleClusterInformerManager_def at_key_def [of "[]"])
  then show ?thesis using race_possible [of h h] all_finished [of "raced h h" h h] by fastforce
qed

end
