(* ===== verification/ControllerManager.thy ===== *)
theory ControllerManager
  imports GoLib Complex_Main
begin

text \<open>
  The start of the process: options and their defaults (\<open>cmd/app/options\<close>), the initializers
  (\<open>pkg/controllers/context\<close>), \<open>setupControllers\<close> and \<open>Run\<close>
  (\<open>cmd/app/controllermanager.go\<close>) with the \<open>Setup\<close>, \<open>SetupWithManager\<close> and \<open>Start\<close>
  of the four controllers, the signal handling of \<open>cmd/main.go\<close>, and the rate limiter options.
  The calls of the controller runtime and of client-go are events; their answers are a function of
  the events before. Shown: the manager is started only when everything it needs is in place.
\<close>

section \<open>Options\<close>

definition ms :: int where "ms = 1000000"
definition sec :: int where "sec = 1000000000"

record limiter_options =
  RateLimiterBaseDelay :: int
  RateLimiterMaxDelay :: int
  RateLimiterQPS :: int
  RateLimiterBucketSize :: int

record options =
  KubeAPIQPS :: rat
  KubeAPIBurst :: int
  ResyncPeriod :: int
  BindAddress :: string
  SecurePort :: int
  PropagationWorkSyncs :: int
  LeaderElection :: bool
  LeaderElectionNamespace :: string
  LeaderElectionID :: string
  LeaseDuration :: int
  RenewDeadline :: int
  RetryPeriod :: int
  SkippedPropagatingNamespaces :: "string list"
  InplaceWorkSyncs :: int
  RateLimiterOpts :: limiter_options
  CertsDir :: string
  WebhookPort :: int
  DisableWebhook :: bool
  PprofPort :: int
  DisableInplaceUpdates :: bool

definition NewOptions :: options where
  "NewOptions = \<lparr>KubeAPIQPS = 0, KubeAPIBurst = 0, ResyncPeriod = 0, BindAddress = [], SecurePort = 0,
     PropagationWorkSyncs = 0, LeaderElection = False, LeaderElectionNamespace = [], LeaderElectionID = [],
     LeaseDuration = 0, RenewDeadline = 0, RetryPeriod = 0, SkippedPropagatingNamespaces = [], InplaceWorkSyncs = 0,
     RateLimiterOpts = \<lparr>RateLimiterBaseDelay = 0, RateLimiterMaxDelay = 0, RateLimiterQPS = 0, RateLimiterBucketSize = 0\<rparr>,
     CertsDir = [], WebhookPort = 0, DisableWebhook = False, PprofPort = 0, DisableInplaceUpdates = False\<rparr>"

definition defaultBindAddress :: string where "defaultBindAddress = ''0.0.0.0''"
definition defaultPort :: int where "defaultPort = 10357"
definition defaultLeaseDuration :: int where "defaultLeaseDuration = 15 * sec"
definition defaultRenewDeadline :: int where "defaultRenewDeadline = 10 * sec"
definition defaultRetryPeriod :: int where "defaultRetryPeriod = 2 * sec"
definition defaultLeaseID :: string where "defaultLeaseID = ''exteneddeployment''"
definition defaultLeaseNamespace :: string where "defaultLeaseNamespace = ''extended-system''"

text \<open>
  Declaring a flag stores its default value; the flags given on the command line are parsed later
  by the flag library. The options of the rate limiter have no flags.
\<close>

definition AddFlags :: "options \<Rightarrow> options" where
  "AddFlags opts = opts\<lparr>KubeAPIQPS := 40, KubeAPIBurst := 60, ResyncPeriod := 0, BindAddress := defaultBindAddress,
     SecurePort := defaultPort, SkippedPropagatingNamespaces := [], InplaceWorkSyncs := 5,
     LeaderElection := False, LeaseDuration := defaultLeaseDuration, RenewDeadline := defaultRenewDeadline,
     RetryPeriod := defaultRetryPeriod, LeaderElectionID := defaultLeaseID,
     LeaderElectionNamespace := defaultLeaseNamespace, CertsDir := ''/etc/tls-certs'', WebhookPort := 8000,
     DisableWebhook := False, PprofPort := 0, DisableInplaceUpdates := True\<rparr>"

definition ValidateOptions :: "options \<Rightarrow> err list" where
  "ValidateOptions opts = []"

section \<open>Events of the start\<close>

datatype reconciler = EDReconciler bool | IPSReconciler bool int | RegionReconciler "string gomap" | RescheduleReconciler

record manager_options =
  MgrQPS :: rat
  MgrBurst :: int
  HealthProbeBindAddress :: string
  MgrLeaderElection :: bool
  MgrLeaderElectionNamespace :: string
  MgrLeaderElectionID :: string
  MgrLeaseDuration :: int
  MgrRenewDeadline :: int
  MgrRetryPeriod :: int

text \<open>
  The calls into the libraries. A controller is completed with the kinds it watches, a runnable is
  added with the informers its \<open>Start\<close> waits for, the factory is started with the informers
  requested so far.
\<close>

datatype boot_event = GetConfig | NewManager manager_options | AddHealthzCheck | NewClientSet | NewDynamicClient
  | RequestInformer string | CompleteController reconciler "string list" | AddRunnable string "string list"
  | StartFactory "string list" | WaitFactory | WatchStop | SetupWebhook string | ServePprof int | StartManager

type_synonym 'a boot = "(boot_event, 'a) io"
type_synonym boot_env = "boot_event list \<Rightarrow> boot_event \<Rightarrow> err option"

definition attempt_boot :: "boot_env \<Rightarrow> boot_event \<Rightarrow> unit boot" where
  "attempt_boot E q = call q (\<lambda>h. case E h q of None \<Rightarrow> Inr () | Some e \<Rightarrow> Inl e)"

text \<open>\<open>klog.Fatalf\<close> on an error: the process ends, as with a panic that nobody recovers.\<close>

definition fatal :: "'a boot \<Rightarrow> 'a boot" where
  "fatal m = bind_io (attempt m) (\<lambda>r. case r of Inl e \<Rightarrow> panic e | Inr x \<Rightarrow> ret x)"

definition informersRequested :: "boot_event list \<Rightarrow> string list" where
  "informersRequested h = remdups (concat (map (\<lambda>e. case e of RequestInformer i \<Rightarrow> [i] | _ \<Rightarrow> []) h))"

text \<open>\<open>Start\<close> of the shared informer factory runs all informers requested so far.\<close>

definition startFactory :: "unit boot" where
  "startFactory h = (Ok (), h @ [StartFactory (informersRequested h)])"

definition NewAggregate :: "err option list \<Rightarrow> err option" where
  "NewAggregate errlist = (case concat (map (\<lambda>e. case e of None \<Rightarrow> [] | Some x \<Rightarrow> [x]) errlist) of
     [] \<Rightarrow> None | errs \<Rightarrow> Some (Aggregate errs))"

text \<open>The error of an action as a value, and an aggregate as an action.\<close>

definition error_of :: "unit boot \<Rightarrow> err option boot" where
  "error_of m = bind_io (attempt m) (\<lambda>r. ret (case r of Inl e \<Rightarrow> Some e | Inr _ \<Rightarrow> None))"

definition of_error :: "err option \<Rightarrow> unit boot" where
  "of_error e = (case e of None \<Rightarrow> ret () | Some x \<Rightarrow> fail x)"

section \<open>Setting up the controllers\<close>

definition requestInformers :: "string list \<Rightarrow> unit boot" where
  "requestInformers is = for_io (\<lambda>i _. emit (RequestInformer i)) is ()"

text \<open>The listers of the ExtendedDeployment controller, and the informers its \<open>Start\<close> waits for.\<close>

definition ED_Setup :: "string list boot" where
  "ED_Setup = bind_io (requestInformers [''pods'', ''nodes'', ''controllerrevisions'',
       ''controllerrevisions'', ''pods'', ''nodes'']) (\<lambda>_.
     ret [''controllerrevisions'', ''pods'', ''nodes''])"

definition ED_SetupWithManager :: "boot_env \<Rightarrow> bool \<Rightarrow> string list \<Rightarrow> unit boot" where
  "ED_SetupWithManager E disable listerSynced =
     bind_io (error_of (attempt_boot E (CompleteController (EDReconciler disable)
       [''ExtendedDeployment'', ''InplaceSet'', ''ControllerRevision'', ''DeployRegion'', ''Deployment'', ''ReplicaSet'']))) (\<lambda>e1.
     bind_io (error_of (attempt_boot E (AddRunnable ''extendeddeployment'' listerSynced))) (\<lambda>e2.
     of_error (NewAggregate [e1, e2])))"

definition IPS_SetupWithManager :: "boot_env \<Rightarrow> bool \<Rightarrow> int \<Rightarrow> unit boot" where
  "IPS_SetupWithManager E disable burst =
     bind_io (error_of (attempt_boot E (CompleteController (IPSReconciler disable burst) [''InplaceSet'', ''Pod'']))) (\<lambda>e1.
     bind_io (error_of (attempt_boot E (AddRunnable ''inplaceset'' []))) (\<lambda>e2.
     of_error (NewAggregate [e1, e2])))"

definition Region_init :: "string gomap" where
  "Region_init = [(''node-role.kubernetes.io/compute'', ''true'')]"

definition Region_Setup :: "unit boot" where
  "Region_Setup = ret ()"

definition Region_SetupWithManager :: "boot_env \<Rightarrow> unit boot" where
  "Region_SetupWithManager E = attempt_boot E (CompleteController (RegionReconciler Region_init) [''DeployRegion'', ''Pod'', ''Node''])"

definition Resched_Setup :: "string list boot" where
  "Resched_Setup = bind_io (requestInformers [''pods'', ''pods'']) (\<lambda>_. ret [''pods''])"

definition Resched_SetupWithManager :: "boot_env \<Rightarrow> string list \<Rightarrow> unit boot" where
  "Resched_SetupWithManager E podSynced =
     bind_io (error_of (attempt_boot E (CompleteController RescheduleReconciler [''ExtendedDeployment'']))) (\<lambda>e1.
     bind_io (error_of (attempt_boot E (AddRunnable ''reschedule-controller'' podSynced))) (\<lambda>e2.
     of_error (NewAggregate [e1, e2])))"

text \<open>\<open>Start\<close> of a controller, given which informers have synchronised before the context ended.\<close>

definition waitForNamedCacheSync :: "(string \<Rightarrow> bool) \<Rightarrow> string list \<Rightarrow> bool" where
  "waitForNamedCacheSync synced waits = list_all synced waits"

definition ED_Start :: "(string \<Rightarrow> bool) \<Rightarrow> string list \<Rightarrow> err option" where
  "ED_Start synced listerSynced =
     (if \<not> waitForNamedCacheSync synced listerSynced then Some (Msg ''can not wait for resource syncd'') else None)"

definition Resched_Start :: "(string \<Rightarrow> bool) \<Rightarrow> string list \<Rightarrow> err option" where
  "Resched_Start synced podSynced =
     (if \<not> waitForNamedCacheSync synced podSynced then Some (Msg ''can not wait for resource syncd'') else None)"

definition IPS_Start :: "err option" where
  "IPS_Start = None"

section \<open>Initializers\<close>

text \<open>The part of the context that the initializers read; \<open>InplacesetConcurrency\<close> is read by none.\<close>

record controller_context =
  COpts :: options
  InplacesetConcurrency :: int

type_synonym initializers = "(string \<times> (controller_context \<Rightarrow> bool boot)) list"

definition ControllerNames :: "initializers \<Rightarrow> string list" where
  "ControllerNames i = sort (remdups (map fst i))"

text \<open>The order of the list is the iteration order of the map.\<close>

fun StartControllers :: "initializers \<Rightarrow> controller_context \<Rightarrow> unit boot" where
  "StartControllers [] ctx = ret ()"
| "StartControllers ((controllerName, initFn) # i) ctx = bind_io (initFn ctx) (\<lambda>started. StartControllers i ctx)"

definition startExtendedDeploymentController :: "boot_env \<Rightarrow> controller_context \<Rightarrow> bool boot" where
  "startExtendedDeploymentController E ctx =
     bind_io ED_Setup (\<lambda>listerSynced.
     bind_io (ED_SetupWithManager E (DisableInplaceUpdates (COpts ctx)) listerSynced) (\<lambda>_.
     ret True))"

definition startDeployRegionController :: "boot_env \<Rightarrow> controller_context \<Rightarrow> bool boot" where
  "startDeployRegionController E ctx =
     bind_io Region_Setup (\<lambda>_.
     bind_io (Region_SetupWithManager E) (\<lambda>_.
     ret True))"

definition startPlacesetController :: "boot_env \<Rightarrow> controller_context \<Rightarrow> bool boot" where
  "startPlacesetController E ctx =
     bind_io (IPS_SetupWithManager E (DisableInplaceUpdates (COpts ctx)) 50) (\<lambda>_.
     ret True)"

definition startRescheduleController :: "boot_env \<Rightarrow> controller_context \<Rightarrow> bool boot" where
  "startRescheduleController E ctx =
     bind_io Resched_Setup (\<lambda>podSynced.
     bind_io (Resched_SetupWithManager E podSynced) (\<lambda>_.
     ret True))"

definition controllers :: "boot_env \<Rightarrow> initializers" where
  "controllers E = [(''exteneddeployment'', startExtendedDeploymentController E),
     (''placeset'', startPlacesetController E), (''deployregion'', startDeployRegionController E),
     (''reschedule'', startRescheduleController E)]"

section \<open>Running\<close>

definition setupControllers :: "boot_env \<Rightarrow> initializers \<Rightarrow> options \<Rightarrow> unit boot" where
  "setupControllers E order opts =
     bind_io (fatal (attempt_boot E NewDynamicClient)) (\<lambda>_.
     bind_io (fatal (StartControllers order \<lparr>COpts = opts, InplacesetConcurrency = InplaceWorkSyncs opts\<rparr>)) (\<lambda>_.
     bind_io startFactory (\<lambda>_.
     bind_io (emit WaitFactory) (\<lambda>_.
     emit WatchStop))))"

text \<open>\<open>net.JoinHostPort\<close>: an address with colons is put into brackets.\<close>

definition JoinHostPort :: "string \<Rightarrow> string \<Rightarrow> string" where
  "JoinHostPort host port = (if CHR '':'' \<in> set host then ''['' @ host @ '']:'' @ port else host @ '':'' @ port)"

definition managerOptions :: "options \<Rightarrow> manager_options" where
  "managerOptions opts = \<lparr>MgrQPS = KubeAPIQPS opts, MgrBurst = KubeAPIBurst opts,
     HealthProbeBindAddress = JoinHostPort (BindAddress opts) (Itoa (SecurePort opts)),
     MgrLeaderElection = LeaderElection opts, MgrLeaderElectionNamespace = LeaderElectionNamespace opts,
     MgrLeaderElectionID = LeaderElectionID opts, MgrLeaseDuration = LeaseDuration opts,
     MgrRenewDeadline = RenewDeadline opts, MgrRetryPeriod = RetryPeriod opts\<rparr>"

definition Run :: "boot_env \<Rightarrow> initializers \<Rightarrow> options \<Rightarrow> unit boot" where
  "Run E order opts =
     bind_io (fatal (attempt_boot E GetConfig)) (\<lambda>_.
     bind_io (attempt_boot E (NewManager (managerOptions opts))) (\<lambda>_.
     bind_io (attempt_boot E AddHealthzCheck) (\<lambda>_.
     bind_io (fatal (attempt_boot E NewClientSet)) (\<lambda>_.
     bind_io (setupControllers E order opts) (\<lambda>_.
     bind_io (if \<not> DisableWebhook opts then
         bind_io (fatal (attempt_boot E (SetupWebhook ''ExtendedDeployment''))) (\<lambda>_.
         fatal (attempt_boot E (SetupWebhook ''InplaceSet'')))
       else ret ()) (\<lambda>_.
     bind_io (if PprofPort opts \<noteq> 0 then emit (ServePprof (PprofPort opts)) else ret ()) (\<lambda>_.
     attempt_boot E StartManager)))))))"

text \<open>The command: \<open>parse\<close> is the flag library on the command line.\<close>

definition NewControllerManagerCommand :: "boot_env \<Rightarrow> initializers \<Rightarrow> (options \<Rightarrow> err + options) \<Rightarrow> unit boot" where
  "NewControllerManagerCommand E order parse =
     bind_io (of_sum (parse (AddFlags NewOptions))) (\<lambda>opts.
     if ValidateOptions opts \<noteq> [] then fail (Aggregate (ValidateOptions opts))
     else Run E order opts)"

section \<open>What a successful step leaves behind\<close>

lemma attempt_boot_Ok: "attempt_boot E q h = (Ok (), h') \<longleftrightarrow> E h q = None \<and> h' = h @ [q]"
  by (auto simp: attempt_boot_def split: option.split)

lemma fatal_Ok: "fatal m h = (Ok x, h') \<longleftrightarrow> m h = (Ok x, h')"
  by (auto simp: fatal_def io_defs split: prod.splits res.splits sum.splits)

lemma NewAggregate_None: "NewAggregate [e1, e2] = None \<longleftrightarrow> e1 = None \<and> e2 = None"
  by (auto simp: NewAggregate_def split: option.splits)

lemma of_error_Ok: "of_error e h = (Ok x, h') \<longleftrightarrow> e = None \<and> h' = h"
  by (cases e) (auto simp: of_error_def)

lemma error_of_None: "error_of m h = (Ok None, h') \<Longrightarrow> m h = (Ok (), h')"
  by (auto simp: error_of_def io_defs split: prod.splits res.splits sum.splits)

lemma two_registrations:
  assumes "bind_io (error_of (attempt_boot E q1)) (\<lambda>e1. bind_io (error_of (attempt_boot E q2)) (\<lambda>e2.
      of_error (NewAggregate [e1, e2]))) h = (Ok x, h')"
  shows "h' = h @ [q1, q2]"
  using assms
  by (auto simp: of_error_Ok NewAggregate_None attempt_boot_Ok elim!: bind_OkE dest!: error_of_None)

lemma requestInformers_run: "requestInformers is h = (Ok (), h @ map RequestInformer is)"
  unfolding requestInformers_def by (induction "is" arbitrary: h) (simp_all add: ret_def bind_io_def emit_def)

text \<open>The events of each controller.\<close>

definition ed_events :: "bool \<Rightarrow> boot_event list" where
  "ed_events disable = map RequestInformer [''pods'', ''nodes'', ''controllerrevisions'', ''controllerrevisions'', ''pods'', ''nodes''] @
     [CompleteController (EDReconciler disable) [''ExtendedDeployment'', ''InplaceSet'', ''ControllerRevision'', ''DeployRegion'', ''Deployment'', ''ReplicaSet''],
      AddRunnable ''extendeddeployment'' [''controllerrevisions'', ''pods'', ''nodes'']]"

definition ips_events :: "bool \<Rightarrow> boot_event list" where
  "ips_events disable = [CompleteController (IPSReconciler disable 50) [''InplaceSet'', ''Pod''], AddRunnable ''inplaceset'' []]"

definition region_events :: "boot_event list" where
  "region_events = [CompleteController (RegionReconciler Region_init) [''DeployRegion'', ''Pod'', ''Node'']]"

definition resched_events :: "boot_event list" where
  "resched_events = map RequestInformer [''pods'', ''pods''] @
     [CompleteController RescheduleReconciler [''ExtendedDeployment''], AddRunnable ''reschedule-controller'' [''pods'']]"

lemmas events_defs = ed_events_def ips_events_def region_events_def resched_events_def

definition events_of :: "bool \<Rightarrow> string \<Rightarrow> boot_event list" where
  "events_of disable n = (if n = ''exteneddeployment'' then ed_events disable
     else if n = ''placeset'' then ips_events disable
     else if n = ''deployregion'' then region_events else resched_events)"

lemma start_events:
  assumes "(n, f) \<in> set (controllers E)" and "f ctx h = (Ok b, h')"
  shows "b \<and> h' = h @ events_of (DisableInplaceUpdates (COpts ctx)) n"
proof -
  consider (ed) "n = ''exteneddeployment''" "f = startExtendedDeploymentController E" |
    (ips) "n = ''placeset''" "f = startPlacesetController E" |
    (region) "n = ''deployregion''" "f = startDeployRegionController E" |
    (resched) "n = ''reschedule''" "f = startRescheduleController E"
    using assms(1) by (auto simp: controllers_def)
  then show ?thesis
  proof cases
    case ed
    then show ?thesis using assms(2)
      by (auto simp: startExtendedDeploymentController_def ED_Setup_def ED_SetupWithManager_def requestInformers_run
          events_of_def ed_events_def elim!: bind_OkE dest!: two_registrations)
  next
    case ips
    then show ?thesis using assms(2)
      by (auto simp: startPlacesetController_def IPS_SetupWithManager_def events_of_def ips_events_def
          elim!: bind_OkE dest!: two_registrations)
  next
    case region
    then show ?thesis using assms(2)
      by (auto simp: startDeployRegionController_def Region_Setup_def Region_SetupWithManager_def attempt_boot_Ok
          events_of_def region_events_def elim!: bind_OkE)
  next
    case resched
    then show ?thesis using assms(2)
      by (auto simp: startRescheduleController_def Resched_Setup_def Resched_SetupWithManager_def requestInformers_run
          events_of_def resched_events_def elim!: bind_OkE dest!: two_registrations)
  qed
qed

lemma StartControllers_events:
  assumes "StartControllers order ctx h = (Ok (), h')" and "set order \<subseteq> set (controllers E)"
  shows "h' = h @ concat (map (\<lambda>(n, _). events_of (DisableInplaceUpdates (COpts ctx)) n) order)"
  using assms
proof (induction order arbitrary: h)
  case (Cons p order)
  obtain n f where p: "p = (n, f)" by (cases p)
  obtain b h1 where 1: "f ctx h = (Ok b, h1)" and 2: "StartControllers order ctx h1 = (Ok (), h')"
    using Cons.prems(1) p by (auto elim!: bind_OkE)
  have "(n, f) \<in> set (controllers E)" using Cons.prems(2) p by simp
  from start_events [OF this 1] Cons.IH [OF 2] Cons.prems(2) p show ?case by simp
qed simp

section \<open>Reaching the start of the manager\<close>

text \<open>
  \<open>does m l\<close>: when the action succeeds it has caused the events \<open>l\<close>. \<open>leads q m l\<close>: when the
  action causes the event \<open>q\<close>, it has caused the events \<open>l\<close>. The events may depend on those
  before.
\<close>

definition does :: "'a boot \<Rightarrow> (boot_event list \<Rightarrow> boot_event list) \<Rightarrow> bool" where
  "does m l \<longleftrightarrow> (\<forall>h x h'. m h = (Ok x, h') \<longrightarrow> h' = h @ l h)"

definition leads :: "boot_event \<Rightarrow> 'a boot \<Rightarrow> (boot_event list \<Rightarrow> boot_event list) \<Rightarrow> bool" where
  "leads q m l \<longleftrightarrow> (\<forall>h r h'. q \<notin> set h \<longrightarrow> m h = (r, h') \<longrightarrow> q \<in> set h' \<longrightarrow> h' = h @ l h)"

lemma does_bind: "does m k \<Longrightarrow> (\<And>x. does (f x) l) \<Longrightarrow> does (bind_io m f) (\<lambda>h. k h @ l (h @ k h))"
  unfolding does_def by (fastforce elim: bind_OkE)

lemma does_ret: "does (ret x) (\<lambda>_. [])"
  by (simp add: does_def)

lemma does_attempt: "does (attempt_boot E q) (\<lambda>_. [q])"
  by (auto simp: does_def attempt_boot_Ok)

lemma does_emit: "does (emit q) (\<lambda>_. [q])"
  by (simp add: does_def)

lemma does_fatal: "does m l \<Longrightarrow> does (fatal m) l"
  by (simp add: does_def fatal_Ok)

lemma does_if: "does m k \<Longrightarrow> does n l \<Longrightarrow> does (if b then m else n) (if b then k else l)"
  by simp

lemmas does_intros = does_bind does_ret does_attempt does_emit does_fatal does_if

lemma leads_bind:
  assumes "emits (\<lambda>x. x \<noteq> q) m" and "does m k" and "\<And>x. leads q (f x) l"
  shows "leads q (bind_io m f) (\<lambda>h. k h @ l (h @ k h))"
  unfolding leads_def
proof (intro allI impI)
  fix h r h' assume q: "q \<notin> set h" and run: "bind_io m f h = (r, h')" and q': "q \<in> set h'"
  obtain o1 h1 where m: "m h = (o1, h1)" by (cases "m h")
  obtain l1 where l1: "h1 = h @ l1" "list_all (\<lambda>x. x \<noteq> q) l1" using emitsD [OF assms(1) m] by blast
  then have q1: "q \<notin> set h1" using q by (auto simp: list_all_iff)
  show "h' = h @ k h @ l (h @ k h)"
  proof (cases o1)
    case (Ok x)
    with m assms(2) have h1: "h1 = h @ k h" unfolding does_def by blast
    have "f x h1 = (r, h')" using run m Ok by (simp add: bind_io_def)
    with assms(3) [of x] q1 q' have "h' = h1 @ l h1" unfolding leads_def by blast
    with h1 show ?thesis by simp
  qed (use run m q1 q' in \<open>auto simp: bind_io_def\<close>)
qed

lemma leadsD: "leads q m l \<Longrightarrow> q \<notin> set h \<Longrightarrow> m h = (r, h') \<Longrightarrow> q \<in> set h' \<Longrightarrow> h' = h @ l h"
  by (simp add: leads_def)

lemma leads_eq: "leads q m k \<Longrightarrow> (\<And>h. k h = l h) \<Longrightarrow> leads q m l"
  by (simp add: leads_def)

lemma leads_attempt: "leads q (attempt_boot E q) (\<lambda>_. [q])"
  by (auto simp: leads_def attempt_boot_def call_def)

lemma emits_attempt_boot [emits_intros]: "P q \<Longrightarrow> emits P (attempt_boot E q)"
  by (simp add: attempt_boot_def emits_call)

lemma emits_fatal [emits_intros]: "emits P m \<Longrightarrow> emits P (fatal m)"
  unfolding fatal_def by (intro emits_intros)

lemma emits_error_of [emits_intros]: "emits P m \<Longrightarrow> emits P (error_of m)"
  unfolding error_of_def by (intro emits_intros)

lemma emits_of_error [emits_intros]: "emits P (of_error e)"
  unfolding of_error_def by (intro emits_intros)

lemma emits_requestInformers [emits_intros]: "(\<And>i. P (RequestInformer i)) \<Longrightarrow> emits P (requestInformers is)"
  unfolding requestInformers_def by (intro emits_for emits_intros)

lemma emits_startFactory: "emits (\<lambda>q. q \<noteq> StartManager) startFactory"
  by (simp add: emits_def startFactory_def)

lemma emits_initializer:
  assumes "(n, f) \<in> set (controllers E)"
  shows "emits (\<lambda>q. q \<noteq> StartManager) (f ctx)"
proof -
  consider "f = startExtendedDeploymentController E" | "f = startPlacesetController E" |
    "f = startDeployRegionController E" | "f = startRescheduleController E"
    using assms by (auto simp: controllers_def)
  then show ?thesis
    by cases (simp_all add: startExtendedDeploymentController_def ED_Setup_def ED_SetupWithManager_def
      startPlacesetController_def IPS_SetupWithManager_def startDeployRegionController_def Region_Setup_def
      Region_SetupWithManager_def startRescheduleController_def Resched_Setup_def Resched_SetupWithManager_def,
      (intro emits_intros; simp)+)
qed

lemma emits_StartControllers:
  "set order \<subseteq> set (controllers E) \<Longrightarrow> emits (\<lambda>q. q \<noteq> StartManager) (StartControllers order ctx)"
proof (induction order)
  case (Cons p order)
  obtain n f where p: "p = (n, f)" by (cases p)
  with Cons show ?case by (auto intro!: emits_bind emits_initializer [of n f E])
qed (simp add: emits_ret)

lemma emits_setupControllers:
  "set order \<subseteq> set (controllers E) \<Longrightarrow> emits (\<lambda>q. q \<noteq> StartManager) (setupControllers E order opts)"
  unfolding setupControllers_def
  by (intro emits_bind emits_fatal emits_attempt_boot emits_emit emits_startFactory emits_StartControllers) simp_all

text \<open>All that happened when the manager is started.\<close>

definition setup_events :: "initializers \<Rightarrow> options \<Rightarrow> boot_event list" where
  "setup_events order opts = [GetConfig, NewManager (managerOptions opts), AddHealthzCheck, NewClientSet, NewDynamicClient] @
     concat (map (\<lambda>(n, _). events_of (DisableInplaceUpdates opts) n) order)"

definition boot_events :: "initializers \<Rightarrow> options \<Rightarrow> boot_event list" where
  "boot_events order opts = setup_events order opts @
     [StartFactory (informersRequested (setup_events order opts)), WaitFactory, WatchStop] @
     (if DisableWebhook opts then [] else [SetupWebhook ''ExtendedDeployment'', SetupWebhook ''InplaceSet'']) @
     (if PprofPort opts \<noteq> 0 then [ServePprof (PprofPort opts)] else [])"

lemma does_startFactory: "does startFactory (\<lambda>h. [StartFactory (informersRequested h)])"
  by (auto simp: does_def startFactory_def)

lemma does_StartControllers:
  "set order \<subseteq> set (controllers E) \<Longrightarrow> does (StartControllers order ctx)
     (\<lambda>_. concat (map (\<lambda>(n, _). events_of (DisableInplaceUpdates (COpts ctx)) n) order))"
  unfolding does_def using StartControllers_events by fastforce

lemma does_setupControllers:
  "set order \<subseteq> set (controllers E) \<Longrightarrow> does (setupControllers E order opts) (\<lambda>h.
     let l = [NewDynamicClient] @ concat (map (\<lambda>(n, _). events_of (DisableInplaceUpdates opts) n) order)
     in l @ [StartFactory (informersRequested (h @ l)), WaitFactory, WatchStop])"
  using does_bind [OF does_fatal [OF does_attempt [of E NewDynamicClient]]
      does_bind [OF does_fatal [OF does_StartControllers [of order E "\<lparr>COpts = opts, InplacesetConcurrency = InplaceWorkSyncs opts\<rparr>"]]
      does_bind [OF does_startFactory does_bind [OF does_emit [of WaitFactory] does_emit [of WatchStop]]]]]
  by (simp add: setupControllers_def Let_def)

lemma Run_events:
  assumes "Run E order opts [] = (r, h)" and "StartManager \<in> set h" and "set order \<subseteq> set (controllers E)"
  shows "h = boot_events order opts @ [StartManager]"
proof -
  let ?Q = "\<lambda>q. q \<noteq> StartManager"
  have em: "emits ?Q (attempt_boot E q)" "emits ?Q (fatal (attempt_boot E q))" if "q \<noteq> StartManager" for q
    using that by (auto intro!: emits_intros)
  have hooks: "emits ?Q (if \<not> DisableWebhook opts then
         bind_io (fatal (attempt_boot E (SetupWebhook ''ExtendedDeployment''))) (\<lambda>_.
         fatal (attempt_boot E (SetupWebhook ''InplaceSet''))) else ret ())"
    and pprof: "emits ?Q (if PprofPort opts \<noteq> 0 then emit (ServePprof (PprofPort opts)) else ret ())"
    by (auto intro!: emits_intros)
  have does_hooks: "does (if \<not> DisableWebhook opts then
         bind_io (fatal (attempt_boot E (SetupWebhook ''ExtendedDeployment''))) (\<lambda>_.
         fatal (attempt_boot E (SetupWebhook ''InplaceSet''))) else ret ())
      (\<lambda>_. if DisableWebhook opts then [] else [SetupWebhook ''ExtendedDeployment'', SetupWebhook ''InplaceSet''])"
    using does_bind [OF does_fatal [OF does_attempt [of E "SetupWebhook ''ExtendedDeployment''"]]
      does_fatal [OF does_attempt [of E "SetupWebhook ''InplaceSet''"]]]
    by (simp add: does_ret)
  have does_pprof: "does (if PprofPort opts \<noteq> 0 then emit (ServePprof (PprofPort opts)) else ret ())
      (\<lambda>_. if PprofPort opts \<noteq> 0 then [ServePprof (PprofPort opts)] else [])"
    by (simp add: does_emit does_ret)
  obtain l where "leads StartManager (Run E order opts) l" and "l [] = boot_events order opts @ [StartManager]"
  proof (rule that)
    show "leads StartManager (Run E order opts) (\<lambda>h. [GetConfig] @ [NewManager (managerOptions opts)] @ [AddHealthzCheck] @
      [NewClientSet] @ (let h = h @ [GetConfig, NewManager (managerOptions opts), AddHealthzCheck, NewClientSet];
        l = [NewDynamicClient] @ concat (map (\<lambda>(n, _). events_of (DisableInplaceUpdates opts) n) order)
        in l @ [StartFactory (informersRequested (h @ l)), WaitFactory, WatchStop]) @
      (if DisableWebhook opts then [] else [SetupWebhook ''ExtendedDeployment'', SetupWebhook ''InplaceSet'']) @
      (if PprofPort opts \<noteq> 0 then [ServePprof (PprofPort opts)] else []) @ [StartManager])"
      unfolding Run_def
      apply (rule leads_eq)
       apply (rule leads_bind, rule em, simp, rule does_fatal [OF does_attempt])
       apply (rule leads_bind, rule em, simp, rule does_attempt)
       apply (rule leads_bind, rule em, simp, rule does_attempt)
       apply (rule leads_bind, rule em, simp, rule does_fatal [OF does_attempt])
       apply (rule leads_bind, rule emits_setupControllers [OF assms(3)], rule does_setupControllers [OF assms(3)])
       apply (rule leads_bind, rule hooks, rule does_hooks)
       apply (rule leads_bind, rule pprof, rule does_pprof)
       apply (rule leads_attempt)
      apply (simp add: Let_def)
      done
  qed (simp add: boot_events_def setup_events_def Let_def)
  then show ?thesis using leadsD [where m = "Run E order opts" and h = "[]", OF _ _ assms(1,2)] by simp
qed

text \<open>The controllers completed in a sequence of events.\<close>

definition completed :: "boot_event list \<Rightarrow> reconciler list" where
  "completed h = concat (map (\<lambda>e. case e of CompleteController r _ \<Rightarrow> [r] | _ \<Rightarrow> []) h)"

lemma set_requested: "set (informersRequested h) = {i. RequestInformer i \<in> set h}"
  by (auto simp: informersRequested_def split: boot_event.splits)

lemma mset_concat_map: "mset (concat (map f xs)) = (\<Sum>x \<in># mset xs. mset (f x))"
  by (induction xs) auto

lemma completed_append [simp]: "completed (xs @ ys) = completed xs @ completed ys"
  by (simp add: completed_def)

lemma completed_concat: "completed (concat xss) = concat (map completed xss)"
  by (induction xss) (simp_all add: completed_def)

lemma completed_events:
  assumes "mset order = mset (controllers E)"
  shows "mset (completed (concat (map (\<lambda>(n, _). events_of b n) order))) =
    {#EDReconciler b, IPSReconciler b 50, RegionReconciler Region_init, RescheduleReconciler#}"
proof -
  have "mset (completed (concat (map (\<lambda>(n, _). events_of b n) order))) =
      (\<Sum>(n, _) \<in># mset (controllers E). mset (completed (events_of b n)))"
    by (simp add: completed_concat mset_concat_map assms [symmetric] comp_def case_prod_unfold)
  also have "\<dots> = {#EDReconciler b, IPSReconciler b 50, RegionReconciler Region_init, RescheduleReconciler#}"
    by (simp add: controllers_def events_of_def events_defs completed_def)
  finally show ?thesis .
qed

lemma runnable_waits:
  assumes "AddRunnable n ws \<in> set (concat (map (\<lambda>(n, _). events_of b n) order))"
  shows "set ws \<subseteq> {i. RequestInformer i \<in> set (concat (map (\<lambda>(n, _). events_of b n) order))}"
proof -
  obtain k f where k: "(k, f) \<in> set order" "AddRunnable n ws \<in> set (events_of b k)"
    using assms by auto
  have "\<forall>i \<in> set ws. RequestInformer i \<in> set (events_of b k)"
    using k(2) by (auto simp: events_of_def events_defs split: if_splits)
  with k(1) show ?thesis by fastforce
qed

text \<open>
  C23: when the process starts the manager, the start is complete, whatever the libraries answered
  and in whatever order the map of controllers was iterated. Each of the four controllers was
  completed exactly once, with the option for in-place updates. Every informer whose
  synchronisation a controller waits for had been requested before the informers were started, and
  no informer was requested afterwards. Both webhooks were set up unless they are disabled.
\<close>

theorem manager_starts_complete:
  assumes "Run E order opts [] = (r, h)" and "StartManager \<in> set h" and "mset order = mset (controllers E)"
  shows "\<exists>before informers after. h = before @ [StartFactory informers] @ after @ [StartManager] \<and>
    StartManager \<notin> set (before @ after) \<and> (\<forall>i. RequestInformer i \<notin> set after) \<and>
    mset (completed h) = {#EDReconciler (DisableInplaceUpdates opts), IPSReconciler (DisableInplaceUpdates opts) 50,
      RegionReconciler Region_init, RescheduleReconciler#} \<and>
    (\<forall>n ws. AddRunnable n ws \<in> set h \<longrightarrow> set ws \<subseteq> set informers) \<and>
    (\<not> DisableWebhook opts \<longrightarrow> {SetupWebhook ''ExtendedDeployment'', SetupWebhook ''InplaceSet''} \<subseteq> set after)"
proof -
  let ?b = "setup_events order opts"
  let ?a = "[WaitFactory, WatchStop] @
     (if DisableWebhook opts then [] else [SetupWebhook ''ExtendedDeployment'', SetupWebhook ''InplaceSet'']) @
     (if PprofPort opts \<noteq> 0 then [ServePprof (PprofPort opts)] else [])"
  have sub: "set order \<subseteq> set (controllers E)" using mset_eq_setD [OF assms(3)] by simp
  have h: "h = ?b @ [StartFactory (informersRequested ?b)] @ ?a @ [StartManager]"
    using Run_events [OF assms(1,2) sub] by (simp add: boot_events_def)
  have "StartManager \<notin> set ?b"
    by (auto simp: setup_events_def events_of_def events_defs split: if_splits)
  moreover have "mset (completed h) = {#EDReconciler (DisableInplaceUpdates opts), IPSReconciler (DisableInplaceUpdates opts) 50,
      RegionReconciler Region_init, RescheduleReconciler#}"
    using completed_events [OF assms(3), of "DisableInplaceUpdates opts"] unfolding h setup_events_def completed_append
    by (simp add: completed_def)
  moreover have "set ws \<subseteq> set (informersRequested ?b)" if "AddRunnable n ws \<in> set h" for n ws
  proof -
    have "AddRunnable n ws \<in> set (concat (map (\<lambda>(n, _). events_of (DisableInplaceUpdates opts) n) order))"
      using that unfolding h setup_events_def by (auto split: if_splits)
    from runnable_waits [OF this] show ?thesis unfolding set_requested setup_events_def by auto
  qed
  ultimately show ?thesis
    by - (rule exI [of _ ?b], rule exI [of _ "informersRequested ?b"], rule exI [of _ ?a], use h in \<open>auto split: if_splits\<close>)
qed

text \<open>A start in which every call succeeds.\<close>

definition all_well :: boot_env where
  "all_well = (\<lambda>_ _. None)"

lemma all_well_starts: "StartManager \<in> set (snd (Run all_well (controllers all_well) (AddFlags NewOptions) []))"
  by (simp add: Run_def setupControllers_def controllers_def startExtendedDeploymentController_def ED_Setup_def
      ED_SetupWithManager_def startPlacesetController_def IPS_SetupWithManager_def startDeployRegionController_def
      Region_Setup_def Region_SetupWithManager_def startRescheduleController_def Resched_Setup_def
      Resched_SetupWithManager_def fatal_def error_of_def of_error_def NewAggregate_def attempt_boot_def all_well_def
      requestInformers_def startFactory_def AddFlags_def NewOptions_def io_defs)

theorem manager_starts_complete_witness:
  "\<exists>h. snd (Run all_well (controllers all_well) (AddFlags NewOptions) []) = h \<and>
     mset (completed h) = {#EDReconciler True, IPSReconciler True 50, RegionReconciler Region_init, RescheduleReconciler#}"
proof -
  obtain r h where run: "Run all_well (controllers all_well) (AddFlags NewOptions) [] = (r, h)" by (cases "Run all_well (controllers all_well) (AddFlags NewOptions) []")
  have "DisableInplaceUpdates (AddFlags NewOptions) = True" by (simp add: AddFlags_def)
  with manager_starts_complete [OF run _ refl] all_well_starts run show ?thesis by auto
qed

section \<open>Flags without effect\<close>

text \<open>
  The port of the webhook, the directory of its certificates, the resync period, the skipped
  namespaces and the number of workers for InplaceSets are read from the command line and nowhere
  else: whatever their values, the process does the same.
\<close>

lemma StartControllers_cong:
  assumes "set order \<subseteq> set (controllers E)" and "DisableInplaceUpdates (COpts ctx) = DisableInplaceUpdates (COpts ctx')"
  shows "StartControllers order ctx = StartControllers order ctx'"
  using assms(1)
proof (induction order)
  case (Cons p order)
  obtain n f where p: "p = (n, f)" by (cases p)
  then have "f ctx = f ctx'"
    using Cons.prems assms(2)
    by (auto simp: controllers_def startExtendedDeploymentController_def startPlacesetController_def
        startDeployRegionController_def startRescheduleController_def)
  with Cons p show ?case by simp
qed simp

theorem flags_without_effect:
  assumes "set order \<subseteq> set (controllers E)"
  shows "Run E order (opts\<lparr>WebhookPort := p, CertsDir := d, ResyncPeriod := t,
    SkippedPropagatingNamespaces := ns, InplaceWorkSyncs := n\<rparr>) = Run E order opts"
proof -
  let ?o = "opts\<lparr>WebhookPort := p, CertsDir := d, ResyncPeriod := t, SkippedPropagatingNamespaces := ns, InplaceWorkSyncs := n\<rparr>"
  have "StartControllers order \<lparr>COpts = ?o, InplacesetConcurrency = InplaceWorkSyncs ?o\<rparr> =
      StartControllers order \<lparr>COpts = opts, InplacesetConcurrency = InplaceWorkSyncs opts\<rparr>"
    by (rule StartControllers_cong [OF assms]) simp
  then have "setupControllers E order ?o = setupControllers E order opts"
    unfolding setupControllers_def by (simp only:)
  then show ?thesis unfolding Run_def by (simp add: managerOptions_def)
qed

section \<open>Signals\<close>

text \<open>
  \<open>SetupSignalContext\<close>: whether the handler is installed, the signals received, and how the
  process stands. The first signal cancels the context, the second ends the process; a second call
  closes the closed channel \<open>onlyOneSignalHandler\<close>, which panics.
\<close>

datatype process_state = Running | Cancelled | Exited int

definition SetupSignalContext :: "bool \<Rightarrow> (bool \<times> process_state) res" where
  "SetupSignalContext installed = (if installed then Panic (Msg ''close of closed channel'') else Ok (True, Running))"

fun onSignal :: "process_state \<Rightarrow> process_state" where
  "onSignal Running = Cancelled"
| "onSignal Cancelled = Exited 1"
| "onSignal (Exited n) = Exited n"

lemma signals_end_process:
  "(onSignal ^^ n) Running = (if n = 0 then Running else if n = 1 then Cancelled else Exited 1)"
proof -
  have "(onSignal ^^ k) (Exited 1) = Exited 1" for k by (induction k) simp_all
  then show ?thesis by (cases n; cases "n - 1") (simp_all add: funpow_Suc_right del: funpow.simps(2))
qed

text \<open>
  \<open>main\<close>: the exit code is 1 when the command fails; after a panic or \<open>klog.Fatalf\<close> the process
  has ended before.
\<close>

definition main_exit :: "unit res \<Rightarrow> int option" where
  "main_exit r = (case r of Ok _ \<Rightarrow> Some 0 | Err _ \<Rightarrow> Some 1 | Panic _ \<Rightarrow> None)"

section \<open>The rate limiter\<close>

definition limiterFlags :: "limiter_options \<Rightarrow> limiter_options" where
  "limiterFlags opts = opts\<lparr>RateLimiterBaseDelay := 5 * ms, RateLimiterMaxDelay := 1000 * sec,
     RateLimiterQPS := 10, RateLimiterBucketSize := 100\<rparr>"

text \<open>The options after the defaults, from which the limiters are made.\<close>

definition DefaultControllerRateLimiter :: "limiter_options \<Rightarrow> limiter_options" where
  "DefaultControllerRateLimiter opts =
     (let opts = (if RateLimiterBaseDelay opts \<le> 0 then opts\<lparr>RateLimiterBaseDelay := 5 * ms\<rparr> else opts);
          opts = (if RateLimiterMaxDelay opts \<le> 0 then opts\<lparr>RateLimiterMaxDelay := 1000 * sec\<rparr> else opts);
          opts = (if RateLimiterQPS opts \<le> 0 then opts\<lparr>RateLimiterQPS := 10\<rparr> else opts);
          opts = (if RateLimiterBucketSize opts \<le> 0 then opts\<lparr>RateLimiterBucketSize := 100\<rparr> else opts)
      in opts)"

text \<open>\<open>ItemExponentialFailureRateLimiter.When\<close>: the delay after so many failures.\<close>

definition exponentialDelay :: "limiter_options \<Rightarrow> nat \<Rightarrow> int" where
  "exponentialDelay opts failures =
     (let backoff = RateLimiterBaseDelay opts * 2 ^ failures
      in if backoff > 9223372036854775807 then RateLimiterMaxDelay opts
         else if backoff > RateLimiterMaxDelay opts then RateLimiterMaxDelay opts else backoff)"

lemma limiter_defaults:
  "0 < RateLimiterBaseDelay (DefaultControllerRateLimiter opts)" "0 < RateLimiterMaxDelay (DefaultControllerRateLimiter opts)"
  "0 < RateLimiterQPS (DefaultControllerRateLimiter opts)" "0 < RateLimiterBucketSize (DefaultControllerRateLimiter opts)"
  by (simp_all add: DefaultControllerRateLimiter_def Let_def ms_def sec_def)

text \<open>Setting the zero options to their defaults gives the values of the flags.\<close>

lemma limiter_defaults_are_flags: "DefaultControllerRateLimiter (RateLimiterOpts NewOptions) = limiterFlags (RateLimiterOpts NewOptions)"
  by (simp add: DefaultControllerRateLimiter_def limiterFlags_def NewOptions_def Let_def)

text \<open>
  The delays of the limiter are positive, grow with the number of failures and stay within the
  maximum.
\<close>

lemma delays_grow:
  fixes opts
  defines "D \<equiv> exponentialDelay (DefaultControllerRateLimiter opts)"
  assumes "RateLimiterMaxDelay (DefaultControllerRateLimiter opts) \<le> 9223372036854775807"
  shows "0 < D n" and "D n \<le> RateLimiterMaxDelay (DefaultControllerRateLimiter opts)" and "D n \<le> D (Suc n)"
proof -
  let ?o = "DefaultControllerRateLimiter opts"
  have D: "D n = min (RateLimiterMaxDelay ?o) (RateLimiterBaseDelay ?o * 2 ^ n)" for n
    using assms(2) by (auto simp: D_def exponentialDelay_def Let_def min_def)
  have pos: "0 < RateLimiterBaseDelay ?o * 2 ^ n" using limiter_defaults(1) by simp
  show "0 < D n" using pos limiter_defaults(2) by (simp add: D)
  show "D n \<le> RateLimiterMaxDelay ?o" by (simp add: D)
  have "RateLimiterBaseDelay ?o * 2 ^ n \<le> RateLimiterBaseDelay ?o * 2 ^ Suc n" using pos by simp
  then show "D n \<le> D (Suc n)" unfolding D by simp
qed

end
