(* ===== verification/Store.thy ===== *)
theory Store
  imports GoLib "HOL-Library.Sublist"
begin

text \<open>
  An explicit store for the deep copies of the API types: pointers, slices and maps are references
  into a heap, a type says where a value holds references, and the statements of the generated code
  are functions on values and heaps. A reading of a value gives its content and the cells it is in; a
  copier is deep when its copy has the same content, all of it in new cells. The statements are shown
  to be deep.
\<close>

section \<open>The store\<close>

text \<open>
  A value without references is an atom. A pointer refers to a box, a slice to its elements, a map to
  its entries; a struct is its fields. An address is a position in the heap, a new cell is put at its
  end.
\<close>

datatype gval = Atom string | Null | Ref nat | Rec "(string \<times> gval) list"

datatype cell = Box gval | Elems "gval list" | Entries "(string \<times> string) list"

type_synonym heap = "cell list"
type_synonym copier = "gval \<Rightarrow> heap \<Rightarrow> gval \<times> heap"

definition cell_at :: "heap \<Rightarrow> nat \<Rightarrow> cell option" where
  "cell_at h i = (if i < length h then Some (h ! i) else None)"

definition new_cell :: "cell \<Rightarrow> heap \<Rightarrow> gval \<times> heap" where
  "new_cell c h = (Ref (length h), h @ [c])"

section \<open>Types and what a value of a type holds\<close>

datatype ty = Plain | Pointer ty | Slice ty | StringMap | Struct "(string \<times> ty) list" | External string

text \<open>What a value holds, whatever the addresses: a nil, an atom, entries, or parts.\<close>

datatype content = Nothing | Leaf string | Table "(string \<times> string) list" | Parts "content list"

type_synonym reading = "(content \<times> nat list) option"

text \<open>The Kubernetes types: how their values are read, and their deep copies.\<close>

record externals =
  ext_reads :: "string \<Rightarrow> heap \<Rightarrow> gval \<Rightarrow> reading"
  ext_copy :: "string \<Rightarrow> copier"

text \<open>
  \<open>reads X t h v\<close>: the content of a value of type \<open>t\<close> and the addresses it is read from;
  \<open>None\<close> for a value that is not of the type.
\<close>

fun reads_all :: "(heap \<Rightarrow> gval \<Rightarrow> reading) \<Rightarrow> heap \<Rightarrow> gval list \<Rightarrow> (content list \<times> nat list) option" where
  "reads_all R h [] = Some ([], [])"
| "reads_all R h (v # vs) = (case (R h v, reads_all R h vs) of
     (Some (t, a), Some (ts, b)) \<Rightarrow> Some (t # ts, a @ b) | _ \<Rightarrow> None)"

fun reads :: "externals \<Rightarrow> ty \<Rightarrow> heap \<Rightarrow> gval \<Rightarrow> reading"
  and reads_fields :: "externals \<Rightarrow> (string \<times> ty) list \<Rightarrow> heap \<Rightarrow> (string \<times> gval) list \<Rightarrow> (content list \<times> nat list) option" where
  "reads X Plain h v = (case v of Atom s \<Rightarrow> Some (Leaf s, []) | _ \<Rightarrow> None)"
| "reads X (Pointer t) h v = (case v of
     Null \<Rightarrow> Some (Nothing, [])
   | Ref i \<Rightarrow> (case cell_at h i of
       Some (Box x) \<Rightarrow> map_option (\<lambda>(c, a). (Parts [c], i # a)) (reads X t h x)
     | _ \<Rightarrow> None)
   | _ \<Rightarrow> None)"
| "reads X (Slice t) h v = (case v of
     Null \<Rightarrow> Some (Nothing, [])
   | Ref i \<Rightarrow> (case cell_at h i of
       Some (Elems vs) \<Rightarrow> map_option (\<lambda>(cs, a). (Parts cs, i # a)) (reads_all (reads X t) h vs)
     | _ \<Rightarrow> None)
   | _ \<Rightarrow> None)"
| "reads X StringMap h v = (case v of
     Null \<Rightarrow> Some (Nothing, [])
   | Ref i \<Rightarrow> (case cell_at h i of
       Some (Entries es) \<Rightarrow> if distinct (map fst es) then Some (Table es, [i]) else None
     | _ \<Rightarrow> None)
   | _ \<Rightarrow> None)"
| "reads X (Struct fts) h v = (case v of
     Rec fs \<Rightarrow> map_option (\<lambda>(cs, a). (Parts cs, a)) (reads_fields X fts h fs)
   | _ \<Rightarrow> None)"
| "reads X (External n) h v = ext_reads X n h v"
| "reads_fields X [] h fs = (if fs = [] then Some ([], []) else None)"
| "reads_fields X ((n, t) # fts) h fs = (case fs of
     (m, v) # fs' \<Rightarrow> if m = n then (case (reads X t h v, reads_fields X fts h fs') of
         (Some (c, a), Some (cs, b)) \<Rightarrow> Some (c # cs, a @ b) | _ \<Rightarrow> None) else None
   | [] \<Rightarrow> None)"

section \<open>The statements of the generated code\<close>

text \<open>\<open>*out = *in\<close>\<close>

definition assign :: copier where
  "assign v h = (v, h)"

text \<open>
  \<open>*out = new(T); (*in).DeepCopyInto(*out)\<close> unless \<open>in\<close> is nil; with \<open>assign\<close> the body is
  \<open>**out = **in\<close>. The cell is put into the heap when its content is complete.
\<close>

definition copyPointer :: "copier \<Rightarrow> copier" where
  "copyPointer c v h = (case v of
     Ref i \<Rightarrow> (case cell_at h i of
       Some (Box x) \<Rightarrow> (let (x', h') = c x h in new_cell (Box x') h')
     | _ \<Rightarrow> (v, h))
   | _ \<Rightarrow> (v, h))"

fun copyElems :: "copier \<Rightarrow> gval list \<Rightarrow> heap \<Rightarrow> gval list \<times> heap" where
  "copyElems c [] h = ([], h)"
| "copyElems c (v # vs) h = (let (v', h1) = c v h; (vs', h2) = copyElems c vs h1 in (v' # vs', h2))"

text \<open>\<open>make\<close> and the loop over the elements, or \<open>copy\<close>.\<close>

definition copySlice :: "copier \<Rightarrow> copier" where
  "copySlice c v h = (case v of
     Ref i \<Rightarrow> (case cell_at h i of
       Some (Elems vs) \<Rightarrow> (let (vs', h') = copyElems c vs h in new_cell (Elems vs') h')
     | _ \<Rightarrow> (v, h))
   | _ \<Rightarrow> (v, h))"

definition copyMap :: copier where
  "copyMap v h = (case v of
     Ref i \<Rightarrow> (case cell_at h i of
       Some (Entries es) \<Rightarrow> new_cell (Entries (fold (\<lambda>(k, x) out. AList.update k x out) es [])) h
     | _ \<Rightarrow> (v, h))
   | _ \<Rightarrow> (v, h))"

text \<open>
  A struct: first \<open>*out = *in\<close>, then the listed fields; the generator writes them in the order of
  the declaration.
\<close>

fun copyFields :: "(string \<times> copier) list \<Rightarrow> (string \<times> gval) list \<Rightarrow> heap \<Rightarrow> (string \<times> gval) list \<times> heap" where
  "copyFields cs [] h = ([], h)"
| "copyFields cs ((n, v) # fs) h =
     (let (v', h1) = (case map_of cs n of Some c \<Rightarrow> c v h | None \<Rightarrow> assign v h);
          (fs', h2) = copyFields cs fs h1
      in ((n, v') # fs', h2))"

definition copyStruct :: "(string \<times> copier) list \<Rightarrow> copier" where
  "copyStruct cs v h = (case v of Rec fs \<Rightarrow> (let (fs', h') = copyFields cs fs h in (Rec fs', h')) | _ \<Rightarrow> (v, h))"

section \<open>Contracts\<close>

text \<open>
  A reading is local when it looks only at the addresses it reports. A copier is deep for a reading
  when it only adds cells, and the copy has the content of the original, all of it in new cells.
\<close>

definition is_local :: "(heap \<Rightarrow> gval \<Rightarrow> reading) \<Rightarrow> bool" where
  "is_local R \<longleftrightarrow> (\<forall>h v t a. R h v = Some (t, a) \<longrightarrow> (\<forall>i \<in> set a. i < length h) \<and>
     (\<forall>h'. (\<forall>i \<in> set a. cell_at h' i = cell_at h i) \<longrightarrow> R h' v = Some (t, a)))"

definition is_deep :: "(heap \<Rightarrow> gval \<Rightarrow> reading) \<Rightarrow> copier \<Rightarrow> bool" where
  "is_deep R c \<longleftrightarrow> (\<forall>h v t a v' h'. R h v = Some (t, a) \<longrightarrow> c v h = (v', h') \<longrightarrow>
     prefix h h' \<and> (\<exists>b. R h' v' = Some (t, b) \<and> (\<forall>i \<in> set b. length h \<le> i)))"

definition sound_externals :: "externals \<Rightarrow> bool" where
  "sound_externals X \<longleftrightarrow> (\<forall>n. is_local (ext_reads X n) \<and> is_deep (ext_reads X n) (ext_copy X n))"

lemma localD:
  assumes "is_local R" and "R h v = Some (t, a)"
  shows "i \<in> set a \<Longrightarrow> i < length h" and "(\<And>i. i \<in> set a \<Longrightarrow> cell_at h' i = cell_at h i) \<Longrightarrow> R h' v = Some (t, a)"
  using assms unfolding is_local_def by blast+

lemma deepD:
  assumes "is_deep R c" and "R h v = Some (t, a)" and "c v h = (v', h')"
  obtains b where "prefix h h'" "R h' v' = Some (t, b)" "\<forall>i \<in> set b. length h \<le> i"
  using assms unfolding is_deep_def by blast

lemma cell_at_prefix: "prefix h h' \<Longrightarrow> i < length h \<Longrightarrow> cell_at h' i = cell_at h i"
  by (auto simp: cell_at_def prefix_def nth_append)

lemma cell_at_append: "cell_at (h @ [c]) (length h) = Some c"
  by (simp add: cell_at_def)

lemma cell_at_update: "i \<noteq> j \<Longrightarrow> cell_at (h[i := c]) j = cell_at h j"
  by (simp add: cell_at_def)

text \<open>A reading survives new cells.\<close>

lemma local_prefix: "is_local R \<Longrightarrow> R h v = Some (t, a) \<Longrightarrow> prefix h h' \<Longrightarrow> R h' v = Some (t, a)"
  using localD cell_at_prefix by metis

subsection \<open>Readings are local\<close>

text \<open>A reading of parts: local, stated for a reading that returns a list of contents.\<close>

abbreviation local_at :: "(heap \<Rightarrow> ('c \<times> nat list) option) \<Rightarrow> heap \<Rightarrow> 'c \<Rightarrow> nat list \<Rightarrow> bool" where
  "local_at R h t a \<equiv> (\<forall>i \<in> set a. i < length h) \<and>
     (\<forall>h'. (\<forall>i \<in> set a. cell_at h' i = cell_at h i) \<longrightarrow> R h' = Some (t, a))"

lemma is_localI: "(\<And>h v t a. R h v = Some (t, a) \<Longrightarrow> local_at (\<lambda>h. R h v) h t a) \<Longrightarrow> is_local R"
  unfolding is_local_def by blast

lemma local_atD: "is_local R \<Longrightarrow> R h v = Some (t, a) \<Longrightarrow> local_at (\<lambda>h. R h v) h t a"
  unfolding is_local_def by blast

text \<open>Two readings in a row, and a reading behind a cell.\<close>

lemma local_at_both:
  assumes "local_at R h t a" and "local_at S h u b" and "\<And>h'. R h' = Some (t, a) \<Longrightarrow> S h' = Some (u, b) \<Longrightarrow> Q h' = Some (x, a @ b)"
  shows "local_at Q h x (a @ b)"
  using assms by (auto simp: ball_Un)

lemma local_at_cell:
  assumes "local_at R h t a" and "cell_at h i = Some c"
    and "\<And>h'. cell_at h' i = Some c \<Longrightarrow> R h' = Some (t, a) \<Longrightarrow> Q h' = Some (x, i # a)"
  shows "local_at Q h x (i # a)"
  using assms by (auto simp: cell_at_def split: if_splits)

lemma reads_all_local:
  assumes "is_local R" and "reads_all R h vs = Some (ts, a)"
  shows "local_at (\<lambda>h. reads_all R h vs) h ts a"
  using assms(2)
proof (induction vs arbitrary: ts a)
  case (Cons v vs)
  from Cons.prems obtain t a1 ts' b where v: "R h v = Some (t, a1)" and vs: "reads_all R h vs = Some (ts', b)"
    and eq: "ts = t # ts'" "a = a1 @ b" by (auto split: option.splits)
  show ?case unfolding eq
    by (rule local_at_both [OF local_atD [OF assms(1) v] Cons.IH [OF vs]]) simp
qed simp

lemma reads_fields_local:
  assumes "\<And>n t. (n, t) \<in> set fts \<Longrightarrow> is_local (reads X t)" and "reads_fields X fts h fs = Some (cs, a)"
  shows "local_at (\<lambda>h. reads_fields X fts h fs) h cs a"
  using assms
proof (induction fts arbitrary: fs cs a)
  case (Cons p fts)
  obtain n t where p: "p = (n, t)" by (cases p)
  from Cons.prems(2) p obtain v fs' c a1 cs' b where v: "reads X t h v = Some (c, a1)"
    and fs': "reads_fields X fts h fs' = Some (cs', b)" and eq: "fs = (n, v) # fs'" "cs = c # cs'" "a = a1 @ b"
    by (auto split: list.splits if_splits option.splits)
  have loc: "is_local (reads X t)" by (rule Cons.prems(1) [of n]) (simp add: p)
  have rest: "local_at (\<lambda>h. reads_fields X fts h fs') h cs' b"
    by (rule Cons.IH [OF _ fs']) (meson Cons.prems(1) list.set_intros(2))
  show ?case unfolding eq p by (rule local_at_both [OF local_atD [OF loc v] rest]) simp
qed (simp split: if_splits)

lemma reads_local:
  assumes "sound_externals X"
  shows "is_local (reads X t)"
proof (induction t)
  case Plain
  show ?case by (rule is_localI) (simp split: gval.splits)
next
  case (Pointer t)
  show ?case
  proof (rule is_localI)
    fix h v c a assume r: "reads X (Pointer t) h v = Some (c, a)"
    show "local_at (\<lambda>h. reads X (Pointer t) h v) h c a"
    proof (cases v)
      case (Ref i)
      with r obtain x c' a' where x: "cell_at h i = Some (Box x)" "reads X t h x = Some (c', a')"
        and eq: "c = Parts [c']" "a = i # a'" by (auto split: option.splits cell.splits)
      show ?thesis unfolding eq by (rule local_at_cell [OF local_atD [OF Pointer x(2)] x(1)]) (simp add: Ref)
    qed (use r in auto)
  qed
next
  case (Slice t)
  show ?case
  proof (rule is_localI)
    fix h v c a assume r: "reads X (Slice t) h v = Some (c, a)"
    show "local_at (\<lambda>h. reads X (Slice t) h v) h c a"
    proof (cases v)
      case (Ref i)
      with r obtain vs cs a' where x: "cell_at h i = Some (Elems vs)" "reads_all (reads X t) h vs = Some (cs, a')"
        and eq: "c = Parts cs" "a = i # a'" by (auto split: option.splits cell.splits)
      show ?thesis unfolding eq by (rule local_at_cell [OF reads_all_local [OF Slice x(2)] x(1)]) (simp add: Ref)
    qed (use r in auto)
  qed
next
  case StringMap
  show ?case by (rule is_localI) (auto simp: cell_at_def split: gval.splits option.splits cell.splits if_splits)
next
  case (Struct fts)
  then have all: "is_local (reads X t)" if "(n, t) \<in> set fts" for n t using that by fastforce
  show ?case
  proof (rule is_localI)
    fix h v c a assume "reads X (Struct fts) h v = Some (c, a)"
    then obtain fs cs where r: "v = Rec fs" "reads_fields X fts h fs = Some (cs, a)" "c = Parts cs"
      by (auto split: gval.splits)
    from reads_fields_local [OF all r(2)] r show "local_at (\<lambda>h. reads X (Struct fts) h v) h c a" by auto
  qed
next
  case (External n)
  have "reads X (External n) = ext_reads X n" by (simp add: fun_eq_iff)
  then show ?case using assms by (simp add: sound_externals_def)
qed

subsection \<open>The statements copy deeply\<close>

lemma is_deepI:
  assumes "\<And>h v t a v' h'. R h v = Some (t, a) \<Longrightarrow> c v h = (v', h') \<Longrightarrow>
    prefix h h' \<and> (\<exists>b. R h' v' = Some (t, b) \<and> (\<forall>i \<in> set b. length h \<le> i))"
  shows "is_deep R c"
  using assms unfolding is_deep_def by blast

text \<open>Types whose values hold no reference may be assigned.\<close>

fun reference_free :: "ty \<Rightarrow> bool" where
  "reference_free Plain = True"
| "reference_free (Struct fts) = list_all (\<lambda>(_, t). reference_free t) fts"
| "reference_free _ = False"

lemma reference_free_reads:
  "reference_free t \<Longrightarrow> reads X t h v = Some (c, a) \<Longrightarrow> a = []"
  "list_all (\<lambda>(_, t). reference_free t) fts \<Longrightarrow> reads_fields X fts h fs = Some (cs, a') \<Longrightarrow> a' = []"
proof (induction X t h v and X fts h fs arbitrary: c a and cs a' rule: reads_reads_fields.induct)
  case (5 X fts h v)
  then show ?case by (auto split: gval.splits)
next
  case (8 X n t fts h fs)
  then show ?case by (auto split: list.splits if_splits option.splits)
qed (auto split: gval.splits if_splits)

lemma assign_deep:
  assumes "reference_free t"
  shows "is_deep (reads X t) assign"
proof (rule is_deepI)
  fix h v c a v' h' assume "reads X t h v = Some (c, a)" "assign v h = (v', h')"
  with reference_free_reads(1) [OF assms, of X h v c a]
  show "prefix h h' \<and> (\<exists>b. reads X t h' v' = Some (c, b) \<and> (\<forall>i \<in> set b. length h \<le> i))"
    by (auto simp: assign_def)
qed

lemma copyPointer_deep:
  assumes "sound_externals X" and "is_deep (reads X t) c"
  shows "is_deep (reads X (Pointer t)) (copyPointer c)"
proof (rule is_deepI)
  fix h v u a v' h' assume r: "reads X (Pointer t) h v = Some (u, a)" and run: "copyPointer c v h = (v', h')"
  show "prefix h h' \<and> (\<exists>b. reads X (Pointer t) h' v' = Some (u, b) \<and> (\<forall>i \<in> set b. length h \<le> i))"
  proof (cases v)
    case (Ref i)
    with r obtain x u' a' where x: "cell_at h i = Some (Box x)" "reads X t h x = Some (u', a')" "u = Parts [u']"
      by (auto split: option.splits cell.splits)
    obtain x' h1 where c: "c x h = (x', h1)" by (cases "c x h")
    obtain b where b: "prefix h h1" "reads X t h1 x' = Some (u', b)" "\<forall>i \<in> set b. length h \<le> i"
      using deepD [OF assms(2) x(2) c] by blast
    have new: "v' = Ref (length h1)" "h' = h1 @ [Box x']" using run Ref x(1) c by (simp_all add: copyPointer_def new_cell_def)
    have "reads X t h' x' = Some (u', b)" using local_prefix [OF reads_local [OF assms(1)] b(2)] new by simp
    then have "reads X (Pointer t) h' v' = Some (u, length h1 # b)" using new x(3) by (simp add: cell_at_append)
    moreover have "prefix h h'" "length h \<le> length h1" using b(1) new by (auto simp: prefix_def)
    ultimately show ?thesis using b(3) by auto
  qed (use r run in \<open>auto simp: copyPointer_def\<close>)
qed

lemma copyElems_deep:
  assumes "is_local R" and "is_deep R c" and "reads_all R h vs = Some (us, a)" and "copyElems c vs h = (vs', h')"
  shows "prefix h h' \<and> (\<exists>b. reads_all R h' vs' = Some (us, b) \<and> (\<forall>i \<in> set b. length h \<le> i))"
  using assms(3,4)
proof (induction vs arbitrary: h us a vs' h')
  case (Cons v vs)
  from Cons.prems(1) obtain u a1 us' a2 where v: "R h v = Some (u, a1)" and vs: "reads_all R h vs = Some (us', a2)"
    and eq: "us = u # us'" by (auto split: option.splits)
  obtain v1 h1 where c: "c v h = (v1, h1)" by (cases "c v h")
  obtain vs1 h2 where cs: "copyElems c vs h1 = (vs1, h2)" by (cases "copyElems c vs h1")
  obtain b where b: "prefix h h1" "R h1 v1 = Some (u, b)" "\<forall>i \<in> set b. length h \<le> i"
    using deepD [OF assms(2) v c] by blast
  have "reads_all R h1 vs = Some (us', a2)"
    using reads_all_local [OF assms(1) vs] cell_at_prefix [OF b(1)] by blast
  from Cons.IH [OF this cs] obtain d where d: "prefix h1 h2" "reads_all R h2 vs1 = Some (us', d)" "\<forall>i \<in> set d. length h1 \<le> i"
    by blast
  have "R h2 v1 = Some (u, b)" using local_prefix [OF assms(1) b(2) d(1)] .
  then have "reads_all R h2 (v1 # vs1) = Some (us, b @ d)" using d(2) eq by simp
  moreover have "prefix h h2" "length h \<le> length h1" using b(1) d(1) by (auto simp: prefix_length_le)
  moreover have "vs' = v1 # vs1" "h' = h2" using Cons.prems(2) c cs by simp_all
  ultimately show ?case using b(3) d(3) by fastforce
qed simp

lemma copySlice_deep:
  assumes "sound_externals X" and "is_deep (reads X t) c"
  shows "is_deep (reads X (Slice t)) (copySlice c)"
proof (rule is_deepI)
  fix h v u a v' h' assume r: "reads X (Slice t) h v = Some (u, a)" and run: "copySlice c v h = (v', h')"
  show "prefix h h' \<and> (\<exists>b. reads X (Slice t) h' v' = Some (u, b) \<and> (\<forall>i \<in> set b. length h \<le> i))"
  proof (cases v)
    case (Ref i)
    with r obtain vs us a' where x: "cell_at h i = Some (Elems vs)" "reads_all (reads X t) h vs = Some (us, a')" "u = Parts us"
      by (auto split: option.splits cell.splits)
    note loc = reads_local [OF assms(1), of t]
    obtain vs' h1 where c: "copyElems c vs h = (vs', h1)" by (cases "copyElems c vs h")
    obtain b where b: "prefix h h1" "reads_all (reads X t) h1 vs' = Some (us, b)" "\<forall>i \<in> set b. length h \<le> i"
      using copyElems_deep [OF loc assms(2) x(2) c] by blast
    have new: "v' = Ref (length h1)" "h' = h1 @ [Elems vs']" using run Ref x(1) c by (simp_all add: copySlice_def new_cell_def)
    have "reads_all (reads X t) h' vs' = Some (us, b)"
      using reads_all_local [OF loc b(2)] cell_at_prefix [of h1 h'] new by simp
    then have "reads X (Slice t) h' v' = Some (u, length h1 # b)" using new x(3) by (simp add: cell_at_append)
    moreover have "prefix h h'" "length h \<le> length h1" using b(1) new by (auto simp: prefix_def)
    ultimately show ?thesis using b(3) by auto
  qed (use r run in \<open>auto simp: copySlice_def\<close>)
qed

lemma copied_entries:
  fixes es :: "(string \<times> string) list"
  shows "distinct (map fst es) \<Longrightarrow> fold (\<lambda>(k, x) out. AList.update k x out) es [] = es"
proof -
  have fresh: "k \<notin> fst ` set m \<Longrightarrow> AList.update k x m = m @ [(k, x)]" for k x and m :: "(string \<times> string) list"
    by (induction m) auto
  have "distinct (map fst (m @ es)) \<Longrightarrow> fold (\<lambda>(k, x) out. AList.update k x out) es m = m @ es" for m
  proof (induction es arbitrary: m)
    case (Cons e es)
    then show ?case using fresh [of "fst e" m "snd e"] Cons.IH [of "m @ [e]"] by (auto simp: case_prod_unfold)
  qed simp
  from this [of "[]"] show "distinct (map fst es) \<Longrightarrow> ?thesis" by simp
qed

lemma copyMap_deep: "is_deep (reads X StringMap) copyMap"
proof (rule is_deepI)
  fix h v u a v' h' assume r: "reads X StringMap h v = Some (u, a)" and run: "copyMap v h = (v', h')"
  show "prefix h h' \<and> (\<exists>b. reads X StringMap h' v' = Some (u, b) \<and> (\<forall>i \<in> set b. length h \<le> i))"
  proof (cases v)
    case (Ref i)
    with r obtain es where es: "cell_at h i = Some (Entries es)" "distinct (map fst es)" "u = Table es"
      by (auto split: option.splits cell.splits if_splits)
    then have "v' = Ref (length h)" "h' = h @ [Entries es]"
      using run Ref copied_entries [OF es(2)] by (simp_all add: copyMap_def new_cell_def)
    then show ?thesis using es by (simp add: cell_at_append)
  qed (use r run in \<open>auto simp: copyMap_def\<close>)
qed

text \<open>A struct: every field that may hold a reference has a statement that copies it deeply.\<close>

definition copies_fields :: "externals \<Rightarrow> (string \<times> copier) list \<Rightarrow> (string \<times> ty) list \<Rightarrow> bool" where
  "copies_fields X cs fts \<longleftrightarrow> (\<forall>(n, t) \<in> set fts. is_deep (reads X t) (case map_of cs n of Some c \<Rightarrow> c | None \<Rightarrow> assign))"

lemma copyFields_deep:
  assumes "sound_externals X" and "copies_fields X cs fts"
    and "reads_fields X fts h fs = Some (us, a)" and "copyFields cs fs h = (fs', h')"
  shows "prefix h h' \<and> (\<exists>b. reads_fields X fts h' fs' = Some (us, b) \<and> (\<forall>i \<in> set b. length h \<le> i))"
  using assms(2-4)
proof (induction fts arbitrary: h fs us a fs' h')
  case (Cons p fts)
  obtain n t where p: "p = (n, t)" by (cases p)
  from Cons.prems(2) p obtain v gs u a1 us' a2 where v: "reads X t h v = Some (u, a1)"
    and gs: "reads_fields X fts h gs = Some (us', a2)" and eq: "fs = (n, v) # gs" "us = u # us'"
    by (auto split: list.splits if_splits option.splits)
  let ?c = "case map_of cs n of Some c \<Rightarrow> c | None \<Rightarrow> assign"
  obtain v1 h1 where c: "?c v h = (v1, h1)" by (cases "?c v h")
  obtain gs1 h2 where cs: "copyFields cs gs h1 = (gs1, h2)" by (cases "copyFields cs gs h1")
  have "is_deep (reads X t) ?c" using Cons.prems(1) p by (simp add: copies_fields_def)
  from deepD [OF this v c] obtain b where
    b: "prefix h h1" "reads X t h1 v1 = Some (u, b)" "\<forall>i \<in> set b. length h \<le> i" by blast
  have "reads_fields X fts h1 gs = Some (us', a2)"
    using reads_fields_local [OF reads_local [OF assms(1)] gs] cell_at_prefix [OF b(1)] by blast
  moreover have "copies_fields X cs fts" using Cons.prems(1) by (simp add: copies_fields_def)
  ultimately obtain d where
    d: "prefix h1 h2" "reads_fields X fts h2 gs1 = Some (us', d)" "\<forall>i \<in> set d. length h1 \<le> i"
    using Cons.IH [OF _ _ cs] by blast
  have "reads X t h2 v1 = Some (u, b)" by (rule local_prefix [OF reads_local [OF assms(1)] b(2) d(1)])
  then have "reads_fields X (p # fts) h2 ((n, v1) # gs1) = Some (us, b @ d)" using d(2) eq p by simp
  moreover have "prefix h h2" "length h \<le> length h1" using b(1) d(1) by (auto simp: prefix_length_le)
  moreover have "fs' = (n, v1) # gs1" "h' = h2" using Cons.prems(3) c cs eq(1) by (cases "map_of cs n"; simp)+
  ultimately show ?case using b(3) d(3) by fastforce
qed (simp split: if_splits)

lemma copyStruct_deep:
  assumes "sound_externals X" and "copies_fields X cs fts"
  shows "is_deep (reads X (Struct fts)) (copyStruct cs)"
proof (rule is_deepI)
  fix h v u a v' h' assume r: "reads X (Struct fts) h v = Some (u, a)" and run: "copyStruct cs v h = (v', h')"
  from r obtain fs us where fs: "v = Rec fs" "reads_fields X fts h fs = Some (us, a)" "u = Parts us"
    by (auto split: gval.splits)
  obtain fs' h1 where c: "copyFields cs fs h = (fs', h1)" by (cases "copyFields cs fs h")
  from copyFields_deep [OF assms fs(2) c] run fs c
  show "prefix h h' \<and> (\<exists>b. reads X (Struct fts) h' v' = Some (u, b) \<and> (\<forall>i \<in> set b. length h \<le> i))"
    by (auto simp: copyStruct_def)
qed

lemma external_deep: "sound_externals X \<Longrightarrow> is_deep (reads X (External n)) (ext_copy X n)"
proof -
  have "reads X (External n) = ext_reads X n" by (simp add: fun_eq_iff)
  then show "sound_externals X \<Longrightarrow> ?thesis" by (simp add: sound_externals_def)
qed

lemmas deep_intros = copyPointer_deep copySlice_deep copyMap_deep copyStruct_deep external_deep

end
