(* ===== verification/DeepCopies.thy ===== *)
theory DeepCopies
  imports Store
begin

text \<open>
  The deep copies of the API types (\<open>api/v1beta1/zz_generated.deepcopy.go\<close>). The other theories
  treat objects as values, which is right only when the copies the controllers change share no memory
  with the objects of the informers' caches. The types say which fields hold references, the copy
  functions what the code copies. Shown: for every type the copy equals the original and shares no
  cell with it. The deep copies of the Kubernetes types are parameters with the same contract.
\<close>

named_theorems deep_types \<open>the deep copies of the API types\<close>

section \<open>The types\<close>

text \<open>The fields of the structs of \<open>api/v1beta1\<close>, and which of them hold references.\<close>

definition AutoReschedule_type :: ty where
  "AutoReschedule_type = Struct [(''Enable'', Plain), (''TimeoutSeconds'', Plain)]"

definition DeployRegionSpec_type :: ty where
  "DeployRegionSpec_type = Struct [(''MatchLabels'', StringMap)]"

definition DeployRegionStatus_type :: ty where
  "DeployRegionStatus_type = Struct []"

definition DeployRegion_type :: ty where
  "DeployRegion_type = Struct [(''TypeMeta'', Plain), (''ObjectMeta'', External ''ObjectMeta''),
     (''Spec'', DeployRegionSpec_type), (''Status'', DeployRegionStatus_type)]"

definition DeployRegionList_type :: ty where
  "DeployRegionList_type = Struct [(''TypeMeta'', Plain), (''ListMeta'', External ''ListMeta''),
     (''Items'', Slice DeployRegion_type)]"

definition InPlaceUpdateStrategy_type :: ty where
  "InPlaceUpdateStrategy_type = Struct [(''GracePeriodSeconds'', Plain)]"

definition InplaceUpdateStatus_type :: ty where
  "InplaceUpdateStatus_type = Struct [(''ReadyReplicas'', Plain), (''AvailableReplicas'', Plain),
     (''PodTemplateHash'', Plain)]"

definition InplaceSetUpdateStrategy_type :: ty where
  "InplaceSetUpdateStrategy_type = Struct [(''Type'', Plain),
     (''InPlaceUpdateStrategy'', Pointer InPlaceUpdateStrategy_type)]"

definition InplaceSetSpec_type :: ty where
  "InplaceSetSpec_type = Struct [(''Replicas'', Pointer Plain), (''MinReadySeconds'', Plain),
     (''UpdateStrategy'', InplaceSetUpdateStrategy_type),
     (''Selector'', Pointer (External ''LabelSelector'')),
     (''Template'', External ''PodTemplateSpec'')]"

definition InplaceSetStatus_type :: ty where
  "InplaceSetStatus_type = Struct [(''Replicas'', Plain), (''FullyLabeledReplicas'', Plain),
     (''InplaceUpdateStatus'', Pointer InplaceUpdateStatus_type), (''ReadyReplicas'', Plain),
     (''AvailableReplicas'', Plain), (''ObservedGeneration'', Plain),
     (''Conditions'', Slice (External ''ReplicaSetCondition''))]"

definition InplaceSet_type :: ty where
  "InplaceSet_type = Struct [(''TypeMeta'', Plain), (''ObjectMeta'', External ''ObjectMeta''),
     (''Spec'', InplaceSetSpec_type), (''Status'', InplaceSetStatus_type)]"

definition InplaceSetList_type :: ty where
  "InplaceSetList_type = Struct [(''TypeMeta'', Plain), (''ListMeta'', External ''ListMeta''),
     (''Items'', Slice InplaceSet_type)]"

definition PlaintextOverrider_type :: ty where
  "PlaintextOverrider_type = Struct [(''Path'', Plain), (''Operator'', Plain),
     (''Value'', External ''JSON'')]"

definition Overriders_type :: ty where
  "Overriders_type = Struct [(''Name'', Plain), (''Plaintext'', Slice PlaintextOverrider_type)]"

definition Region_type :: ty where
  "Region_type = Struct [(''Name'', Plain), (''Replicas'', Pointer Plain)]"

definition RegionStatus_type :: ty where
  "RegionStatus_type = Struct [(''RegionName'', Plain), (''Replicas'', Plain),
     (''UpdatedReplicas'', Plain), (''ReadyReplicas'', Plain), (''AvailableReplicas'', Plain),
     (''UnavailableReplicas'', Plain)]"

definition UpdateStrategy_type :: ty where
  "UpdateStrategy_type = Struct [(''Type'', Plain), (''GracePeriodSeconds'', Plain),
     (''RollingUpdate'', Pointer (External ''RollingUpdateDeployment''))]"

definition Strategy_type :: ty where
  "Strategy_type = Struct [(''BatchSize'', Plain), (''MinReadySeconds'', Plain),
     (''NeedWaitingForConfirm'', Plain), (''NeedFirstConfirm'', Plain),
     (''SyncWaitTimeout'', Plain), (''RolloutStrategy'', Plain), (''Pause'', Plain),
     (''AutoReschedule'', Pointer AutoReschedule_type),
     (''UpdateStrategy'', Pointer UpdateStrategy_type)]"

definition ExtendedDeploymentSpec_type :: ty where
  "ExtendedDeploymentSpec_type = Struct [(''HistoryLimit'', Plain),
     (''Selector'', Pointer (External ''LabelSelector'')), (''SubsetType'', Plain),
     (''Strategy'', Strategy_type), (''Template'', External ''PodTemplateSpec''),
     (''Replicas'', Pointer Plain), (''Regions'', Slice Region_type),
     (''Overriders'', Slice Overriders_type)]"

definition ExtendedDeploymentStatus_type :: ty where
  "ExtendedDeploymentStatus_type = Struct [(''Replicas'', Plain), (''LabelSelector'', Plain),
     (''Regions'', Slice RegionStatus_type),
     (''Conditions'', Slice (External ''DeploymentCondition'')),
     (''CollisionCount'', Pointer Plain), (''Overview'', Plain), (''LastTermStartTime'', Plain)]"

definition ExtendedDeployment_type :: ty where
  "ExtendedDeployment_type = Struct [(''TypeMeta'', Plain),
     (''ObjectMeta'', External ''ObjectMeta''), (''Spec'', ExtendedDeploymentSpec_type),
     (''Status'', ExtendedDeploymentStatus_type)]"

definition ExtendedDeploymentList_type :: ty where
  "ExtendedDeploymentList_type = Struct [(''TypeMeta'', Plain),
     (''ListMeta'', External ''ListMeta''), (''Items'', Slice ExtendedDeployment_type)]"

lemmas type_defs =
  AutoReschedule_type_def DeployRegionSpec_type_def DeployRegionStatus_type_def
  DeployRegion_type_def DeployRegionList_type_def InPlaceUpdateStrategy_type_def
  InplaceUpdateStatus_type_def InplaceSetUpdateStrategy_type_def InplaceSetSpec_type_def
  InplaceSetStatus_type_def InplaceSet_type_def InplaceSetList_type_def PlaintextOverrider_type_def
  Overriders_type_def Region_type_def RegionStatus_type_def UpdateStrategy_type_def
  Strategy_type_def ExtendedDeploymentSpec_type_def ExtendedDeploymentStatus_type_def
  ExtendedDeployment_type_def ExtendedDeploymentList_type_def

section \<open>The copies\<close>

definition AutoReschedule_DeepCopyInto :: "externals \<Rightarrow> copier" where
  "AutoReschedule_DeepCopyInto X = copyStruct []"

definition DeployRegionSpec_DeepCopyInto :: "externals \<Rightarrow> copier" where
  "DeployRegionSpec_DeepCopyInto X = copyStruct [(''MatchLabels'', copyMap)]"

definition DeployRegionStatus_DeepCopyInto :: "externals \<Rightarrow> copier" where
  "DeployRegionStatus_DeepCopyInto X = copyStruct []"

definition DeployRegion_DeepCopyInto :: "externals \<Rightarrow> copier" where
  "DeployRegion_DeepCopyInto X = copyStruct [(''TypeMeta'', assign),
     (''ObjectMeta'', ext_copy X ''ObjectMeta''), (''Spec'', DeployRegionSpec_DeepCopyInto X),
     (''Status'', assign)]"

definition DeployRegionList_DeepCopyInto :: "externals \<Rightarrow> copier" where
  "DeployRegionList_DeepCopyInto X = copyStruct [(''TypeMeta'', assign),
     (''ListMeta'', ext_copy X ''ListMeta''),
     (''Items'', copySlice (DeployRegion_DeepCopyInto X))]"

definition InPlaceUpdateStrategy_DeepCopyInto :: "externals \<Rightarrow> copier" where
  "InPlaceUpdateStrategy_DeepCopyInto X = copyStruct []"

definition InplaceUpdateStatus_DeepCopyInto :: "externals \<Rightarrow> copier" where
  "InplaceUpdateStatus_DeepCopyInto X = copyStruct []"

definition InplaceSetUpdateStrategy_DeepCopyInto :: "externals \<Rightarrow> copier" where
  "InplaceSetUpdateStrategy_DeepCopyInto X = copyStruct [(''InPlaceUpdateStrategy'', copyPointer assign)]"

definition InplaceSetSpec_DeepCopyInto :: "externals \<Rightarrow> copier" where
  "InplaceSetSpec_DeepCopyInto X = copyStruct [(''Replicas'', copyPointer assign),
     (''UpdateStrategy'', InplaceSetUpdateStrategy_DeepCopyInto X),
     (''Selector'', copyPointer (ext_copy X ''LabelSelector'')),
     (''Template'', ext_copy X ''PodTemplateSpec'')]"

definition InplaceSetStatus_DeepCopyInto :: "externals \<Rightarrow> copier" where
  "InplaceSetStatus_DeepCopyInto X = copyStruct [(''InplaceUpdateStatus'', copyPointer assign),
     (''Conditions'', copySlice (ext_copy X ''ReplicaSetCondition''))]"

definition InplaceSet_DeepCopyInto :: "externals \<Rightarrow> copier" where
  "InplaceSet_DeepCopyInto X = copyStruct [(''TypeMeta'', assign),
     (''ObjectMeta'', ext_copy X ''ObjectMeta''), (''Spec'', InplaceSetSpec_DeepCopyInto X),
     (''Status'', InplaceSetStatus_DeepCopyInto X)]"

definition InplaceSetList_DeepCopyInto :: "externals \<Rightarrow> copier" where
  "InplaceSetList_DeepCopyInto X = copyStruct [(''TypeMeta'', assign),
     (''ListMeta'', ext_copy X ''ListMeta''), (''Items'', copySlice (InplaceSet_DeepCopyInto X))]"

definition PlaintextOverrider_DeepCopyInto :: "externals \<Rightarrow> copier" where
  "PlaintextOverrider_DeepCopyInto X = copyStruct [(''Value'', ext_copy X ''JSON'')]"

definition Overriders_DeepCopyInto :: "externals \<Rightarrow> copier" where
  "Overriders_DeepCopyInto X = copyStruct [(''Plaintext'', copySlice (PlaintextOverrider_DeepCopyInto X))]"

definition Region_DeepCopyInto :: "externals \<Rightarrow> copier" where
  "Region_DeepCopyInto X = copyStruct [(''Replicas'', copyPointer assign)]"

definition RegionStatus_DeepCopyInto :: "externals \<Rightarrow> copier" where
  "RegionStatus_DeepCopyInto X = copyStruct []"

definition UpdateStrategy_DeepCopyInto :: "externals \<Rightarrow> copier" where
  "UpdateStrategy_DeepCopyInto X = copyStruct [(''RollingUpdate'', copyPointer (ext_copy X ''RollingUpdateDeployment''))]"

definition Strategy_DeepCopyInto :: "externals \<Rightarrow> copier" where
  "Strategy_DeepCopyInto X = copyStruct [(''AutoReschedule'', copyPointer assign),
     (''UpdateStrategy'', copyPointer (UpdateStrategy_DeepCopyInto X))]"

definition ExtendedDeploymentSpec_DeepCopyInto :: "externals \<Rightarrow> copier" where
  "ExtendedDeploymentSpec_DeepCopyInto X = copyStruct [(''Selector'', copyPointer (ext_copy X ''LabelSelector'')),
     (''Strategy'', Strategy_DeepCopyInto X), (''Template'', ext_copy X ''PodTemplateSpec''),
     (''Replicas'', copyPointer assign), (''Regions'', copySlice (Region_DeepCopyInto X)),
     (''Overriders'', copySlice (Overriders_DeepCopyInto X))]"

definition ExtendedDeploymentStatus_DeepCopyInto :: "externals \<Rightarrow> copier" where
  "ExtendedDeploymentStatus_DeepCopyInto X = copyStruct [(''Regions'', copySlice assign),
     (''Conditions'', copySlice (ext_copy X ''DeploymentCondition'')),
     (''CollisionCount'', copyPointer assign)]"

definition ExtendedDeployment_DeepCopyInto :: "externals \<Rightarrow> copier" where
  "ExtendedDeployment_DeepCopyInto X = copyStruct [(''TypeMeta'', assign),
     (''ObjectMeta'', ext_copy X ''ObjectMeta''),
     (''Spec'', ExtendedDeploymentSpec_DeepCopyInto X),
     (''Status'', ExtendedDeploymentStatus_DeepCopyInto X)]"

definition ExtendedDeploymentList_DeepCopyInto :: "externals \<Rightarrow> copier" where
  "ExtendedDeploymentList_DeepCopyInto X = copyStruct [(''TypeMeta'', assign),
     (''ListMeta'', ext_copy X ''ListMeta''),
     (''Items'', copySlice (ExtendedDeployment_DeepCopyInto X))]"

text \<open>
  \<open>DeepCopy\<close> returns nil for nil, else a pointer to a new copy; \<open>DeepCopyObject\<close> the same as an
  interface.
\<close>

definition AutoReschedule_DeepCopy :: "externals \<Rightarrow> copier" where
  "AutoReschedule_DeepCopy X = copyPointer (AutoReschedule_DeepCopyInto X)"

definition DeployRegionSpec_DeepCopy :: "externals \<Rightarrow> copier" where
  "DeployRegionSpec_DeepCopy X = copyPointer (DeployRegionSpec_DeepCopyInto X)"

definition DeployRegionStatus_DeepCopy :: "externals \<Rightarrow> copier" where
  "DeployRegionStatus_DeepCopy X = copyPointer (DeployRegionStatus_DeepCopyInto X)"

definition DeployRegion_DeepCopy :: "externals \<Rightarrow> copier" where
  "DeployRegion_DeepCopy X = copyPointer (DeployRegion_DeepCopyInto X)"

definition DeployRegionList_DeepCopy :: "externals \<Rightarrow> copier" where
  "DeployRegionList_DeepCopy X = copyPointer (DeployRegionList_DeepCopyInto X)"

definition InPlaceUpdateStrategy_DeepCopy :: "externals \<Rightarrow> copier" where
  "InPlaceUpdateStrategy_DeepCopy X = copyPointer (InPlaceUpdateStrategy_DeepCopyInto X)"

definition InplaceUpdateStatus_DeepCopy :: "externals \<Rightarrow> copier" where
  "InplaceUpdateStatus_DeepCopy X = copyPointer (InplaceUpdateStatus_DeepCopyInto X)"

definition InplaceSetUpdateStrategy_DeepCopy :: "externals \<Rightarrow> copier" where
  "InplaceSetUpdateStrategy_DeepCopy X = copyPointer (InplaceSetUpdateStrategy_DeepCopyInto X)"

definition InplaceSetSpec_DeepCopy :: "externals \<Rightarrow> copier" where
  "InplaceSetSpec_DeepCopy X = copyPointer (InplaceSetSpec_DeepCopyInto X)"

definition InplaceSetStatus_DeepCopy :: "externals \<Rightarrow> copier" where
  "InplaceSetStatus_DeepCopy X = copyPointer (InplaceSetStatus_DeepCopyInto X)"

definition InplaceSet_DeepCopy :: "externals \<Rightarrow> copier" where
  "InplaceSet_DeepCopy X = copyPointer (InplaceSet_DeepCopyInto X)"

definition InplaceSetList_DeepCopy :: "externals \<Rightarrow> copier" where
  "InplaceSetList_DeepCopy X = copyPointer (InplaceSetList_DeepCopyInto X)"

definition PlaintextOverrider_DeepCopy :: "externals \<Rightarrow> copier" where
  "PlaintextOverrider_DeepCopy X = copyPointer (PlaintextOverrider_DeepCopyInto X)"

definition Overriders_DeepCopy :: "externals \<Rightarrow> copier" where
  "Overriders_DeepCopy X = copyPointer (Overriders_DeepCopyInto X)"

definition Region_DeepCopy :: "externals \<Rightarrow> copier" where
  "Region_DeepCopy X = copyPointer (Region_DeepCopyInto X)"

definition RegionStatus_DeepCopy :: "externals \<Rightarrow> copier" where
  "RegionStatus_DeepCopy X = copyPointer (RegionStatus_DeepCopyInto X)"

definition UpdateStrategy_DeepCopy :: "externals \<Rightarrow> copier" where
  "UpdateStrategy_DeepCopy X = copyPointer (UpdateStrategy_DeepCopyInto X)"

definition Strategy_DeepCopy :: "externals \<Rightarrow> copier" where
  "Strategy_DeepCopy X = copyPointer (Strategy_DeepCopyInto X)"

definition ExtendedDeploymentSpec_DeepCopy :: "externals \<Rightarrow> copier" where
  "ExtendedDeploymentSpec_DeepCopy X = copyPointer (ExtendedDeploymentSpec_DeepCopyInto X)"

definition ExtendedDeploymentStatus_DeepCopy :: "externals \<Rightarrow> copier" where
  "ExtendedDeploymentStatus_DeepCopy X = copyPointer (ExtendedDeploymentStatus_DeepCopyInto X)"

definition ExtendedDeployment_DeepCopy :: "externals \<Rightarrow> copier" where
  "ExtendedDeployment_DeepCopy X = copyPointer (ExtendedDeployment_DeepCopyInto X)"

definition ExtendedDeploymentList_DeepCopy :: "externals \<Rightarrow> copier" where
  "ExtendedDeploymentList_DeepCopy X = copyPointer (ExtendedDeploymentList_DeepCopyInto X)"

definition DeployRegion_DeepCopyObject :: "externals \<Rightarrow> copier" where
  "DeployRegion_DeepCopyObject X = DeployRegion_DeepCopy X"

definition DeployRegionList_DeepCopyObject :: "externals \<Rightarrow> copier" where
  "DeployRegionList_DeepCopyObject X = DeployRegionList_DeepCopy X"

definition ExtendedDeployment_DeepCopyObject :: "externals \<Rightarrow> copier" where
  "ExtendedDeployment_DeepCopyObject X = ExtendedDeployment_DeepCopy X"

definition ExtendedDeploymentList_DeepCopyObject :: "externals \<Rightarrow> copier" where
  "ExtendedDeploymentList_DeepCopyObject X = ExtendedDeploymentList_DeepCopy X"

definition InplaceSet_DeepCopyObject :: "externals \<Rightarrow> copier" where
  "InplaceSet_DeepCopyObject X = InplaceSet_DeepCopy X"

definition InplaceSetList_DeepCopyObject :: "externals \<Rightarrow> copier" where
  "InplaceSetList_DeepCopyObject X = InplaceSetList_DeepCopy X"

lemmas copy_defs =
  AutoReschedule_DeepCopy_def DeployRegionSpec_DeepCopy_def DeployRegionStatus_DeepCopy_def
  DeployRegion_DeepCopy_def DeployRegionList_DeepCopy_def InPlaceUpdateStrategy_DeepCopy_def
  InplaceUpdateStatus_DeepCopy_def InplaceSetUpdateStrategy_DeepCopy_def InplaceSetSpec_DeepCopy_def
  InplaceSetStatus_DeepCopy_def InplaceSet_DeepCopy_def InplaceSetList_DeepCopy_def
  PlaintextOverrider_DeepCopy_def Overriders_DeepCopy_def Region_DeepCopy_def
  RegionStatus_DeepCopy_def UpdateStrategy_DeepCopy_def Strategy_DeepCopy_def
  ExtendedDeploymentSpec_DeepCopy_def ExtendedDeploymentStatus_DeepCopy_def
  ExtendedDeployment_DeepCopy_def ExtendedDeploymentList_DeepCopy_def
  DeployRegion_DeepCopyObject_def DeployRegionList_DeepCopyObject_def
  ExtendedDeployment_DeepCopyObject_def ExtendedDeploymentList_DeepCopyObject_def
  InplaceSet_DeepCopyObject_def InplaceSetList_DeepCopyObject_def

section \<open>Every copy is deep\<close>

lemma reference_free_types [simp]:
  "reference_free AutoReschedule_type" "reference_free DeployRegionStatus_type" "reference_free InPlaceUpdateStrategy_type"
  "reference_free InplaceUpdateStatus_type" "reference_free RegionStatus_type"
  by (simp_all add: type_defs)

lemma AutoReschedule_deep [deep_types]:
  "sound_externals X \<Longrightarrow> is_deep (reads X AutoReschedule_type) (AutoReschedule_DeepCopyInto X)"
  unfolding AutoReschedule_type_def AutoReschedule_DeepCopyInto_def
  by (auto simp: copies_fields_def intro!: deep_intros assign_deep deep_types)

lemma DeployRegionSpec_deep [deep_types]:
  "sound_externals X \<Longrightarrow> is_deep (reads X DeployRegionSpec_type) (DeployRegionSpec_DeepCopyInto X)"
  unfolding DeployRegionSpec_type_def DeployRegionSpec_DeepCopyInto_def
  by (auto simp: copies_fields_def intro!: deep_intros assign_deep deep_types)

lemma DeployRegionStatus_deep [deep_types]:
  "sound_externals X \<Longrightarrow> is_deep (reads X DeployRegionStatus_type) (DeployRegionStatus_DeepCopyInto X)"
  unfolding DeployRegionStatus_type_def DeployRegionStatus_DeepCopyInto_def
  by (auto simp: copies_fields_def intro!: deep_intros assign_deep deep_types)

lemma DeployRegion_deep [deep_types]:
  "sound_externals X \<Longrightarrow> is_deep (reads X DeployRegion_type) (DeployRegion_DeepCopyInto X)"
  unfolding DeployRegion_type_def DeployRegion_DeepCopyInto_def
  by (auto simp: copies_fields_def intro!: deep_intros assign_deep deep_types)

lemma DeployRegionList_deep [deep_types]:
  "sound_externals X \<Longrightarrow> is_deep (reads X DeployRegionList_type) (DeployRegionList_DeepCopyInto X)"
  unfolding DeployRegionList_type_def DeployRegionList_DeepCopyInto_def
  by (auto simp: copies_fields_def intro!: deep_intros assign_deep deep_types)

lemma InPlaceUpdateStrategy_deep [deep_types]:
  "sound_externals X \<Longrightarrow> is_deep (reads X InPlaceUpdateStrategy_type) (InPlaceUpdateStrategy_DeepCopyInto X)"
  unfolding InPlaceUpdateStrategy_type_def InPlaceUpdateStrategy_DeepCopyInto_def
  by (auto simp: copies_fields_def intro!: deep_intros assign_deep deep_types)

lemma InplaceUpdateStatus_deep [deep_types]:
  "sound_externals X \<Longrightarrow> is_deep (reads X InplaceUpdateStatus_type) (InplaceUpdateStatus_DeepCopyInto X)"
  unfolding InplaceUpdateStatus_type_def InplaceUpdateStatus_DeepCopyInto_def
  by (auto simp: copies_fields_def intro!: deep_intros assign_deep deep_types)

lemma InplaceSetUpdateStrategy_deep [deep_types]:
  "sound_externals X \<Longrightarrow> is_deep (reads X InplaceSetUpdateStrategy_type) (InplaceSetUpdateStrategy_DeepCopyInto X)"
  unfolding InplaceSetUpdateStrategy_type_def InplaceSetUpdateStrategy_DeepCopyInto_def
  by (auto simp: copies_fields_def intro!: deep_intros assign_deep deep_types)

lemma InplaceSetSpec_deep [deep_types]:
  "sound_externals X \<Longrightarrow> is_deep (reads X InplaceSetSpec_type) (InplaceSetSpec_DeepCopyInto X)"
  unfolding InplaceSetSpec_type_def InplaceSetSpec_DeepCopyInto_def
  by (auto simp: copies_fields_def intro!: deep_intros assign_deep deep_types)

lemma InplaceSetStatus_deep [deep_types]:
  "sound_externals X \<Longrightarrow> is_deep (reads X InplaceSetStatus_type) (InplaceSetStatus_DeepCopyInto X)"
  unfolding InplaceSetStatus_type_def InplaceSetStatus_DeepCopyInto_def
  by (auto simp: copies_fields_def intro!: deep_intros assign_deep deep_types)

lemma InplaceSet_deep [deep_types]:
  "sound_externals X \<Longrightarrow> is_deep (reads X InplaceSet_type) (InplaceSet_DeepCopyInto X)"
  unfolding InplaceSet_type_def InplaceSet_DeepCopyInto_def
  by (auto simp: copies_fields_def intro!: deep_intros assign_deep deep_types)

lemma InplaceSetList_deep [deep_types]:
  "sound_externals X \<Longrightarrow> is_deep (reads X InplaceSetList_type) (InplaceSetList_DeepCopyInto X)"
  unfolding InplaceSetList_type_def InplaceSetList_DeepCopyInto_def
  by (auto simp: copies_fields_def intro!: deep_intros assign_deep deep_types)

lemma PlaintextOverrider_deep [deep_types]:
  "sound_externals X \<Longrightarrow> is_deep (reads X PlaintextOverrider_type) (PlaintextOverrider_DeepCopyInto X)"
  unfolding PlaintextOverrider_type_def PlaintextOverrider_DeepCopyInto_def
  by (auto simp: copies_fields_def intro!: deep_intros assign_deep deep_types)

lemma Overriders_deep [deep_types]:
  "sound_externals X \<Longrightarrow> is_deep (reads X Overriders_type) (Overriders_DeepCopyInto X)"
  unfolding Overriders_type_def Overriders_DeepCopyInto_def
  by (auto simp: copies_fields_def intro!: deep_intros assign_deep deep_types)

lemma Region_deep [deep_types]:
  "sound_externals X \<Longrightarrow> is_deep (reads X Region_type) (Region_DeepCopyInto X)"
  unfolding Region_type_def Region_DeepCopyInto_def
  by (auto simp: copies_fields_def intro!: deep_intros assign_deep deep_types)

lemma RegionStatus_deep [deep_types]:
  "sound_externals X \<Longrightarrow> is_deep (reads X RegionStatus_type) (RegionStatus_DeepCopyInto X)"
  unfolding RegionStatus_type_def RegionStatus_DeepCopyInto_def
  by (auto simp: copies_fields_def intro!: deep_intros assign_deep deep_types)

lemma UpdateStrategy_deep [deep_types]:
  "sound_externals X \<Longrightarrow> is_deep (reads X UpdateStrategy_type) (UpdateStrategy_DeepCopyInto X)"
  unfolding UpdateStrategy_type_def UpdateStrategy_DeepCopyInto_def
  by (auto simp: copies_fields_def intro!: deep_intros assign_deep deep_types)

lemma Strategy_deep [deep_types]:
  "sound_externals X \<Longrightarrow> is_deep (reads X Strategy_type) (Strategy_DeepCopyInto X)"
  unfolding Strategy_type_def Strategy_DeepCopyInto_def
  by (auto simp: copies_fields_def intro!: deep_intros assign_deep deep_types)

lemma ExtendedDeploymentSpec_deep [deep_types]:
  "sound_externals X \<Longrightarrow> is_deep (reads X ExtendedDeploymentSpec_type) (ExtendedDeploymentSpec_DeepCopyInto X)"
  unfolding ExtendedDeploymentSpec_type_def ExtendedDeploymentSpec_DeepCopyInto_def
  by (auto simp: copies_fields_def intro!: deep_intros assign_deep deep_types)

lemma ExtendedDeploymentStatus_deep [deep_types]:
  "sound_externals X \<Longrightarrow> is_deep (reads X ExtendedDeploymentStatus_type) (ExtendedDeploymentStatus_DeepCopyInto X)"
  unfolding ExtendedDeploymentStatus_type_def ExtendedDeploymentStatus_DeepCopyInto_def
  by (auto simp: copies_fields_def intro!: deep_intros assign_deep deep_types)

lemma ExtendedDeployment_deep [deep_types]:
  "sound_externals X \<Longrightarrow> is_deep (reads X ExtendedDeployment_type) (ExtendedDeployment_DeepCopyInto X)"
  unfolding ExtendedDeployment_type_def ExtendedDeployment_DeepCopyInto_def
  by (auto simp: copies_fields_def intro!: deep_intros assign_deep deep_types)

lemma ExtendedDeploymentList_deep [deep_types]:
  "sound_externals X \<Longrightarrow> is_deep (reads X ExtendedDeploymentList_type) (ExtendedDeploymentList_DeepCopyInto X)"
  unfolding ExtendedDeploymentList_type_def ExtendedDeploymentList_DeepCopyInto_def
  by (auto simp: copies_fields_def intro!: deep_intros assign_deep deep_types)

datatype api_type = AutoReschedule_T | DeployRegionSpec_T | DeployRegionStatus_T | DeployRegion_T
  | DeployRegionList_T | InPlaceUpdateStrategy_T | InplaceUpdateStatus_T
  | InplaceSetUpdateStrategy_T | InplaceSetSpec_T | InplaceSetStatus_T | InplaceSet_T
  | InplaceSetList_T | PlaintextOverrider_T | Overriders_T | Region_T | RegionStatus_T
  | UpdateStrategy_T | Strategy_T | ExtendedDeploymentSpec_T | ExtendedDeploymentStatus_T
  | ExtendedDeployment_T | ExtendedDeploymentList_T

fun schema :: "api_type \<Rightarrow> ty" where
  "schema AutoReschedule_T = AutoReschedule_type"
| "schema DeployRegionSpec_T = DeployRegionSpec_type"
| "schema DeployRegionStatus_T = DeployRegionStatus_type"
| "schema DeployRegion_T = DeployRegion_type"
| "schema DeployRegionList_T = DeployRegionList_type"
| "schema InPlaceUpdateStrategy_T = InPlaceUpdateStrategy_type"
| "schema InplaceUpdateStatus_T = InplaceUpdateStatus_type"
| "schema InplaceSetUpdateStrategy_T = InplaceSetUpdateStrategy_type"
| "schema InplaceSetSpec_T = InplaceSetSpec_type"
| "schema InplaceSetStatus_T = InplaceSetStatus_type"
| "schema InplaceSet_T = InplaceSet_type"
| "schema InplaceSetList_T = InplaceSetList_type"
| "schema PlaintextOverrider_T = PlaintextOverrider_type"
| "schema Overriders_T = Overriders_type"
| "schema Region_T = Region_type"
| "schema RegionStatus_T = RegionStatus_type"
| "schema UpdateStrategy_T = UpdateStrategy_type"
| "schema Strategy_T = Strategy_type"
| "schema ExtendedDeploymentSpec_T = ExtendedDeploymentSpec_type"
| "schema ExtendedDeploymentStatus_T = ExtendedDeploymentStatus_type"
| "schema ExtendedDeployment_T = ExtendedDeployment_type"
| "schema ExtendedDeploymentList_T = ExtendedDeploymentList_type"

fun deepCopy :: "externals \<Rightarrow> api_type \<Rightarrow> copier" where
  "deepCopy X AutoReschedule_T = AutoReschedule_DeepCopy X"
| "deepCopy X DeployRegionSpec_T = DeployRegionSpec_DeepCopy X"
| "deepCopy X DeployRegionStatus_T = DeployRegionStatus_DeepCopy X"
| "deepCopy X DeployRegion_T = DeployRegion_DeepCopyObject X"
| "deepCopy X DeployRegionList_T = DeployRegionList_DeepCopyObject X"
| "deepCopy X InPlaceUpdateStrategy_T = InPlaceUpdateStrategy_DeepCopy X"
| "deepCopy X InplaceUpdateStatus_T = InplaceUpdateStatus_DeepCopy X"
| "deepCopy X InplaceSetUpdateStrategy_T = InplaceSetUpdateStrategy_DeepCopy X"
| "deepCopy X InplaceSetSpec_T = InplaceSetSpec_DeepCopy X"
| "deepCopy X InplaceSetStatus_T = InplaceSetStatus_DeepCopy X"
| "deepCopy X InplaceSet_T = InplaceSet_DeepCopyObject X"
| "deepCopy X InplaceSetList_T = InplaceSetList_DeepCopyObject X"
| "deepCopy X PlaintextOverrider_T = PlaintextOverrider_DeepCopy X"
| "deepCopy X Overriders_T = Overriders_DeepCopy X"
| "deepCopy X Region_T = Region_DeepCopy X"
| "deepCopy X RegionStatus_T = RegionStatus_DeepCopy X"
| "deepCopy X UpdateStrategy_T = UpdateStrategy_DeepCopy X"
| "deepCopy X Strategy_T = Strategy_DeepCopy X"
| "deepCopy X ExtendedDeploymentSpec_T = ExtendedDeploymentSpec_DeepCopy X"
| "deepCopy X ExtendedDeploymentStatus_T = ExtendedDeploymentStatus_DeepCopy X"
| "deepCopy X ExtendedDeployment_T = ExtendedDeployment_DeepCopyObject X"
| "deepCopy X ExtendedDeploymentList_T = ExtendedDeploymentList_DeepCopyObject X"

lemma deepCopy_deep: "sound_externals X \<Longrightarrow> is_deep (reads X (Pointer (schema T))) (deepCopy X T)"
  by (cases T) (simp_all add: copy_defs copyPointer_deep deep_types)

text \<open>
  C14: a deep copy of an API object is independent of the object. For every type of the API and
  every heap, the copy has the content of the original, the original keeps its content, and they have
  no cell in common; so no write through the copy changes the original, and none through the original
  changes the copy.
\<close>

theorem deep_copy_is_independent:
  assumes "sound_externals X" and "reads X (Pointer (schema T)) h p = Some (c, a)" and "deepCopy X T p h = (q, h')"
  shows "\<exists>b. reads X (Pointer (schema T)) h' q = Some (c, b) \<and> reads X (Pointer (schema T)) h' p = Some (c, a) \<and>
    set a \<inter> set b = {} \<and>
    (\<forall>i x. i \<in> set b \<longrightarrow> reads X (Pointer (schema T)) (h'[i := x]) p = Some (c, a)) \<and>
    (\<forall>i x. i \<in> set a \<longrightarrow> reads X (Pointer (schema T)) (h'[i := x]) q = Some (c, b))"
proof -
  let ?R = "reads X (Pointer (schema T))"
  have loc: "is_local ?R" by (rule reads_local [OF assms(1)])
  obtain b where b: "prefix h h'" "?R h' q = Some (c, b)" "\<forall>i \<in> set b. length h \<le> i"
    by (rule deepD [OF deepCopy_deep [OF assms(1)] assms(2,3)])
  have p: "?R h' p = Some (c, a)" by (rule local_prefix [OF loc assms(2) b(1)])
  have disj: "set a \<inter> set b = {}" using localD(1) [OF loc assms(2)] b(3) by fastforce
  have "?R (h'[i := x]) p = Some (c, a)" if "i \<in> set b" for i x
    using that disj by (intro localD(2) [OF loc p] cell_at_update) auto
  moreover have "?R (h'[i := x]) q = Some (c, b)" if "i \<in> set a" for i x
    using that disj by (intro localD(2) [OF loc b(2)] cell_at_update) auto
  ultimately show ?thesis using b(2) p disj by blast
qed

text \<open>
  A region in a heap in which the metadata is a map of labels: a write to the labels of the copy
  leaves the region.
\<close>

definition no_externals :: externals where
  "no_externals = \<lparr>ext_reads = (\<lambda>_ _ _. None), ext_copy = (\<lambda>_ v h. (v, h))\<rparr>"

definition map_externals :: externals where
  "map_externals = \<lparr>ext_reads = (\<lambda>_. reads no_externals StringMap), ext_copy = (\<lambda>_. copyMap)\<rparr>"

lemma map_externals_sound: "sound_externals map_externals"
proof -
  have "sound_externals no_externals" by (simp add: sound_externals_def no_externals_def is_local_def is_deep_def)
  from reads_local [OF this] copyMap_deep show ?thesis by (simp add: sound_externals_def map_externals_def)
qed

definition zone_heap :: heap where
  "zone_heap = [Entries [(''team'', ''a'')], Entries [(''zone'', ''z1'')],
     Box (Rec [(''TypeMeta'', Atom ''DeployRegion''), (''ObjectMeta'', Ref 0),
       (''Spec'', Rec [(''MatchLabels'', Ref 1)]), (''Status'', Rec [])])]"

definition zone_heap_after :: heap where
  "zone_heap_after = zone_heap @ [Entries [(''team'', ''a'')], Entries [(''zone'', ''z1'')],
     Box (Rec [(''TypeMeta'', Atom ''DeployRegion''), (''ObjectMeta'', Ref 3),
       (''Spec'', Rec [(''MatchLabels'', Ref 4)]), (''Status'', Rec [])])]"

definition zone_content :: content where
  "zone_content = Parts [Parts [Leaf ''DeployRegion'', Table [(''team'', ''a'')], Parts [Table [(''zone'', ''z1'')]], Parts []]]"

abbreviation reads_region :: "heap \<Rightarrow> gval \<Rightarrow> reading" where
  "reads_region \<equiv> reads map_externals (Pointer (schema DeployRegion_T))"

lemma zone_copied: "deepCopy map_externals DeployRegion_T (Ref 2) zone_heap = (Ref 5, zone_heap_after)"
  by (simp add: copy_defs DeployRegion_DeepCopyInto_def DeployRegionSpec_DeepCopyInto_def copyPointer_def copyStruct_def
      copyMap_def assign_def new_cell_def cell_at_def zone_heap_def zone_heap_after_def map_externals_def eval_nat_numeral)

lemma zone_reads:
  "reads_region zone_heap (Ref 2) = Some (zone_content, [2, 0, 1])"
  "reads_region zone_heap_after (Ref 5) = Some (zone_content, [5, 3, 4])"
  by (simp_all add: DeployRegion_type_def DeployRegionSpec_type_def DeployRegionStatus_type_def zone_heap_def
      zone_heap_after_def zone_content_def map_externals_def cell_at_def)

theorem deep_copy_is_independent_witness:
  "reads_region zone_heap (Ref 2) = Some (zone_content, [2, 0, 1]) \<and>
   deepCopy map_externals DeployRegion_T (Ref 2) zone_heap = (Ref 5, zone_heap_after) \<and>
   reads_region (zone_heap_after[4 := Entries []]) (Ref 2) = Some (zone_content, [2, 0, 1])"
  using deep_copy_is_independent [OF map_externals_sound zone_reads(1) zone_copied] zone_reads zone_copied by auto

end
