(* ===== verification/ObjectHash.thy ===== *)
theory ObjectHash
  imports GoLib "HOL-Library.Word"
begin

text \<open>
  The hash of an object (\<open>pkg/utils/hash/hash.go\<close>), by which the ExtendedDeployment controller marks
  the pod template of an in-place update: the object is printed by a third-party printer, the FNV-1a
  sum of the text is written in decimal and encoded in an alphabet without vowels. The printer is a
  parameter: the text it writes, and an error that is only logged.
\<close>

unbundle bit_operations_syntax

section \<open>The sum\<close>

type_synonym 'a printer = "'a \<Rightarrow> string \<times> err option"

definition offset32 :: "32 word" where "offset32 = 2166136261"
definition prime32 :: "32 word" where "prime32 = 16777619"

text \<open>\<open>Write\<close> of the hasher \<open>fnv.New32a()\<close>.\<close>

definition fnv_step :: "char \<Rightarrow> 32 word \<Rightarrow> 32 word" where
  "fnv_step c h = (h XOR word_of_nat (of_char c)) * prime32"

definition fnv_write :: "string \<Rightarrow> 32 word \<Rightarrow> 32 word" where
  "fnv_write = fold fnv_step"

text \<open>The hasher is reset first, so what it held before does not matter.\<close>

definition DeepHashObject :: "'a printer \<Rightarrow> 32 word \<Rightarrow> 'a \<Rightarrow> 32 word" where
  "DeepHashObject pretty hasher objectToWrite =
     (let hasher = offset32
      in (case pretty objectToWrite of (text, err) \<Rightarrow> fnv_write text hasher))"

definition alphanums :: string where
  "alphanums = ''bcdfghjklmnpqrstvwxz2456789''"

definition SafeEncodeString :: "string \<Rightarrow> string" where
  "SafeEncodeString s = map (\<lambda>b. alphanums ! (of_char b mod 27)) s"

definition HashObjectOf :: "'a printer \<Rightarrow> 'a \<Rightarrow> string" where
  "HashObjectOf pretty obj =
     (let hasher = DeepHashObject pretty offset32 obj
      in SafeEncodeString (show_nat (unat hasher)))"

section \<open>A step of the sum loses nothing\<close>

lemma prime32_inverse: "prime32 * 899433627 = 1"
  by (simp add: prime32_def)

lemma times_prime32: "x * prime32 = y * prime32 \<longleftrightarrow> x = y" for x y :: "32 word"
proof
  assume "x * prime32 = y * prime32"
  then have "x * (prime32 * 899433627) = y * (prime32 * 899433627)" by (simp only: mult.assoc [symmetric])
  then show "x = y" by (simp only: prime32_inverse mult_1_right)
qed simp

lemma xor_cancel: "x XOR c = y XOR c \<longleftrightarrow> x = y" for x y c :: "32 word"
proof
  assume "x XOR c = y XOR c"
  then have "(x XOR c) XOR c = (y XOR c) XOR c" by simp
  then show "x = y" by (simp add: xor.assoc)
qed simp

lemma fnv_step_state: "fnv_step c x = fnv_step c y \<longleftrightarrow> x = y"
  by (simp add: fnv_step_def times_prime32 xor_cancel)

lemma fnv_step_char: "fnv_step c x = fnv_step d x \<longleftrightarrow> c = d"
proof -
  have "word_of_nat (of_char c) = (word_of_nat (of_char d) :: 32 word) \<longleftrightarrow> c = d"
  proof
    assume "word_of_nat (of_char c) = (word_of_nat (of_char d) :: 32 word)"
    moreover have "of_char c < (256 :: nat)" "of_char d < (256 :: nat)" by simp_all
    ultimately have "of_char c = (of_char d :: nat)" by (simp add: word_of_nat_eq_iff take_bit_nat_eq_self)
    then show "c = d" by simp
  qed simp
  then show ?thesis by (simp add: fnv_step_def times_prime32 xor_cancel xor.commute [of x])
qed

lemma fnv_write_state: "fnv_write s x = fnv_write s y \<longleftrightarrow> x = y"
  unfolding fnv_write_def by (induction s arbitrary: x y) (simp_all add: fnv_step_state)

section \<open>The encoding loses nothing\<close>

abbreviation encode :: "char \<Rightarrow> char" where
  "encode b \<equiv> alphanums ! (of_char b mod 27)"

lemma encode_digits:
  "list_all (\<lambda>d. encode (digit_char d) \<in> set alphanums \<and>
     list_all (\<lambda>e. encode (digit_char d) = encode (digit_char e) \<longrightarrow> d = e) [0..<10]) [0..<10]"
  by code_simp

lemma encode_digit:
  assumes "d < 10"
  shows "encode (digit_char d) \<in> set alphanums" and "e < 10 \<Longrightarrow> encode (digit_char d) = encode (digit_char e) \<Longrightarrow> d = e"
proof -
  have "d \<in> set [0..<10]" "e < 10 \<Longrightarrow> e \<in> set [0..<10]" using assms by simp_all
  then show "encode (digit_char d) \<in> set alphanums" "e < 10 \<Longrightarrow> encode (digit_char d) = encode (digit_char e) \<Longrightarrow> d = e"
    using encode_digits unfolding list_all_iff by blast+
qed

lemma encode_inj: "SafeEncodeString (show_nat m) = SafeEncodeString (show_nat n) \<longleftrightarrow> m = n"
proof
  let ?D = "set (show_nat m) \<union> set (show_nat n)"
  have "inj_on encode ?D"
    by (rule inj_onI) (metis UnE encode_digit(2) show_nat_digits)
  moreover assume "SafeEncodeString (show_nat m) = SafeEncodeString (show_nat n)"
  ultimately have "show_nat m = show_nat n" unfolding SafeEncodeString_def by (rule map_inj_on [rotated])
  then have "Some m = Some n" by (metis digits_val_show_nat)
  then show "m = n" by simp
qed simp

lemma show_nat_length: "n < 10 ^ k \<Longrightarrow> 0 < k \<Longrightarrow> length (show_nat n) \<le> k"
proof (induction k arbitrary: n)
  case (Suc k)
  show ?case
  proof (cases "n < 10")
    case True
    then show ?thesis by (simp add: show_nat.simps [of n])
  next
    case False
    then have "0 < k" using Suc.prems(1) by (cases k) auto
    moreover have "n div 10 < 10 ^ k" using Suc.prems(1) by (simp add: less_mult_imp_div_less mult.commute)
    ultimately show ?thesis using Suc.IH [of "n div 10"] False by (simp add: show_nat.simps [of n])
  qed
qed simp

section \<open>What the hash tells apart\<close>

lemma HashObject_sum:
  "HashObjectOf pretty a = HashObjectOf pretty b \<longleftrightarrow>
     fnv_write (fst (pretty a)) offset32 = fnv_write (fst (pretty b)) offset32"
  by (simp add: HashObjectOf_def DeepHashObject_def Let_def encode_inj case_prod_unfold word_eq_iff_unsigned [where ?'a = nat])

text \<open>
  C37: the hash of an object is a word of at most ten characters of the safe alphabet, so it can be
  part of a name or a label; and two objects whose printed texts differ in one character have
  different hashes, so a template in which one character of an image is changed is told apart from
  the one before.
\<close>

theorem hash_tells_one_character:
  assumes "fst (pretty a) = u @ c # w" and "fst (pretty b) = u @ d # w" and "c \<noteq> d"
  shows "HashObjectOf pretty a \<noteq> HashObjectOf pretty b \<and>
    0 < length (HashObjectOf pretty a) \<and> length (HashObjectOf pretty a) \<le> 10 \<and>
    set (HashObjectOf pretty a) \<subseteq> set alphanums"
proof (intro conjI)
  have "fnv_write (u @ c # w) offset32 \<noteq> fnv_write (u @ d # w) offset32"
    using assms(3) fnv_write_state [of w] fnv_step_char by (simp add: fnv_write_def)
  then show "HashObjectOf pretty a \<noteq> HashObjectOf pretty b" using assms(1,2) by (simp add: HashObject_sum)
  let ?n = "unat (DeepHashObject pretty offset32 a)"
  have h: "HashObjectOf pretty a = SafeEncodeString (show_nat ?n)" by (simp add: HashObjectOf_def Let_def)
  have "?n < 2 ^ 32" using unsigned_less [of "DeepHashObject pretty offset32 a"] by simp
  then have "?n < 10 ^ 10" by simp
  from show_nat_length [OF this] show "length (HashObjectOf pretty a) \<le> 10" by (simp add: h SafeEncodeString_def)
  show "0 < length (HashObjectOf pretty a)" by (simp add: h SafeEncodeString_def)
  show "set (HashObjectOf pretty a) \<subseteq> set alphanums"
    using encode_digit(1) show_nat_digits [of _ ?n] by (auto simp: h SafeEncodeString_def)
qed

theorem hash_tells_one_character_witness:
  "HashObjectOf (\<lambda>s. (s, None)) ''nginx:1.26'' \<noteq> HashObjectOf (\<lambda>s. (s, None)) ''nginx:1.27''"
  using hash_tells_one_character [of "\<lambda>s. (s, None)" "''nginx:1.26''" "''nginx:1.2''" "CHR ''6''" "[]" "''nginx:1.27''" "CHR ''7''"]
  by simp

end
