(* ===== verification/Tooling.thy ===== *)
theory Tooling
  imports GoLib
begin

text \<open>
  The helpers of the command line: the usage and help texts (\<open>pkg/sharedcli/commandusage.go\<close>), the
  version text (\<open>pkg/version\<close>) and the clients for a configuration (\<open>pkg/utils/gclient\<close>). The
  command library tells whether a command has available subcommands, prints the sections of flags and
  writes to a terminal that may refuse a text; these are parameters.
\<close>

section \<open>Usage and help\<close>

record command =
  CmdName :: string
  Short :: string
  Long :: string
  Hidden :: bool
  CommandPath :: string
  UseLine :: string

text \<open>A command with its subcommands, and whether the library takes one of them for available.\<close>

record usage_command = command +
  Commands :: "command list"
  HasAvailableSubCommands :: bool

definition newline :: string where
  "newline = [CHR 0x0A]"

text \<open>\<open>%-30s\<close>: padded on the right to thirty characters.\<close>

definition padded :: "nat \<Rightarrow> string \<Rightarrow> string" where
  "padded n s = s @ replicate (n - length s) (CHR '' '')"

definition subcommandLine :: "string \<Rightarrow> 'a command_scheme \<Rightarrow> string" where
  "subcommandLine path sub = ''  '' @ path @ '' '' @ padded 30 (CmdName sub) @ ''  '' @ Short sub"

definition generatesAvailableSubCommands :: "usage_command \<Rightarrow> string list" where
  "generatesAvailableSubCommands cmd =
     (if \<not> HasAvailableSubCommands cmd then []
      else (newline @ ''Available Commands:'') #
        map (subcommandLine (CommandPath cmd)) (filter (\<lambda>sub. \<not> Hidden sub) (Commands cmd)))"

definition usageText :: "string \<Rightarrow> string" where
  "usageText useLine = ''Usage:'' @ newline @ ''  '' @ useLine @ newline"

text \<open>
  The texts written one after the other; \<open>refused\<close> says which of them the terminal refuses, given
  those tried before. A refused text is logged, the next one is tried all the same.
\<close>

definition tryWrite :: "(string list \<Rightarrow> string \<Rightarrow> bool) \<Rightarrow> string \<Rightarrow> string list \<Rightarrow> string list" where
  "tryWrite refused t out = (if refused out t then out else out @ [t])"

definition subCommandTexts :: "usage_command \<Rightarrow> string list" where
  "subCommandTexts cmd =
     (if HasAvailableSubCommands cmd then [Join (generatesAvailableSubCommands cmd) newline @ newline] else [])"

definition usageFunc :: "(string list \<Rightarrow> string \<Rightarrow> bool) \<Rightarrow> string \<Rightarrow> usage_command \<Rightarrow> string list" where
  "usageFunc refused sections cmd =
     fold (tryWrite refused) ([usageText (UseLine cmd)] @ subCommandTexts cmd @ [sections]) []"

definition helpFunc :: "(string list \<Rightarrow> string \<Rightarrow> bool) \<Rightarrow> string \<Rightarrow> usage_command \<Rightarrow> string list" where
  "helpFunc refused sections cmd =
     fold (tryWrite refused) ([Long cmd @ newline @ newline @ usageText (UseLine cmd)] @ subCommandTexts cmd @ [sections]) []"

text \<open>A hidden command is in no text, a visible one has its line in both.\<close>

lemma usage_lists_visible:
  assumes "\<And>out t. \<not> refused out t" and "HasAvailableSubCommands cmd"
  shows "\<exists>lines. usageFunc refused sections cmd = [usageText (UseLine cmd), Join lines newline @ newline, sections] \<and>
    tl lines = map (subcommandLine (CommandPath cmd)) (filter (\<lambda>sub. \<not> Hidden sub) (Commands cmd)) \<and>
    helpFunc refused sections cmd =
      [Long cmd @ newline @ newline @ usageText (UseLine cmd), Join lines newline @ newline, sections]"
  using assms
  by (intro exI [of _ "generatesAvailableSubCommands cmd"])
    (simp add: usageFunc_def helpFunc_def tryWrite_def subCommandTexts_def generatesAvailableSubCommands_def)

section \<open>The version\<close>

record build_info =
  AppVersion :: string
  GitCommitID :: string
  BuildTime :: string
  GoVersion :: string

definition default_build :: build_info where
  "default_build = \<lparr>AppVersion = ''v0.0.0'', GitCommitID = [], BuildTime = ''0000-00-00 00:00:00'', GoVersion = []\<rparr>"

definition Version :: "build_info \<Rightarrow> string" where
  "Version b = newline @ ''AppVersion: '' @ AppVersion b @ newline @ ''  CommitID: '' @ GitCommitID b @ newline @
     '' BuildTime: '' @ BuildTime b @ newline @ '' GoVersion: '' @ GoVersion b"

section \<open>Clients\<close>

text \<open>The schemes of Kubernetes and of this API, added when the package is initialised.\<close>

definition aggregatedScheme :: "string list" where
  "aggregatedScheme = [''kubernetes'', ''v1beta1'']"

definition NewSchema :: "string list" where
  "NewSchema = aggregatedScheme"

definition NewForConfig :: "('c \<Rightarrow> string list \<Rightarrow> err + 'k) \<Rightarrow> 'c \<Rightarrow> err + 'k" where
  "NewForConfig new config = new config aggregatedScheme"

definition NewForConfigOrDie :: "('c \<Rightarrow> string list \<Rightarrow> err + 'k) \<Rightarrow> 'c \<Rightarrow> 'k res" where
  "NewForConfigOrDie new config = (case NewForConfig new config of Inl e \<Rightarrow> Panic e | Inr c \<Rightarrow> Ok c)"

lemma client_or_panic: "NewForConfigOrDie new config \<noteq> Err e"
  by (simp add: NewForConfigOrDie_def split: sum.split)

end
