(* ===== verification/Spec2Isabelle.thy ===== *)
theory Spec2Isabelle
  imports PlanFlow RegionProgress InplaceSync Webhook InformerKeys InformerManager ControllerManager
    DeepCopies ObjectHash Tooling
begin

text \<open>
  Verification of the ExtendedDeployment controllers.

  \<^bold>\<open>The program.\<close> An ExtendedDeployment asks for replicas of a pod template in several regions
  (DeployRegions, sets of labelled nodes). Four controllers share the work over the Kubernetes API.
  The ExtendedDeployment controller (\<open>pkg/controllers/extendeddeployment\<close>) keeps one workload per
  region and template, a \<^emph>\<open>subset\<close>: an InplaceSet, a Deployment or a ReplicaSet behind an adapter; it
  rolls out new templates term by term, keeps revisions and rolls back. The InplaceSet controller
  (\<open>pkg/controllers/inplaceset\<close>) keeps the pods of an InplaceSet and updates them in place. The
  DeployRegion controller (\<open>pkg/controllers/deployregion\<close>) caches regions, nodes and pods and
  flags ExtendedDeployments with failed regions. The reschedule controller
  (\<open>pkg/controllers/reschedule\<close>) plans the transfer of replicas out of failed or full regions;
  the ExtendedDeployment controller reads the plan from an annotation. A webhook
  (\<open>pkg/webhook/v1beta1\<close>) validates specifications. The process (\<open>cmd\<close>) reads its options, sets
  the controllers up and runs them in one manager; \<open>pkg/utils/informermanager\<close> is a registry of
  event handlers beside them.

  \<^bold>\<open>How it is modelled.\<close> Structs are records, pointer fields are options, maps are association
  lists in an iteration order that theorems leave open, \<open>int32\<close> and \<open>int64\<close> arithmetic wraps
  around explicitly (\<open>i32\<close>, \<open>i64\<close>), times are nanoseconds. A function that talks to the API
  server is an action: it takes the list of requests sent so far and returns an outcome (a value, an
  error or a panic) and the longer list. The answers of the server and of the clock are functions of
  that list in the record \<open>server\<close>, third-party functions (JSON, hashes, patches, selectors) are
  the records \<open>ext\<close> and \<open>ips_ext\<close>: the theorems hold for all of them, with the documented
  behaviour they need as hypotheses. The handlers of the DeployRegion controller also take and
  return the cache, which survives errors and panics.

  \<^bold>\<open>The theories.\<close>
  \<^item> \<open>Prelude\<close>: outcomes, actions, and the predicates \<open>emits\<close> (which requests may be sent),
    \<open>succeeds\<close> and \<open>panic_free\<close> with their closure rules; \<open>GoLib\<close>: integers, \<open>strconv\<close>,
    \<open>strings\<close>, maps, sorting (locale \<open>less_order\<close>); \<open>ApiTypes\<close>: the data of
    \<open>api/v1beta1\<close> and of Kubernetes, requests and answers.
  \<^item> \<open>Utils\<close>: \<open>pkg/utils\<close> (annotations, labels and affinity, overrides). \<open>Conditions\<close>: status
    conditions, with the contract \<open>condition_list\<close> interpreted for both kinds. \<open>RefManager\<close>:
    claiming, adopting and releasing workloads; only own objects are written.
  \<^item> \<open>Replicas\<close>: replica counts of regions and the checks of the webhook; admitted specifications parse,
    and their percentages add up to the total but for rounding. \<open>Webhook\<close>: the handlers on any
    runtime object, and what every history of admitted writes keeps (\<open>stored\<close>).
  \<^item> \<open>Adapter\<close>: the three workload adapters and their contract \<open>adapter_contract\<close>, interpreted for
    each; \<open>Scaling\<close>: step sizes, surge and unavailability budgets; \<open>SubsetControl\<close>: every operation of
    \<open>subset_control.go\<close>, \<open>rolling.go\<close> and \<open>region.go\<close>.
  \<^item> \<open>Rollout\<close>, \<open>Manage\<close>, \<open>Grouping\<close>: what these operations guarantee: only old and unused subsets are
    deleted, delete-first waits for the old pods, clean-up takes no available replica, grouping is a
    partition. \<open>RegionSync\<close>: the writes of one synchronisation of a region keep it available.
    \<open>RegionProgress\<close>: repeated synchronisations bring the new workload to the desired count.
  \<^item> \<open>Status\<close>, \<open>Revision\<close>, \<open>Reconcile\<close>: \<open>update.go\<close>, \<open>revision.go\<close> and \<open>rollback.go\<close>,
    \<open>controller.go\<close>; nothing moves before a confirmation or before a term is ready, a rollback
    restores the stored specification.
  \<^item> \<open>InplaceUpdate\<close>: \<open>inplace_update.go\<close> and \<open>batch.go\<close>; the gate is closed before a pod is
    changed, the grace period is kept. \<open>InplaceSetCtl\<close>: \<open>controller.go\<close> of the InplaceSet controller.
    \<open>PodCount\<close>: slow start, an abstract specification of the number of pods (\<open>burst_step\<close>), its
    refinement and convergence. \<open>InplaceSync\<close>: ownership of pods and freedom from panics.
  \<^item> \<open>DeployRes\<close>: \<open>resource.go\<close>. \<open>DeployRegion\<close>: cache, queries, events and \<open>Sync\<close>. \<open>RegionCache\<close>:
    triples over the cache and the status of a region. \<open>RegionIndex\<close>: the index from nodes to regions as
    an invariant of all reachable caches. \<open>RegionEffects\<close>: the accounting of a node, the reported
    capacity, what a synchronisation writes.
  \<^item> \<open>Reschedule\<close>: \<open>reschedule.go\<close>, \<open>deployment.go\<close> and \<open>controller.go\<close> of the reschedule
    controller. \<open>Failover\<close>: the greedy loop is complete and a transfer keeps the total. \<open>FailureFlag\<close>: the
    flag between the two controllers, the form of a plan, what the controller writes. \<open>PlanFlow\<close>: from
    the plan through the annotation to the desired replicas of the regions, without losing a replica.
  \<^item> \<open>ControllerManager\<close>: \<open>main.go\<close>, options, initializers, \<open>Run\<close> and the \<open>Setup\<close>,
    \<open>SetupWithManager\<close> and \<open>Start\<close> of the controllers; the calls into the libraries are events whose
    answers are arbitrary. The manager starts only when everything is in place.
  \<^item> \<open>InformerManager\<close>: the registry of handlers, with the contract \<open>handler_registry\<close>, and calls that
    interleave (\<open>call_step\<close>). \<open>InformerKeys\<close>: keys of objects and the handlers for all events, for single
    events and with a filter.
  \<^item> \<open>Store\<close>, \<open>DeepCopies\<close>: the generated deep copies on an explicit heap; a copy shares no memory with
    its original, which is what treating objects as values relies on. \<open>ObjectHash\<close>: the hash of a pod
    template, which tells texts apart that differ in one character. \<open>Tooling\<close>: usage texts, version,
    clients.
  \<^item> This theory: the properties that span grouping and the saturation check, and admission and
    grouping.

  \<^bold>\<open>Bounds and fuel.\<close> No definition needs fuel: loops run over lists, over the tries the code
  allows (five updates, four steps of \<open>retry.DefaultBackoff\<close>, two writes of an InplaceSet status) or
  over a count (slow start, rescheduling). Go's \<open>float64\<close> appears in two places, the rounding of a
  percentage and the share of failed nodes; both are rationals, exact for the values an \<open>int32\<close>
  replica count and a number of nodes can take, and the share of an empty region (not a number) is its
  own case.

  \<^bold>\<open>Simplifications.\<close> The replica count of a subset is an integer, nil being 0. A nil map and an
  empty map are the same. Goroutines started for a batch run one after the other. Log lines are left
  out except where their arguments are dereferenced; the text of an error is kept only where it is
  compared. The cache is read by the reschedule controller as it is at the start of a reconciliation.

  \<^bold>\<open>Not modelled.\<close> Loggers and the flags of klog, which are only handed to third-party libraries;
  a metric of the InplaceSet controller that computes ages and reports nothing; interfaces and
  comparison functions that no code of the program calls. Tests.
\<close>

text \<open>
  C6: when a reconciliation finds the deployment saturated, the rollout is complete in every
  region of the specification: there is a new subset that asks for exactly the desired replicas and
  has at least so many available (during an in-place update, so many pods of the updated template).
\<close>

theorem saturated_deployment_is_rolled_out:
  assumes "groupSubset C cd rm m h = (Ok m', h')" and "checkSaturated (regionInfoMap m')"
  shows "fst ` set (regionInfoMap m') = RegionName ` set (Regions (Spec cd)) \<and>
     (\<forall>p \<in> set (regionInfoMap m'). rolled_out (Ext C) (snd p))"
  using assms saturated_region_is_rolled_out [OF assms(1)] grouping_keys [OF assms(1)]
  by (auto simp: checkSaturated_iff)

theorem saturated_deployment_is_rolled_out_witness:
  "groupSubset sample_ctl one_region_app [] only_listed [] = (Ok grouped_one, []) \<and>
   list_all (\<lambda>p. rolled_out (Ext sample_ctl) (snd p)) (regionInfoMap grouped_one)"
  using saturated_deployment_is_rolled_out [OF group_one]
  by (simp add: list_all_iff group_one grouped_one_def)

section \<open>From admission to grouping\<close>

lemma update_fresh: "k \<notin> fst ` set m \<Longrightarrow> AList.update k v m = m @ [(k, v)]"
  by (induction m) auto

lemma fold_fresh_keys:
  assumes "distinct (map f rs)" and "\<forall>r \<in> set rs. f r \<notin> fst ` set m"
  shows "fold (\<lambda>r. mset_key (f r) (g r)) rs m = m @ map (\<lambda>r. (f r, g r)) rs"
  using assms
proof (induction rs arbitrary: m)
  case (Cons r rs)
  then have "mset_key (f r) (g r) m = m @ [(f r, g r)]"
    by (simp add: mset_key_def update_fresh)
  moreover have "fold (\<lambda>r. mset_key (f r) (g r)) rs (m @ [(f r, g r)]) = (m @ [(f r, g r)]) @ map (\<lambda>r. (f r, g r)) rs"
    using Cons.prems by (intro Cons.IH) (auto simp: image_iff)
  ultimately show ?case by simp
qed simp

lemma configured_distinct:
  "distinct (map RegionName (Regions (Spec d))) \<Longrightarrow>
   configured d = map (\<lambda>r. (RegionName r, count_of d r)) (Regions (Spec d))"
  by (simp add: configured_def fold_fresh_keys)

lemma buildRegionInfo_succeeds:
  assumes "Replicas (Spec d) = Some n"
    and "\<forall>r \<in> set (Regions (Spec d)). \<exists>v k. RegionReplicas r = Some v \<and> ParseRegionReplicas n v = Inr k"
  shows "\<exists>mp. \<forall>h. buildRegionInfo d rm h = (Ok mp, h)"
proof -
  let ?f = "\<lambda>region mp. bind_io (deref (Replicas (Spec d))) (\<lambda>totalReplicas.
       bind_io (deref (RegionReplicas region)) (\<lambda>rr.
       bind_io (of_sum (ParseRegionReplicas totalReplicas rr)) (\<lambda>replicas.
       ret (mset_key (RegionName region) (zero_region_info\<lparr>ConfiguredReplicas := replicas,
         DesiredReplicas := replicas, Region := mget rm (RegionName region)\<rparr>) mp))))
       :: region_info gomap action"
  have "\<exists>mp'. \<forall>h. for_io ?f rs mp h = (Ok mp', h)" if "set rs \<subseteq> set (Regions (Spec d))" for rs mp
    using that
  proof (induction rs arbitrary: mp)
    case (Cons r rs)
    then obtain v k where r: "RegionReplicas r = Some v" "ParseRegionReplicas n v = Inr k"
      using assms(2) by auto
    let ?m = "mset_key (RegionName r) (zero_region_info\<lparr>ConfiguredReplicas := k,
         DesiredReplicas := k, Region := mget rm (RegionName r)\<rparr>) mp"
    obtain mp' where "\<And>h. for_io ?f rs ?m h = (Ok mp', h)" using Cons by fastforce
    then have "\<And>h. for_io ?f (r # rs) mp h = (Ok mp', h)"
      using r assms(1) by (simp add: bind_io_def deref_def of_sum_def ret_def)
    then show ?case by blast
  qed (simp add: ret_def)
  from this [of "Regions (Spec d)" "[]"] show ?thesis by (simp add: buildRegionInfo_def)
qed

lemma is_str_regionD: "is_str_region r \<Longrightarrow> \<exists>s. RegionReplicas r = Some (StrVal s)"
  by (cases "the (RegionReplicas r)") (auto simp: is_str_region_def is_IntVal_def split: option.splits)

text \<open>The counts that the percentages of a specification give, region by region.\<close>

lemma percentage_counts:
  assumes "compareReplicas d = Ok []" and "Replicas (Spec d) = Some n" and "0 < n" and "is_i32 n"
    and "\<forall>r \<in> set (Regions (Spec d)). \<exists>s. RegionReplicas r = Some (StrVal s)"
  shows "2 * \<bar>(\<Sum>r \<leftarrow> Regions (Spec d). count_of d r) - n\<bar> \<le> int (length (Regions (Spec d)))"
proof -
  obtain ks where ks: "map (\<lambda>r. ParseRegionReplicas n (the (RegionReplicas r))) (Regions (Spec d)) = map Inr ks"
    "2 * \<bar>sum_list ks - n\<bar> \<le> int (length (Regions (Spec d)))"
    using admitted_percentages_total [OF assms] by (elim exE conjE)
  have "count_of d r = projr (ParseRegionReplicas n (the (RegionReplicas r)))" if r: "r \<in> set (Regions (Spec d))" for r
  proof -
    obtain s where "RegionReplicas r = Some (StrVal s)" using assms(5) r by blast
    moreover from r have "ParseRegionReplicas n (the (RegionReplicas r)) \<in> set (map Inr ks)"
      unfolding ks(1) [symmetric] by simp
    ultimately show ?thesis using assms(2) by (auto simp: count_of_def)
  qed
  then have "map (count_of d) (Regions (Spec d)) =
      map projr (map (\<lambda>r. ParseRegionReplicas n (the (RegionReplicas r))) (Regions (Spec d)))"
    unfolding map_map comp_def by (intro map_cong refl)
  also have "\<dots> = ks" unfolding ks(1) by (simp add: comp_def)
  finally show ?thesis using ks(2) by simp
qed



text \<open>
  The two conditions on the counts are not checked on admission. A region without a count beside one
  of 100% is admitted, and the first reconciliation dereferences the missing count; a negative count
  is admitted, and grouping reports an error in every reconciliation.
\<close>

abbreviation shared :: "int_or_string option \<Rightarrow> int_or_string option \<Rightarrow> extended_deployment" where
  "shared a b \<equiv> zero_ED\<lparr>Spec := zero_ed_spec\<lparr>Replicas := Some 2,
     Regions := [\<lparr>RegionName = ''r1'', RegionReplicas = a\<rparr>, \<lparr>RegionName = ''r2'', RegionReplicas = b\<rparr>]\<rparr>\<rparr>"

lemma parse_100: "ParseInt_sum ''100'' 32 = Inr 100"
  by (simp add: ParseInt_sum_def ParseInt_def digit_val_def)

lemma shared_admitted:
  "compareReplicas (shared a b) = Ok [] \<Longrightarrow> ED_ValidateCreate (\<lambda>_. []) (EDObject (shared a b)) = Ok ()"
  by (simp add: ValidateCreate_Ok validateForExtendedDeployment_def validatePodTemplate_def zero_values)

theorem region_without_count_panics:
  "ED_ValidateCreate (\<lambda>_. []) (EDObject (shared (Some (StrVal ''100%'')) None)) = Ok () \<and>
   (\<exists>e. buildRegionInfo (shared (Some (StrVal ''100%'')) None) rm h = (Panic e, h))"
proof
  show "ED_ValidateCreate (\<lambda>_. []) (EDObject (shared (Some (StrVal ''100%'')) None)) = Ok ()"
    using parse_100 by (intro shared_admitted)
      (simp add: compareReplicas_def is_int_region_def is_IntVal_def HasSuffix_def zero_values)
  show "\<exists>e. buildRegionInfo (shared (Some (StrVal ''100%'')) None) rm h = (Panic e, h)"
    using parse_100 ParseRegionReplicas_percent [of 2 "''100%''" 100]
    by (simp add: buildRegionInfo_def bind_io_def deref_def of_sum_def ret_def panic_def nil_deref_def
        HasSuffix_def is_i32_def zero_values)
qed

theorem negative_count_is_admitted:
  "ED_ValidateCreate (\<lambda>_. []) (EDObject (shared (Some (IntVal 3)) (Some (IntVal (- 1))))) = Ok () \<and>
   (\<exists>e. buildRegionInfo (shared (Some (IntVal 3)) (Some (IntVal (- 1)))) rm h = (Err e, h))"
proof
  show "ED_ValidateCreate (\<lambda>_. []) (EDObject (shared (Some (IntVal 3)) (Some (IntVal (- 1))))) = Ok ()"
    by (intro shared_admitted)
      (simp add: compareReplicas_def isRegionReplicasTypeConsistent_def is_int_region_def is_IntVal_def zero_values)
  show "\<exists>e. buildRegionInfo (shared (Some (IntVal 3)) (Some (IntVal (- 1)))) rm h = (Err e, h)"
    by (simp add: buildRegionInfo_def bind_io_def deref_def of_sum_def ret_def fail_def ParseRegionReplicas_def zero_values)
qed

end
